(* ===== verification/Gw_Fsm.thy ===== *)
theory Gw_Fsm
  imports Gw_Prelude
begin

text \<open>
  The four public state machines of \<open>gwk-domain/src/fsm.rs\<close>: an enum, its table of edges and its
  escape set each, with terminality and edge legality derived from the table as the trait
  \<open>StateMachine\<close> derives them. The locale \<open>state_machine\<close> states what the contract asks of
  a table, and \<open>wire_enum\<close> what it asks of the snake-case wire names; both are interpreted on all
  four machines.
\<close>

section \<open>The trait StateMachine\<close>

definition is_terminal :: "('s \<times> 's) list \<Rightarrow> 's \<Rightarrow> bool" where
  "is_terminal edges s \<longleftrightarrow> \<not> list_ex (\<lambda>(f, _). f = s) edges"

definition can_transition :: "('s \<times> 's) list \<Rightarrow> 's \<Rightarrow> 's \<Rightarrow> bool" where
  "can_transition edges f t \<longleftrightarrow> List.member edges (f, t)"

text \<open>
  A state escapes when it reaches a terminal state by edges into the escape set only; an empty
  escape set stands for every edge (the command machine).
\<close>

inductive escapes :: "('s \<times> 's) list \<Rightarrow> 's list \<Rightarrow> 's \<Rightarrow> bool"
  for edges :: "('s \<times> 's) list" and escape :: "'s list" where
  terminal: "is_terminal edges s \<Longrightarrow> escapes edges escape s"
| step: "can_transition edges s t \<Longrightarrow> escape = [] \<or> t \<in> set escape \<Longrightarrow> escapes edges escape t
     \<Longrightarrow> escapes edges escape s"

fun can_escape :: "nat \<Rightarrow> ('s \<times> 's) list \<Rightarrow> 's list \<Rightarrow> 's \<Rightarrow> bool" where
  "can_escape 0 edges escape s = is_terminal edges s"
| "can_escape (Suc n) edges escape s =
     (is_terminal edges s \<or>
      list_ex (\<lambda>(f, t). f = s \<and> (escape = [] \<or> List.member escape t)
                        \<and> can_escape n edges escape t) edges)"

lemma can_escape_escapes: "can_escape n edges escape s \<Longrightarrow> escapes edges escape s"
proof (induction n arbitrary: s)
  case 0
  then show ?case by (simp add: escapes.terminal)
next
  case (Suc n)
  then show ?case
    by (auto simp: list_ex_iff can_transition_def intro: escapes.terminal escapes.step)
qed

text \<open>A history of a machine: every step along an edge of the table.\<close>

fun legal_run :: "('s \<times> 's) list \<Rightarrow> 's \<Rightarrow> 's list \<Rightarrow> bool" where
  "legal_run edges s [] = True"
| "legal_run edges s (t # ts) = (can_transition edges s t \<and> legal_run edges t ts)"

lemma legal_run_append:
  "legal_run edges s (ts @ us) \<longleftrightarrow> legal_run edges s ts \<and> legal_run edges (last (s # ts)) us"
  by (induction ts arbitrary: s) auto

lemma is_terminal_iff: "is_terminal edges s \<longleftrightarrow> (\<forall>t. \<not> can_transition edges s t)"
  by (force simp: is_terminal_def can_transition_def list_ex_iff)

lemma terminal_run: "is_terminal edges s \<Longrightarrow> legal_run edges s ts \<longleftrightarrow> ts = []"
  by (cases ts) (auto simp: is_terminal_iff)

locale state_machine =
  fixes states :: "'s list" and edges :: "('s \<times> 's) list" and escape :: "'s list"
  assumes states_complete: "s \<in> set states"
    and edges_move: "list_all (\<lambda>(s, t). s \<noteq> t) edges"
    and states_escape: "list_all (can_escape (length states) edges escape) states"
begin

lemma always_escapes: "escapes edges escape s"
  using states_escape states_complete [of s]
  by (auto simp: list_all_iff intro: can_escape_escapes)

lemma no_self_edge [simp]: "\<not> can_transition edges s s"
  using edges_move by (auto simp: can_transition_def list_all_iff)

lemma moves: "can_transition edges s t \<Longrightarrow> s \<noteq> t"
  by auto

end

text \<open>The wire spelling of an enum, as its derived serializer and deserializer write and read it.\<close>

locale wire_enum =
  fixes to_wire :: "'s \<Rightarrow> string" and from_wire :: "string \<Rightarrow> 's option"
  assumes from_to_wire: "from_wire (to_wire s) = Some s"
    and to_from_wire: "from_wire w = Some s \<Longrightarrow> to_wire s = w"
begin

lemma to_wire_inject: "to_wire s = to_wire t \<longleftrightarrow> s = t"
  by (metis from_to_wire option.inject)

lemma from_wire_iff: "from_wire w = Some s \<longleftrightarrow> w = to_wire s"
  using from_to_wire to_from_wire by auto

end

section \<open>The task machine\<close>

datatype task_state =
    Task_Submitted
  | Task_Working
  | Task_InputRequired
  | Task_Completed
  | Task_Failed
  | Task_Canceled

definition task_states :: "task_state list" where
  "task_states = [Task_Submitted, Task_Working, Task_InputRequired,
     Task_Completed, Task_Failed, Task_Canceled]"

definition task_edges :: "(task_state \<times> task_state) list" where
  "task_edges = [
     (Task_Submitted, Task_Working), (Task_Submitted, Task_Canceled),
     (Task_Working, Task_InputRequired), (Task_Working, Task_Completed),
     (Task_Working, Task_Failed), (Task_Working, Task_Canceled),
     (Task_InputRequired, Task_Working), (Task_InputRequired, Task_Canceled)]"

definition task_escape :: "task_state list" where
  "task_escape = [Task_Canceled, Task_Failed]"

fun task_state_str :: "task_state \<Rightarrow> string" where
  "task_state_str Task_Submitted = ''submitted''"
| "task_state_str Task_Working = ''working''"
| "task_state_str Task_InputRequired = ''input_required''"
| "task_state_str Task_Completed = ''completed''"
| "task_state_str Task_Failed = ''failed''"
| "task_state_str Task_Canceled = ''canceled''"

definition task_state_parse :: "string \<Rightarrow> task_state option" where
  "task_state_parse w = find (\<lambda>s. task_state_str s = w) task_states"

interpretation task_fsm: state_machine task_states task_edges task_escape
proof
  show "s \<in> set task_states" for s by (cases s) (simp_all add: task_states_def)
  show "list_all (\<lambda>(s, t). s \<noteq> t) task_edges" by code_simp
  show "list_all (can_escape (length task_states) task_edges task_escape) task_states"
    by code_simp
qed

interpretation task_wire: wire_enum task_state_str task_state_parse
proof
  show "task_state_parse (task_state_str s) = Some s" for s
    by (cases s) (simp_all add: task_state_parse_def task_states_def)
  show "task_state_str s = w" if "task_state_parse w = Some s" for w s
    using that by (auto simp: task_state_parse_def find_Some_iff)
qed

section \<open>The attempt machine\<close>

datatype attempt_state =
    Attempt_Queued
  | Attempt_Leased
  | Attempt_Starting
  | Attempt_Running
  | Attempt_Blocked
  | Attempt_Canceling
  | Attempt_Canceled
  | Attempt_Failed
  | Attempt_Unknown
  | Attempt_Succeeded

definition attempt_states :: "attempt_state list" where
  "attempt_states = [Attempt_Queued, Attempt_Leased, Attempt_Starting,
     Attempt_Running, Attempt_Blocked, Attempt_Canceling,
     Attempt_Canceled, Attempt_Failed, Attempt_Unknown,
     Attempt_Succeeded]"

definition attempt_edges :: "(attempt_state \<times> attempt_state) list" where
  "attempt_edges = [
     (Attempt_Queued, Attempt_Leased), (Attempt_Queued, Attempt_Canceled),
     (Attempt_Leased, Attempt_Starting), (Attempt_Leased, Attempt_Canceled),
     (Attempt_Starting, Attempt_Running), (Attempt_Starting, Attempt_Failed),
     (Attempt_Starting, Attempt_Unknown), (Attempt_Starting, Attempt_Canceling),
     (Attempt_Running, Attempt_Blocked), (Attempt_Running, Attempt_Canceling),
     (Attempt_Running, Attempt_Failed), (Attempt_Running, Attempt_Unknown),
     (Attempt_Running, Attempt_Succeeded), (Attempt_Blocked, Attempt_Running),
     (Attempt_Blocked, Attempt_Canceling), (Attempt_Blocked, Attempt_Failed),
     (Attempt_Blocked, Attempt_Unknown), (Attempt_Canceling, Attempt_Canceled),
     (Attempt_Canceling, Attempt_Unknown)]"

definition attempt_escape :: "attempt_state list" where
  "attempt_escape = [Attempt_Canceling, Attempt_Canceled, Attempt_Failed, Attempt_Unknown]"

fun attempt_state_str :: "attempt_state \<Rightarrow> string" where
  "attempt_state_str Attempt_Queued = ''queued''"
| "attempt_state_str Attempt_Leased = ''leased''"
| "attempt_state_str Attempt_Starting = ''starting''"
| "attempt_state_str Attempt_Running = ''running''"
| "attempt_state_str Attempt_Blocked = ''blocked''"
| "attempt_state_str Attempt_Canceling = ''canceling''"
| "attempt_state_str Attempt_Canceled = ''canceled''"
| "attempt_state_str Attempt_Failed = ''failed''"
| "attempt_state_str Attempt_Unknown = ''unknown''"
| "attempt_state_str Attempt_Succeeded = ''succeeded''"

definition attempt_state_parse :: "string \<Rightarrow> attempt_state option" where
  "attempt_state_parse w = find (\<lambda>s. attempt_state_str s = w) attempt_states"

interpretation attempt_fsm: state_machine attempt_states attempt_edges attempt_escape
proof
  show "s \<in> set attempt_states" for s by (cases s) (simp_all add: attempt_states_def)
  show "list_all (\<lambda>(s, t). s \<noteq> t) attempt_edges" by code_simp
  show "list_all (can_escape (length attempt_states) attempt_edges attempt_escape) attempt_states"
    by code_simp
qed

interpretation attempt_wire: wire_enum attempt_state_str attempt_state_parse
proof
  show "attempt_state_parse (attempt_state_str s) = Some s" for s
    by (cases s) (simp_all add: attempt_state_parse_def attempt_states_def)
  show "attempt_state_str s = w" if "attempt_state_parse w = Some s" for w s
    using that by (auto simp: attempt_state_parse_def find_Some_iff)
qed

section \<open>The message machine\<close>

datatype message_state =
    Message_Accepted
  | Message_Delivered
  | Message_Acknowledged
  | Message_Applied
  | Message_Rejected
  | Message_DeadLetter

definition message_states :: "message_state list" where
  "message_states = [Message_Accepted, Message_Delivered, Message_Acknowledged,
     Message_Applied, Message_Rejected, Message_DeadLetter]"

definition message_edges :: "(message_state \<times> message_state) list" where
  "message_edges = [
     (Message_Accepted, Message_Delivered), (Message_Accepted, Message_DeadLetter),
     (Message_Delivered, Message_Acknowledged), (Message_Delivered, Message_DeadLetter),
     (Message_Acknowledged, Message_Applied), (Message_Acknowledged, Message_Rejected),
     (Message_Acknowledged, Message_DeadLetter)]"

definition message_escape :: "message_state list" where
  "message_escape = [Message_DeadLetter]"

fun message_state_str :: "message_state \<Rightarrow> string" where
  "message_state_str Message_Accepted = ''accepted''"
| "message_state_str Message_Delivered = ''delivered''"
| "message_state_str Message_Acknowledged = ''acknowledged''"
| "message_state_str Message_Applied = ''applied''"
| "message_state_str Message_Rejected = ''rejected''"
| "message_state_str Message_DeadLetter = ''dead_letter''"

definition message_state_parse :: "string \<Rightarrow> message_state option" where
  "message_state_parse w = find (\<lambda>s. message_state_str s = w) message_states"

interpretation message_fsm: state_machine message_states message_edges message_escape
proof
  show "s \<in> set message_states" for s by (cases s) (simp_all add: message_states_def)
  show "list_all (\<lambda>(s, t). s \<noteq> t) message_edges" by code_simp
  show "list_all (can_escape (length message_states) message_edges message_escape) message_states"
    by code_simp
qed

interpretation message_wire: wire_enum message_state_str message_state_parse
proof
  show "message_state_parse (message_state_str s) = Some s" for s
    by (cases s) (simp_all add: message_state_parse_def message_states_def)
  show "message_state_str s = w" if "message_state_parse w = Some s" for w s
    using that by (auto simp: message_state_parse_def find_Some_iff)
qed

section \<open>The command machine\<close>

datatype command_state =
    Command_Issued
  | Command_Targeted
  | Command_Signaled
  | Command_VerificationComplete

definition command_states :: "command_state list" where
  "command_states = [Command_Issued, Command_Targeted, Command_Signaled,
     Command_VerificationComplete]"

definition command_edges :: "(command_state \<times> command_state) list" where
  "command_edges = [
     (Command_Issued, Command_Targeted), (Command_Targeted, Command_Signaled),
     (Command_Signaled, Command_VerificationComplete)]"

definition command_escape :: "command_state list" where
  "command_escape = []"

fun command_state_str :: "command_state \<Rightarrow> string" where
  "command_state_str Command_Issued = ''issued''"
| "command_state_str Command_Targeted = ''targeted''"
| "command_state_str Command_Signaled = ''signaled''"
| "command_state_str Command_VerificationComplete = ''verification_complete''"

definition command_state_parse :: "string \<Rightarrow> command_state option" where
  "command_state_parse w = find (\<lambda>s. command_state_str s = w) command_states"

interpretation command_fsm: state_machine command_states command_edges command_escape
proof
  show "s \<in> set command_states" for s by (cases s) (simp_all add: command_states_def)
  show "list_all (\<lambda>(s, t). s \<noteq> t) command_edges" by code_simp
  show "list_all (can_escape (length command_states) command_edges command_escape) command_states"
    by code_simp
qed

interpretation command_wire: wire_enum command_state_str command_state_parse
proof
  show "command_state_parse (command_state_str s) = Some s" for s
    by (cases s) (simp_all add: command_state_parse_def command_states_def)
  show "command_state_str s = w" if "command_state_parse w = Some s" for w s
    using that by (auto simp: command_state_parse_def find_Some_iff)
qed

section \<open>The closed sets beside the machines\<close>

datatype outcome = Outcome_Clean | Outcome_Partial | Outcome_Unknown

datatype gate_verdict = Gate_Pending | Gate_Pass | Gate_Fail | Gate_Partial

datatype lease_state = Lease_Held | Lease_Released | Lease_Expired

datatype lease_mode = Lease_Exclusive | Lease_Shared

section \<open>Properties\<close>

lemmas fsm_no_self_edge [simp] =
  task_fsm.no_self_edge attempt_fsm.no_self_edge message_fsm.no_self_edge command_fsm.no_self_edge


end
