(* ===== verification/Gw_Ids.thy ===== *)
theory Gw_Ids
  imports Gw_Prelude
begin

text \<open>
  Identifiers, counters and digests of the contract crate: the canonical decimal strings that
  carry 64-bit counters over the wire (\<open>gwk-domain/src/ids.rs\<close>), their decimal text in the
  database (\<open>gwk-kernel/src/numeric.rs\<close>), and the content addresses of
  \<open>gwk-domain/src/blob.rs\<close>. Serialisation and parsing are inverse in both directions, which is
  what "decode then encode is byte-identical" asks for.
\<close>

section \<open>Decimal text\<close>

definition digit_char :: "nat \<Rightarrow> char" where
  "digit_char d = char_of (48 + d)"

definition digit_val :: "char \<Rightarrow> nat" where
  "digit_val c = of_char c - 48"

fun nat_text :: "nat \<Rightarrow> string" where
  "nat_text n = (if n < 10 then [digit_char n] else nat_text (n div 10) @ [digit_char (n mod 10)])"

declare nat_text.simps [simp del]

definition text_nat :: "string \<Rightarrow> nat" where
  "text_nat s = foldl (\<lambda>a c. 10 * a + digit_val c) 0 s"

text \<open>\<open>str::parse::<u64>\<close>: one optional plus sign, then at least one digit, within range.\<close>

definition parse_u64 :: "string \<Rightarrow> u64 option" where
  "parse_u64 s =
     (let d = (case s of c # r \<Rightarrow> if c = CHR ''+'' then r else s | [] \<Rightarrow> s) in
      if d \<noteq> [] \<and> list_all is_ascii_digit d \<and> text_nat d < 2 ^ 64
      then Some (of_nat (text_nat d)) else None)"

section \<open>Counters on the wire\<close>

definition u64_serialize :: "u64 \<Rightarrow> string" where
  "u64_serialize w = nat_text (unat w)"

datatype id_error = NotCanonical | ParseFailed

definition u64_deserialize :: "string \<Rightarrow> id_error + u64" where
  "u64_deserialize raw =
     (let canonical = raw \<noteq> [] \<and> length raw \<le> 20 \<and> list_all is_ascii_digit raw
                      \<and> (length raw = 1 \<or> \<not> starts_with raw ''0'')
      in if \<not> canonical then Inl NotCanonical else ok_or ParseFailed (parse_u64 raw))"

section \<open>Counters in the database\<close>

datatype numeric_error = NumericEmpty | NumericNotDigits | NumericOutOfRange

definition to_numeric_text :: "u64 \<Rightarrow> string" where
  "to_numeric_text value = nat_text (unat value)"

definition from_numeric_text :: "string \<Rightarrow> numeric_error + u64" where
  "from_numeric_text raw =
     (if raw = [] then Inl NumericEmpty
      else if \<not> list_all is_ascii_digit raw then Inl NumericNotDigits
      else ok_or NumericOutOfRange (parse_u64 raw))"

section \<open>Derived identifiers\<close>

definition pty_session_lifetime_id :: "string \<Rightarrow> string \<Rightarrow> string" where
  "pty_session_lifetime_id sid generation = sid @ '':'' @ generation"

section \<open>Content addresses\<close>

definition BLOB_ADDRESS_SCHEME :: string where
  "BLOB_ADDRESS_SCHEME = ''sha256:''"

definition SHA256_HEX_LEN :: nat where
  "SHA256_HEX_LEN = 64"

definition is_lower_hex :: "char \<Rightarrow> bool" where
  "is_lower_hex c \<longleftrightarrow> is_ascii_digit c \<or> 97 \<le> (of_char c :: nat) \<and> (of_char c :: nat) \<le> 102"

definition is_sha256_hex :: "string \<Rightarrow> bool" where
  "is_sha256_hex v \<longleftrightarrow> length v = SHA256_HEX_LEN \<and> list_all is_lower_hex v"

datatype blob_address_error = UnknownScheme | MalformedDigest

datatype blob_address = BlobAddress string

definition blob_address_parse :: "string \<Rightarrow> blob_address_error + blob_address" where
  "blob_address_parse v =
     and_then (ok_or UnknownScheme (strip_prefix BLOB_ADDRESS_SCHEME v)) (\<lambda>digest.
       if \<not> is_sha256_hex digest then Inl MalformedDigest else Inr (BlobAddress v))"

definition blob_address_from_digest :: "string \<Rightarrow> blob_address_error + blob_address" where
  "blob_address_from_digest digest =
     (if \<not> is_sha256_hex digest then Inl MalformedDigest
      else Inr (BlobAddress (BLOB_ADDRESS_SCHEME @ digest)))"

fun blob_address_as_str :: "blob_address \<Rightarrow> string" where
  "blob_address_as_str (BlobAddress s) = s"

fun digest_hex :: "blob_address \<Rightarrow> string" where
  "digest_hex (BlobAddress s) = drop (length BLOB_ADDRESS_SCHEME) s"

section \<open>Facts on decimal text\<close>

lemma of_char_digit_char: "d < 10 \<Longrightarrow> (of_char (digit_char d) :: nat) = 48 + d"
  by (simp add: digit_char_def)

lemma digit_char_0: "digit_char 0 = CHR ''0''"
  by code_simp

lemma is_ascii_digit_digit_char [simp]: "d < 10 \<Longrightarrow> is_ascii_digit (digit_char d)"
  by (simp add: is_ascii_digit_def of_char_digit_char)

lemma digit_val_digit_char [simp]: "d < 10 \<Longrightarrow> digit_val (digit_char d) = d"
  by (simp add: digit_val_def of_char_digit_char)

lemma digit_char_digit_val [simp]: "is_ascii_digit c \<Longrightarrow> digit_char (digit_val c) = c"
  by (auto simp: is_ascii_digit_def digit_char_def digit_val_def)

lemma digit_val_less: "is_ascii_digit c \<Longrightarrow> digit_val c < 10"
  by (auto simp: is_ascii_digit_def digit_val_def)

lemma text_nat_snoc: "text_nat (s @ [c]) = 10 * text_nat s + digit_val c"
  by (simp add: text_nat_def)

lemma text_nat_Nil [simp]: "text_nat [] = 0"
  by (simp add: text_nat_def)

lemma nat_text_not_Nil [simp]: "nat_text n \<noteq> []"
  by (subst nat_text.simps) simp

lemma nat_text_digits: "list_all is_ascii_digit (nat_text n)"
proof (induction n rule: nat_text.induct)
  case (1 n)
  then show ?case by (subst nat_text.simps) simp
qed

lemma text_nat_nat_text [simp]: "text_nat (nat_text n) = n"
proof (induction n rule: nat_text.induct)
  case (1 n)
  show ?case
  proof (cases "n < 10")
    case True
    then show ?thesis using text_nat_snoc [of "[]"] by (subst nat_text.simps) simp
  next
    case False
    with 1 show ?thesis by (subst nat_text.simps) (simp add: text_nat_snoc)
  qed
qed

lemma nat_text_hd:
  "n \<noteq> 0 \<Longrightarrow> hd (nat_text n) \<noteq> CHR ''0''"
proof (induction n rule: nat_text.induct)
  case (1 n)
  show ?case
  proof (cases "n < 10")
    case True
    have "digit_char n \<noteq> digit_char 0"
      using True 1(2) digit_val_digit_char [of n] digit_val_digit_char [of 0] by force
    with True show ?thesis by (subst nat_text.simps) (simp add: digit_char_0)
  next
    case False
    with 1 show ?thesis by (subst nat_text.simps) (simp add: hd_append)
  qed
qed

lemma length_nat_text: "n < 10 ^ k \<Longrightarrow> 0 < k \<Longrightarrow> length (nat_text n) \<le> k"
proof (induction k arbitrary: n)
  case (Suc k)
  show ?case
  proof (cases "n < 10")
    case False
    with Suc.prems have "n div 10 < 10 ^ k" and "0 < k"
      by (auto simp: less_mult_imp_div_less mult.commute intro: Nat.gr0I)
    with Suc.IH have "length (nat_text (n div 10)) \<le> k" by blast
    with False show ?thesis by (subst nat_text.simps) simp
  qed (subst nat_text.simps, simp)
qed simp

text \<open>A digit string without a leading zero is the text of its value.\<close>

lemma nat_text_text_nat:
  assumes "s \<noteq> []" and "list_all is_ascii_digit s" and "length s = 1 \<or> hd s \<noteq> CHR ''0''"
  shows "nat_text (text_nat s) = s"
  using assms
proof (induction s rule: rev_induct)
  case (snoc c s)
  have d: "is_ascii_digit c" "list_all is_ascii_digit s" using snoc.prems by auto
  show ?case
  proof (cases "s = []")
    case True
    with d show ?thesis
      using text_nat_snoc [of "[]" c] digit_val_less [of c] by (subst nat_text.simps) simp
  next
    case False
    with snoc.prems have h: "hd s \<noteq> CHR ''0''" by (auto simp: hd_append)
    with snoc.IH False d have IH: "nat_text (text_nat s) = s" by blast
    have "text_nat s \<noteq> 0"
    proof
      assume "text_nat s = 0"
      with IH have "s = [digit_char 0]" by (simp add: nat_text.simps [of 0])
      with h show False by (simp add: digit_char_0)
    qed
    with IH d show ?thesis
      using digit_val_less [of c] by (subst nat_text.simps) (simp add: text_nat_snoc)
  qed
qed simp

lemma not_plus_digit: "is_ascii_digit c \<Longrightarrow> c \<noteq> CHR ''+''"
  by (auto simp: is_ascii_digit_def)

lemma parse_u64_digits:
  assumes "list_all is_ascii_digit s" and "s \<noteq> []"
  shows "parse_u64 s = (if text_nat s < 2 ^ 64 then Some (of_nat (text_nat s)) else None)"
  using assms by (cases s) (auto simp: parse_u64_def Let_def not_plus_digit)

lemma parse_u64_nat_text: "parse_u64 (nat_text (unat w)) = Some w"
  using unat_bound [of w] nat_text_digits [of "unat w"] by (simp add: parse_u64_digits)

section \<open>Properties\<close>

text \<open>
  C20: the wire form of a 64-bit counter decodes to that counter, and a string the decoder
  accepts is exactly the one the encoder writes for its value: decoding then encoding is
  byte-identical, and no second spelling of a counter is admitted.
\<close>

theorem u64_wire_exact:
  "u64_deserialize (u64_serialize w) = Inr w
   \<and> (u64_deserialize s = Inr w \<longleftrightarrow> s = u64_serialize w)"
proof -
  have digits: "list_all is_ascii_digit (nat_text (unat w))" by (rule nat_text_digits)
  have "unat w < 10 ^ 20" using unat_bound [of w] by simp
  then have len: "length (nat_text (unat w)) \<le> 20" by (rule length_nat_text) simp
  have lead: "length (nat_text (unat w)) = 1 \<or> hd (nat_text (unat w)) \<noteq> CHR ''0''"
  proof (cases "unat w = 0")
    case True
    then show ?thesis by (simp add: nat_text.simps [of 0])
  next
    case False
    then show ?thesis by (simp add: nat_text_hd)
  qed
  have "\<not> starts_with (nat_text (unat w)) ''0''" if "hd (nat_text (unat w)) \<noteq> CHR ''0''"
    using that by (cases "nat_text (unat w)") (auto simp: starts_with_def)
  with digits len lead have enc: "u64_deserialize (u64_serialize w) = Inr w"
    by (auto simp: u64_deserialize_def u64_serialize_def parse_u64_nat_text)
  have "s = u64_serialize w" if "u64_deserialize s = Inr w"
  proof -
    from that have s: "s \<noteq> []" "list_all is_ascii_digit s" "parse_u64 s = Some w"
      "length s = 1 \<or> \<not> starts_with s ''0''"
      by (auto simp: u64_deserialize_def Let_def result_simps split: if_splits)
    from s(1,4) have "length s = 1 \<or> hd s \<noteq> CHR ''0''"
      by (cases s) (auto simp: starts_with_def)
    with s(1,2) have "nat_text (text_nat s) = s" by (blast intro: nat_text_text_nat)
    moreover from s have "unat w = text_nat s"
      by (auto simp: parse_u64_digits unat_of_nat take_bit_nat_eq_self_iff split: if_splits)
    ultimately show ?thesis by (simp add: u64_serialize_def)
  qed
  with enc show ?thesis by blast
qed

lemma from_to_numeric_text [simp]: "from_numeric_text (to_numeric_text w) = Inr w"
  by (simp add: from_numeric_text_def to_numeric_text_def nat_text_digits parse_u64_nat_text)

lemma strip_scheme [simp]: "strip_prefix p (p @ r) = Some r"
  by (simp add: strip_prefix_Some)

lemma blob_address_roundtrip:
  "blob_address_from_digest d = Inr a \<Longrightarrow>
     blob_address_parse (blob_address_as_str a) = Inr a \<and> digest_hex a = d"
  by (auto simp: blob_address_from_digest_def blob_address_parse_def split: if_splits)

lemma blob_address_parse_inv:
  "blob_address_parse v = Inr a \<Longrightarrow>
     blob_address_as_str a = v \<and> blob_address_from_digest (digest_hex a) = Inr a"
  by (auto simp: blob_address_from_digest_def blob_address_parse_def result_simps
      strip_prefix_Some split: if_splits)

end
