(* ===== verification/Gw_Envelope.thy ===== *)
theory Gw_Envelope
  imports Gw_Ids
begin

text \<open>
  The two records every party agrees on (\<open>gwk-domain/src/envelope.rs\<close>). The payload is a
  \<open>serde_json::Value\<close>: the envelopes are polymorphic in it, so that a component which only
  stores payloads is stated for any payload type, and one which looks inside instantiates it with
  \<open>json\<close>. A JSON number is kept as the text it prints as.
\<close>

datatype json =
    JNull
  | JBool bool
  | JNumber string
  | JString string
  | JArray "json list"
  | JObject "(string \<times> json) list"

definition ENVELOPE_SCHEMA_VERSION :: u32 where
  "ENVELOPE_SCHEMA_VERSION = 1"

definition INLINE_PAYLOAD_MAX_BYTES :: nat where
  "INLINE_PAYLOAD_MAX_BYTES = 64 * 1024"

record actor =
  actor_kind :: string
  actor_id :: "string option"

record origin =
  origin_system :: string
  origin_ref :: "string option"

record payload_ref =
  ref_digest :: string
  ref_media_type :: string
  ref_byte_size :: u64
  ref_retention_class :: "string option"
  ref_evidence_pin :: "bool option"

record 'p event_envelope =
  event_id :: string
  project_id :: string
  aggregate_type :: string
  aggregate_id :: string
  aggregate_version :: u32
  event_type :: string
  schema_version :: u32
  global_sequence :: u64
  occurred_at :: timestamp
  appended_at :: timestamp
  actor :: actor
  origin :: origin
  causation_id :: "string option"
  correlation_id :: "string option"
  idempotency_key :: "string option"
  payload :: 'p
  payload_ref :: "payload_ref option"

record 'p command_envelope =
  cmd_command_id :: string
  cmd_project_id :: string
  cmd_command_type :: string
  cmd_schema_version :: u32
  cmd_issued_at :: timestamp
  cmd_actor :: actor
  cmd_origin :: origin
  cmd_target_aggregate_type :: "string option"
  cmd_target_aggregate_id :: "string option"
  cmd_expected_version :: "u32 option"
  cmd_idempotency_key :: string
  cmd_causation_id :: "string option"
  cmd_correlation_id :: "string option"
  cmd_payload :: 'p

text \<open>An aggregate is named by its type and id; its history is what the log holds under that name.\<close>

type_synonym agg_key = "string \<times> string"

definition agg_key_of :: "'p event_envelope \<Rightarrow> agg_key" where
  "agg_key_of e = (aggregate_type e, aggregate_id e)"

definition of_key :: "agg_key \<Rightarrow> 'p event_envelope list \<Rightarrow> 'p event_envelope list" where
  "of_key k es = filter (\<lambda>e. agg_key_of e = k) es"

lemma of_key_simps [simp]:
  "of_key k [] = []"
  "of_key k (e # es) = (if agg_key_of e = k then e # of_key k es else of_key k es)"
  "of_key k (xs @ ys) = of_key k xs @ of_key k ys"
  by (simp_all add: of_key_def)

lemma in_of_key: "e \<in> set (of_key k es) \<longleftrightarrow> e \<in> set es \<and> agg_key_of e = k"
  by (auto simp: of_key_def)

record unknown_schema_version =
  found_version :: u32
  supported_version :: u32

definition accept_schema_version ::
  "u32 \<Rightarrow> u32 \<Rightarrow> u32 list \<Rightarrow> unknown_schema_version + unit" where
  "accept_schema_version found supported upcast_from =
     (if found = supported \<or> List.member upcast_from found then Inr ()
      else Inl \<lparr>found_version = found, supported_version = supported\<rparr>)"

lemma accept_schema_version_Inr [result_simps]:
  "accept_schema_version f s us = Inr u \<longleftrightarrow> f = s \<or> f \<in> set us"
  by (simp add: accept_schema_version_def)

section \<open>The length of a payload's JSON text\<close>

text \<open>
  \<open>serde_json::to_string\<close> on a value: the quotes, backslash and the control bytes 8, 9, 10, 12, 13
  escape to two bytes, every other control byte to six, everything else is copied.
\<close>

definition json_char_len :: "char \<Rightarrow> nat" where
  "json_char_len c = (let n = (of_char c :: nat) in
     if n = 34 \<or> n = 92 \<or> n = 8 \<or> n = 9 \<or> n = 10 \<or> n = 12 \<or> n = 13 then 2
     else if n < 32 then 6 else 1)"

definition json_str_len :: "string \<Rightarrow> nat" where
  "json_str_len s = 2 + sum_list (map json_char_len s)"

definition commas :: "'a list \<Rightarrow> nat" where
  "commas xs = length xs - 1"

fun json_len :: "json \<Rightarrow> nat" where
  "json_len JNull = 4"
| "json_len (JBool b) = (if b then 4 else 5)"
| "json_len (JNumber t) = length t"
| "json_len (JString s) = json_str_len s"
| "json_len (JArray xs) = 2 + commas xs + sum_list (map json_len xs)"
| "json_len (JObject kvs) =
     2 + commas kvs + sum_list (map (\<lambda>(k, v). json_str_len k + 1 + json_len v) kvs)"

definition inline_too_large :: "nat \<Rightarrow> bool" where
  "inline_too_large n \<longleftrightarrow> INLINE_PAYLOAD_MAX_BYTES < n"

lemma inline_too_large_code [code]: "inline_too_large n \<longleftrightarrow> 65536 < int n"
  by (auto simp: inline_too_large_def INLINE_PAYLOAD_MAX_BYTES_def)

section \<open>Reading a payload\<close>

fun json_get :: "json \<Rightarrow> string \<Rightarrow> json option" where
  "json_get (JObject kvs) k = map_of kvs k"
| "json_get _ k = None"

fun json_as_str :: "json \<Rightarrow> string option" where
  "json_as_str (JString s) = Some s"
| "json_as_str _ = None"

fun json_as_array :: "json \<Rightarrow> json list option" where
  "json_as_array (JArray xs) = Some xs"
| "json_as_array _ = None"

end
