(* ===== verification/Gw_Transition.thy ===== *)
theory Gw_Transition
  imports Gw_Fsm Gw_Envelope
begin

text \<open>
  The one transition algorithm every writer goes through (\<open>gwk-domain/src/transition.rs\<close>):
  \<open>apply_transition\<close> is generic in the machine's edge table and guard, as the Rust function is in
  its trait parameter. The locale \<open>guarded_machine\<close> states the contract of one decision once
  for any machine without self-edges; it is interpreted on the four machines with their guards.
\<close>

definition LIVENESS_PRODUCER_KIND :: string where
  "LIVENESS_PRODUCER_KIND = ''liveness_producer''"

record 's cursor =
  cur_state :: 's
  cur_version :: u32
  applied_idempotency_key :: "string option"
  applied_by :: "actor option"

record 's transition_request =
  req_to :: 's
  req_expected_version :: u32
  req_actor :: actor
  req_idempotency_key :: "string option"
  req_receipt_id :: "string option"

datatype 's transition_result =
    Applied 's u32
  | IllegalEdge 's 's
  | StaleVersion u32 u32
  | UnauthorizedActor string

datatype guard_violation = WrongActor string | MissingReceipt

fun guard_violation_str :: "guard_violation \<Rightarrow> string" where
  "guard_violation_str (WrongActor required_kind) = ''edge requires actor kind '' @ required_kind"
| "guard_violation_str MissingReceipt = ''edge requires a receipt''"

record guard_ctx =
  ctx_actor :: actor
  ctx_receipt_id :: "string option"

type_synonym 's guard = "'s \<Rightarrow> 's \<Rightarrow> guard_ctx \<Rightarrow> guard_violation + unit"

definition default_guard :: "'s guard" where
  "default_guard f t ctx = Inr ()"

fun attempt_flip :: "attempt_state \<Rightarrow> attempt_state \<Rightarrow> bool" where
  "attempt_flip Attempt_Running Attempt_Blocked = True"
| "attempt_flip Attempt_Blocked Attempt_Running = True"
| "attempt_flip _ _ = False"

definition attempt_guard :: "attempt_state guard" where
  "attempt_guard f t ctx =
     (if attempt_flip f t then
        if actor_kind (ctx_actor ctx) \<noteq> LIVENESS_PRODUCER_KIND
        then Inl (WrongActor LIVENESS_PRODUCER_KIND)
        else if (case ctx_receipt_id ctx of None \<Rightarrow> True | Some r \<Rightarrow> r = [])
        then Inl MissingReceipt
        else Inr ()
      else Inr ())"

definition is_retry :: "'s cursor \<Rightarrow> 's transition_request \<Rightarrow> bool" where
  "is_retry cursor req =
     (case (req_idempotency_key req, applied_idempotency_key cursor) of
        (Some key, Some applied) \<Rightarrow>
          key = applied \<and> cur_state cursor = req_to req \<and> applied_by cursor = Some (req_actor req)
      | _ \<Rightarrow> False)"

definition apply_transition ::
  "('s \<times> 's) list \<Rightarrow> 's guard \<Rightarrow> 's cursor \<Rightarrow> 's transition_request \<Rightarrow> 's transition_result" where
  "apply_transition edges guard cursor req =
     (case guard (cur_state cursor) (req_to req)
             \<lparr>ctx_actor = req_actor req, ctx_receipt_id = req_receipt_id req\<rparr> of
        Inl violation \<Rightarrow> UnauthorizedActor (guard_violation_str violation)
      | Inr _ \<Rightarrow>
        if is_retry cursor req
        then Applied (cur_state cursor) (cur_version cursor)
        else if \<not> can_transition edges (cur_state cursor) (req_to req)
        then IllegalEdge (cur_state cursor) (req_to req)
        else if cur_version cursor \<noteq> req_expected_version req
        then StaleVersion (cur_version cursor) (req_expected_version req)
        else (case checked_add (req_expected_version req) 1 of
                None \<Rightarrow> StaleVersion (cur_version cursor) (req_expected_version req)
              | Some next_version \<Rightarrow> Applied (req_to req) next_version))"

text \<open>
  The cursor a storage layer persists for an applied result: the new position, and who recorded
  it under which key.
\<close>

definition advance :: "'s cursor \<Rightarrow> 's transition_request \<Rightarrow> 's transition_result \<Rightarrow> 's cursor" where
  "advance cursor req res =
     (case res of
        Applied s v \<Rightarrow>
          if s = cur_state cursor \<and> v = cur_version cursor then cursor
          else \<lparr>cur_state = s, cur_version = v,
                applied_idempotency_key = req_idempotency_key req,
                applied_by = Some (req_actor req)\<rparr>
      | _ \<Rightarrow> cursor)"

section \<open>The contract of one decision\<close>

lemma is_retry_iff:
  "is_retry c r \<longleftrightarrow> (\<exists>k. req_idempotency_key r = Some k \<and> applied_idempotency_key c = Some k)
     \<and> cur_state c = req_to r \<and> applied_by c = Some (req_actor r)"
  by (auto simp: is_retry_def split: option.splits)

locale guarded_machine =
  fixes edges :: "('s \<times> 's) list" and guard :: "'s guard"
  assumes irreflexive: "\<not> can_transition edges s s"
begin

lemma guard_first:
  "guard (cur_state c) (req_to r) \<lparr>ctx_actor = req_actor r, ctx_receipt_id = req_receipt_id r\<rparr>
     = Inl v \<Longrightarrow> apply_transition edges guard c r = UnauthorizedActor (guard_violation_str v)"
  by (simp add: apply_transition_def)

lemma applied_cases:
  assumes "apply_transition edges guard c r = Applied s v"
  obtains (replay) "s = cur_state c" "v = cur_version c" "s = req_to r"
        "req_idempotency_key r \<noteq> None" "req_idempotency_key r = applied_idempotency_key c"
        "applied_by c = Some (req_actor r)"
    | (moved) "s = req_to r" "can_transition edges (cur_state c) s"
        "unat v = unat (cur_version c) + 1" "cur_version c = req_expected_version r"
proof (cases "is_retry c r")
  case True
  with assms have "s = cur_state c" "v = cur_version c"
    by (auto simp: apply_transition_def split: sum.splits)
  with True show thesis by (intro replay) (auto simp: is_retry_iff)
next
  case False
  with assms have "can_transition edges (cur_state c) s" "s = req_to r"
    "cur_version c = req_expected_version r" "checked_add (req_expected_version r) 1 = Some v"
    by (auto simp: apply_transition_def split: sum.splits if_splits option.splits)
  then show thesis by (intro moved) (auto dest: checked_add_unat)
qed

lemma applied_version:
  assumes "apply_transition edges guard c r = Applied s v"
  shows "if s = cur_state c then v = cur_version c
         else can_transition edges (cur_state c) s \<and> unat v = unat (cur_version c) + 1"
  using assms
proof (cases rule: applied_cases)
  case moved
  then show ?thesis using irreflexive by metis
qed simp

lemma advance_legal:
  "advance c r (apply_transition edges guard c r) = c
   \<or> can_transition edges (cur_state c) (cur_state (advance c r (apply_transition edges guard c r)))
     \<and> unat (cur_version (advance c r (apply_transition edges guard c r)))
         = unat (cur_version c) + 1"
proof (cases "apply_transition edges guard c r")
  case (Applied s v)
  show ?thesis
  proof (cases "s = cur_state c")
    case True
    with applied_version [OF Applied] show ?thesis by (simp add: Applied advance_def)
  next
    case False
    with applied_version [OF Applied] show ?thesis by (simp add: Applied advance_def)
  qed
qed (simp_all add: advance_def)

text \<open>A keyed request that was applied answers the same when it is sent again.\<close>

lemma retry_stable:
  assumes applied: "apply_transition edges guard c r = Applied s v"
    and key: "req_idempotency_key r = Some k"
    and open_again: "guard s s \<lparr>ctx_actor = req_actor r, ctx_receipt_id = req_receipt_id r\<rparr> = Inr ()"
  shows "apply_transition edges guard (advance c r (Applied s v)) r = Applied s v
         \<and> advance (advance c r (Applied s v)) r (Applied s v) = advance c r (Applied s v)"
  using applied
proof (cases rule: applied_cases)
  case replay
  then have "advance c r (Applied s v) = c" by (simp add: advance_def)
  with applied replay show ?thesis by simp
next
  case moved
  then have "s \<noteq> cur_state c" using irreflexive by metis
  with moved key open_again show ?thesis
    by (simp add: advance_def apply_transition_def is_retry_iff)
qed

end

interpretation task_guarded: guarded_machine task_edges default_guard
  by unfold_locales simp

interpretation attempt_guarded: guarded_machine attempt_edges attempt_guard
  by unfold_locales simp

interpretation message_guarded: guarded_machine message_edges default_guard
  by unfold_locales simp

interpretation command_guarded: guarded_machine command_edges default_guard
  by unfold_locales simp

section \<open>Histories of requests\<close>

fun run_requests ::
  "('s \<times> 's) list \<Rightarrow> 's guard \<Rightarrow> 's cursor \<Rightarrow> 's transition_request list \<Rightarrow> 's cursor list" where
  "run_requests edges guard c [] = []"
| "run_requests edges guard c (r # rs) =
     (let c' = advance c r (apply_transition edges guard c r)
      in (if c' = c then [] else [c']) @ run_requests edges guard c' rs)"

context guarded_machine
begin

text \<open>
  Whatever requests arrive, the states the cursor moves through form a legal run of the table and
  each move raises the version by exactly one.
\<close>

lemma run_requests_legal:
  "legal_run edges (cur_state c) (map cur_state (run_requests edges guard c rs))
   \<and> map (\<lambda>d. unat (cur_version d)) (run_requests edges guard c rs)
       = map (\<lambda>i. unat (cur_version c) + i + 1) [0..<length (run_requests edges guard c rs)]"
proof (induction rs arbitrary: c)
  case (Cons r rs)
  let ?c' = "advance c r (apply_transition edges guard c r)"
  let ?rest = "run_requests edges guard ?c' rs"
  show ?case
  proof (cases "?c' = c")
    case True
    with Cons.IH [of c] show ?thesis by (simp add: Let_def)
  next
    case False
    with advance_legal [of c r]
    have step: "can_transition edges (cur_state c) (cur_state ?c')"
      and v: "unat (cur_version ?c') = unat (cur_version c) + 1" by auto
    from False have "run_requests edges guard c (r # rs) = ?c' # ?rest" by (simp add: Let_def)
    with step v Cons.IH [of ?c'] show ?thesis
      by (simp add: upt_Suc_Cons comp_def del: run_requests.simps upt_Suc)
  qed
qed simp

end

section \<open>Properties\<close>

text \<open>
  C18: whatever sequence of transition requests reaches an attempt, with any actors, keys, receipts
  and expected versions, the states it passes through follow edges of the attempt table and the
  version counts those moves one by one; and once a terminal state is reached nothing moves it.
\<close>

theorem attempt_history_legal:
  "legal_run attempt_edges (cur_state c)
     (map cur_state (run_requests attempt_edges attempt_guard c rs))
   \<and> map (\<lambda>d. unat (cur_version d)) (run_requests attempt_edges attempt_guard c rs)
       = map (\<lambda>i. unat (cur_version c) + i + 1)
           [0..<length (run_requests attempt_edges attempt_guard c rs)]
   \<and> (if is_terminal attempt_edges (cur_state c)
      then run_requests attempt_edges attempt_guard c rs = [] else True)"
  using attempt_guarded.run_requests_legal [of c rs]
    terminal_run [of attempt_edges "cur_state c"
      "map cur_state (run_requests attempt_edges attempt_guard c rs)"]
  by auto



end
