(* ===== verification/Gw_Cert.thy ===== *)
theory Gw_Cert
  imports Gw_Transition
begin

text \<open>
  The stream checker \<open>gwk-cert/src/check.rs\<close>: one pass over an exported event stream that replays
  envelope rules, version contiguity, the four machines, the flip rule and the outcome discipline
  of stop commands. \<open>check_event\<close> is the body of its loop on the loop's local variables
  (\<open>cert_state\<close>), split at the comments of the source; \<open>check_stream\<close> folds it. A
  finding keeps its code and its anchor; the human-readable message is left out. Strings are their
  UTF-8 bytes. \<open>r.version + 1\<close> is the wrapping addition of a release build.
\<close>

datatype finding_code =
    EnvelopeMalformed
  | SchemaVersionUnknown
  | SeqNotIncreasing
  | CreatedNotFirst
  | CreationMissing
  | CreationStateInvalid
  | AggregateVersionGap
  | StateChangeMalformed
  | FromStateMismatch
  | IllegalTransition
  | TerminalMutation
  | FlipWrongActor
  | FlipMissingReceipt
  | IdempotencyDuplicate
  | OutcomeMissing
  | OutcomeOnNonTerminal
  | OutcomeDisagreesWithTargets
  | InlinePayloadTooLarge
  | PayloadRefInvalid

record finding =
  f_code :: finding_code
  f_seq :: "u64 option"
  f_event_id :: "string option"

record replay_state =
  r_state :: string
  r_version :: u32

record command_ctx =
  c_targets :: "string list"
  c_pre_canceled :: "string list"

type_synonym jevent = "json event_envelope"

definition payload_str :: "jevent \<Rightarrow> string \<Rightarrow> string option" where
  "payload_str e key = Option.bind (json_get (payload e) key) json_as_str"

definition payload_targets :: "jevent \<Rightarrow> string list option" where
  "payload_targets e =
     map_option (\<lambda>a. List.map_filter json_as_str a)
       (Option.bind (json_get (payload e) ''targets'') json_as_array)"

definition machine_initial :: "string \<Rightarrow> string option" where
  "machine_initial t =
     (if t = ''task'' then Some ''submitted''
      else if t = ''attempt'' then Some ''queued''
      else if t = ''message'' then Some ''accepted''
      else if t = ''command'' then Some ''issued''
      else None)"

definition machine_check ::
  "(string \<Rightarrow> 's option) \<Rightarrow> ('s \<times> 's) list \<Rightarrow> string \<Rightarrow> string \<Rightarrow> bool \<times> bool" where
  "machine_check parse edges f t =
     (case (parse f, parse t) of
        (Some f', Some t') \<Rightarrow> (can_transition edges f' t', is_terminal edges f')
      | _ \<Rightarrow> (False, False))"

definition fsm_check :: "string \<Rightarrow> string \<Rightarrow> string \<Rightarrow> (bool \<times> bool) option" where
  "fsm_check aty f t =
     (if aty = ''task'' then Some (machine_check task_state_parse task_edges f t)
      else if aty = ''attempt'' then Some (machine_check attempt_state_parse attempt_edges f t)
      else if aty = ''message'' then Some (machine_check message_state_parse message_edges f t)
      else if aty = ''command'' then Some (machine_check command_state_parse command_edges f t)
      else None)"

text \<open>
  The homoglyph table by UTF-8 bytes: all of its characters are two bytes long, and a lead byte
  of one is never a continuation byte, so scanning bytes meets exactly those characters.
\<close>

definition confusable :: "char \<Rightarrow> char \<Rightarrow> char option" where
  "confusable b1 b2 =
     map_of
       [((208, 176), CHR ''a''), ((206, 177), CHR ''a''),
        ((208, 181), CHR ''e''), ((206, 181), CHR ''e''),
        ((208, 190), CHR ''o''), ((206, 191), CHR ''o''),
        ((209, 129), CHR ''c''),
        ((209, 128), CHR ''p''), ((207, 129), CHR ''p''),
        ((209, 130), CHR ''t''), ((207, 132), CHR ''t''),
        ((208, 186), CHR ''k''), ((206, 186), CHR ''k''),
        ((208, 188), CHR ''m''), ((206, 188), CHR ''m''),
        ((209, 149), CHR ''s''),
        ((212, 129), CHR ''d'')]
       (of_char b1 :: nat, of_char b2 :: nat)"

fun fold_confusables :: "string \<Rightarrow> string" where
  "fold_confusables (b1 # b2 # s) =
     (case confusable b1 b2 of
        Some c \<Rightarrow> c # fold_confusables s
      | None \<Rightarrow> b1 # fold_confusables (b2 # s))"
| "fold_confusables s = s"

definition canonical_type :: "string \<Rightarrow> string" where
  "canonical_type aty =
     (let trimmed = to_ascii_lowercase (trim aty) in
      if machine_initial trimmed \<noteq> None then trimmed
      else let folded = fold_confusables trimmed in
        if machine_initial folded \<noteq> None then folded else trimmed)"

section \<open>One event\<close>

record cert_state =
  last_seq :: "u64 option"
  replay :: "agg_key \<Rightarrow> replay_state option"
  seen_keys :: "(string \<times> string \<times> string) set"
  seen_creation :: "agg_key set"
  commands :: "string \<Rightarrow> command_ctx option"

definition cert_init :: cert_state where
  "cert_init = \<lparr>last_seq = None, replay = (\<lambda>_. None), seen_keys = {}, seen_creation = {},
     commands = (\<lambda>_. None)\<rparr>"

definition finding_if :: "bool \<Rightarrow> finding_code \<Rightarrow> finding_code list" where
  "finding_if b c = (if b then [c] else [])"

definition check_envelope :: "cert_state \<Rightarrow> jevent \<Rightarrow> finding_code list \<times> cert_state" where
  "check_envelope st e =
     (let fs =
        finding_if (accept_schema_version (schema_version e) ENVELOPE_SCHEMA_VERSION [] \<noteq> Inr ())
          SchemaVersionUnknown
        @ finding_if (case last_seq st of None \<Rightarrow> False | Some prev \<Rightarrow> global_sequence e \<le> prev)
          SeqNotIncreasing
        @ finding_if (inline_too_large (json_len (payload e))) InlinePayloadTooLarge
        @ finding_if
            (case payload_ref e of
               None \<Rightarrow> False
             | Some r \<Rightarrow> \<not> List.member (ref_digest r) (CHR '':'') \<or> ref_media_type r = [])
          PayloadRefInvalid
        @ (case idempotency_key e of
             None \<Rightarrow> []
           | Some key \<Rightarrow>
               finding_if ((aggregate_type e, aggregate_id e, key) \<in> seen_keys st)
                 IdempotencyDuplicate)
      in (fs, st\<lparr>last_seq := Some (global_sequence e),
              seen_keys := (case idempotency_key e of
                 None \<Rightarrow> seen_keys st
               | Some key \<Rightarrow> insert (aggregate_type e, aggregate_id e, key) (seen_keys st))\<rparr>))"

definition check_version :: "cert_state \<Rightarrow> jevent \<Rightarrow> finding_code list \<times> cert_state" where
  "check_version st e =
     (let k = agg_key_of e; aty = canonical_type (aggregate_type e);
          expected_version = (case replay st k of None \<Rightarrow> 1 | Some r \<Rightarrow> r_version r + 1)
      in (finding_if (aty \<noteq> aggregate_type e \<and> machine_initial aty \<noteq> None) EnvelopeMalformed
          @ finding_if (aggregate_version e \<noteq> expected_version) AggregateVersionGap
          @ finding_if (replay st k = None \<and> \<not> ends_with (event_type e) ''_created''
                        \<and> machine_initial aty \<noteq> None) CreationMissing,
          st\<lparr>replay := (replay st)(k \<mapsto>
              (case replay st k of
                 Some r \<Rightarrow> r\<lparr>r_version := aggregate_version e\<rparr>
               | None \<Rightarrow> \<lparr>r_state = [], r_version = aggregate_version e\<rparr>))\<rparr>))"

definition set_replay_state :: "agg_key \<Rightarrow> string \<Rightarrow> cert_state \<Rightarrow> cert_state" where
  "set_replay_state k s st =
     (case replay st k of
        None \<Rightarrow> st
      | Some r \<Rightarrow> st\<lparr>replay := (replay st)(k \<mapsto> r\<lparr>r_state := s\<rparr>)\<rparr>)"

definition attempt_canceled :: "cert_state \<Rightarrow> string \<Rightarrow> bool" where
  "attempt_canceled st t \<longleftrightarrow>
     (case replay st (''attempt'', t) of None \<Rightarrow> False | Some r \<Rightarrow> r_state r = ''canceled'')"

definition record_command :: "jevent \<Rightarrow> cert_state \<Rightarrow> cert_state" where
  "record_command e st =
     (let targets = (case payload_targets e of None \<Rightarrow> [] | Some ts \<Rightarrow> ts)
      in st\<lparr>commands := (commands st)(aggregate_id e \<mapsto>
           \<lparr>c_targets = targets, c_pre_canceled = filter (attempt_canceled st) targets\<rparr>)\<rparr>)"

definition check_creation :: "cert_state \<Rightarrow> jevent \<Rightarrow> finding_code list \<times> cert_state" where
  "check_creation st e =
     (let k = agg_key_of e; aty = canonical_type (aggregate_type e);
          already_created = (k \<in> seen_creation st);
          seeded = payload_str e ''state'';
          initial = (case machine_initial aty of
             Some want \<Rightarrow> want
           | None \<Rightarrow> (case seeded of None \<Rightarrow> [] | Some s \<Rightarrow> s));
          st1 = (if already_created then st
                 else set_replay_state k initial
                        (st\<lparr>seen_creation := insert k (seen_creation st)\<rparr>));
          st2 = (if aty = ''command'' then record_command e st1 else st1)
      in (finding_if already_created CreatedNotFirst
          @ finding_if (machine_initial aty \<noteq> None \<and> seeded \<noteq> None \<and> seeded \<noteq> machine_initial aty)
              CreationStateInvalid,
          st2))"

section \<open>State changes\<close>

definition check_edge :: "string \<Rightarrow> string \<Rightarrow> string \<Rightarrow> finding_code list" where
  "check_edge aty f t =
     (case fsm_check aty f t of
        Some (_, True) \<Rightarrow> [TerminalMutation]
      | Some (False, False) \<Rightarrow> [IllegalTransition]
      | _ \<Rightarrow> [])"

definition is_flip :: "string \<Rightarrow> string \<Rightarrow> bool" where
  "is_flip f t \<longleftrightarrow> (f = ''running'' \<and> t = ''blocked'') \<or> (f = ''blocked'' \<and> t = ''running'')"

definition check_flip :: "string \<Rightarrow> jevent \<Rightarrow> string \<Rightarrow> string \<Rightarrow> finding_code list" where
  "check_flip aty e f t =
     (if aty = ''attempt'' \<and> is_flip f t then
        finding_if (actor_kind (actor e) \<noteq> LIVENESS_PRODUCER_KIND) FlipWrongActor
        @ finding_if (case payload_str e ''receipt_id'' of None \<Rightarrow> True | Some r \<Rightarrow> r = [])
            FlipMissingReceipt
      else [])"

fun union_targets :: "string list \<Rightarrow> string list \<Rightarrow> string list" where
  "union_targets ts [] = ts"
| "union_targets ts (t # us) =
     union_targets (if List.member ts t then ts else ts @ [t]) us"

definition check_target ::
  "cert_state \<Rightarrow> command_ctx option \<Rightarrow> string \<Rightarrow> finding_code list" where
  "check_target st ctx t =
     (if \<not> attempt_canceled st t then [OutcomeDisagreesWithTargets]
      else finding_if
        (case ctx of None \<Rightarrow> False | Some c \<Rightarrow> List.member (c_pre_canceled c) t)
        OutcomeDisagreesWithTargets)"

definition check_clean :: "cert_state \<Rightarrow> jevent \<Rightarrow> finding_code list" where
  "check_clean st e =
     (let ctx = commands st (aggregate_id e);
          created = (case ctx of None \<Rightarrow> [] | Some c \<Rightarrow> c_targets c);
          restated = payload_targets e;
          dropped = (case restated of
             None \<Rightarrow> []
           | Some listed \<Rightarrow> filter (\<lambda>t. \<not> List.member listed t) created);
          targets = (case restated of None \<Rightarrow> created | Some listed \<Rightarrow> union_targets created listed)
      in map (\<lambda>_. OutcomeDisagreesWithTargets) dropped
         @ finding_if (targets = []) OutcomeDisagreesWithTargets
         @ concat (map (check_target st ctx) targets))"

definition check_outcome :: "string \<Rightarrow> cert_state \<Rightarrow> jevent \<Rightarrow> string \<Rightarrow> finding_code list" where
  "check_outcome aty st e t =
     (if aty = ''command'' then
        let outcome = payload_str e ''outcome'' in
        if t = ''verification_complete'' then
          (case outcome of
             None \<Rightarrow> [OutcomeMissing]
           | Some oc \<Rightarrow>
               if oc = ''clean'' then check_clean st e
               else if oc = ''partial'' \<or> oc = ''unknown'' then []
               else [StateChangeMalformed])
        else finding_if (outcome \<noteq> None) OutcomeOnNonTerminal
      else [])"

definition check_state_change :: "cert_state \<Rightarrow> jevent \<Rightarrow> finding_code list \<times> cert_state" where
  "check_state_change st e =
     (case (payload_str e ''from'', payload_str e ''to'') of
        (Some f, Some t) \<Rightarrow>
          let k = agg_key_of e; aty = canonical_type (aggregate_type e) in
          (finding_if (k \<in> seen_creation st \<and>
             (case replay st k of None \<Rightarrow> False | Some r \<Rightarrow> r_state r \<noteq> f)) FromStateMismatch
           @ check_edge aty f t
           @ check_flip aty e f t
           @ check_outcome aty st e t,
           set_replay_state k t st)
      | _ \<Rightarrow> ([StateChangeMalformed], st))"

definition check_event :: "cert_state \<Rightarrow> jevent \<Rightarrow> finding_code list \<times> cert_state" where
  "check_event st e =
     (let (f1, st1) = check_envelope st e;
          (f2, st2) = check_version st1 e;
          (f3, st3) = (if ends_with (event_type e) ''_created'' then check_creation st2 e
                       else if ends_with (event_type e) ''_state_changed'' then check_state_change st2 e
                       else ([], st2))
      in (f1 @ f2 @ f3, st3))"

definition finding_at :: "jevent \<Rightarrow> finding_code \<Rightarrow> finding" where
  "finding_at e c =
     \<lparr>f_code = c, f_seq = Some (global_sequence e), f_event_id = Some (event_id e)\<rparr>"

fun check_from :: "cert_state \<Rightarrow> jevent list \<Rightarrow> finding list" where
  "check_from st [] = []"
| "check_from st (e # es) =
     (let (fs, st') = check_event st e in map (finding_at e) fs @ check_from st' es)"

definition check_stream :: "jevent list \<Rightarrow> finding list" where
  "check_stream es = check_from cert_init es"

section \<open>What one clean event says\<close>

definition is_creation :: "jevent \<Rightarrow> bool" where
  "is_creation e \<longleftrightarrow> ends_with (event_type e) ''_created''"

definition is_state_change :: "jevent \<Rightarrow> bool" where
  "is_state_change e \<longleftrightarrow> \<not> is_creation e \<and> ends_with (event_type e) ''_state_changed''"

definition clean_event :: "cert_state \<Rightarrow> jevent \<Rightarrow> bool" where
  "clean_event st e \<longleftrightarrow> fst (check_event st e) = []"

definition after_event :: "cert_state \<Rightarrow> jevent \<Rightarrow> cert_state" where
  "after_event st e = snd (check_event st e)"

definition current_state :: "cert_state \<Rightarrow> agg_key \<Rightarrow> string" where
  "current_state st k = (case replay st k of None \<Rightarrow> [] | Some r \<Rightarrow> r_state r)"

definition next_state :: "cert_state \<Rightarrow> jevent \<Rightarrow> string" where
  "next_state st e =
     (let k = agg_key_of e; current = current_state st k
      in if is_creation e then
           if k \<in> seen_creation st then current
           else (case machine_initial (canonical_type (aggregate_type e)) of
                   Some want \<Rightarrow> want
                 | None \<Rightarrow> (case payload_str e ''state'' of None \<Rightarrow> [] | Some s \<Rightarrow> s))
         else if is_state_change e then
           (case (payload_str e ''from'', payload_str e ''to'') of
              (Some _, Some t) \<Rightarrow> t
            | _ \<Rightarrow> current)
         else current)"

lemma finding_if_Nil [simp]: "finding_if b c = [] \<longleftrightarrow> \<not> b"
  by (simp add: finding_if_def)

lemma check_from_Cons:
  "check_from st (e # es) = [] \<longleftrightarrow> clean_event st e \<and> check_from (after_event st e) es = []"
  by (simp add: clean_event_def after_event_def split: prod.split)

lemma check_from_append:
  "check_from st (xs @ ys) = check_from st xs @ check_from (foldl after_event st xs) ys"
  by (induction xs arbitrary: st) (auto simp: after_event_def split: prod.split)

declare check_from.simps(2) [simp del]

definition counted :: "cert_state \<Rightarrow> jevent \<Rightarrow> cert_state" where
  "counted st e = snd (check_version (snd (check_envelope st e)) e)"

lemma after_event_cases:
  "after_event st e =
     (if is_creation e then snd (check_creation (counted st e) e)
      else if is_state_change e then snd (check_state_change (counted st e) e)
      else counted st e)"
  by (auto simp: after_event_def check_event_def counted_def is_creation_def is_state_change_def
      split: prod.split)

lemma clean_event_cases:
  "clean_event st e \<longleftrightarrow>
     fst (check_envelope st e) = [] \<and> fst (check_version (snd (check_envelope st e)) e) = []
     \<and> (if is_creation e then fst (check_creation (counted st e) e) = []
        else if is_state_change e then fst (check_state_change (counted st e) e) = [] else True)"
  by (auto simp: clean_event_def check_event_def counted_def is_creation_def is_state_change_def
      split: prod.split)

lemma set_version: "(r::replay_state)\<lparr>r_version := v\<rparr> = \<lparr>r_state = r_state r, r_version = v\<rparr>"
  by simp

lemma attempt_canceled_commands [simp]:
  "attempt_canceled (st\<lparr>commands := c\<rparr>) = attempt_canceled st"
  by (simp add: attempt_canceled_def fun_eq_iff)

lemma counted_simps [simp]:
  "last_seq (counted st e) = Some (global_sequence e)"
  "seen_creation (counted st e) = seen_creation st"
  "commands (counted st e) = commands st"
  "seen_keys (counted st e) =
     (case idempotency_key e of
        None \<Rightarrow> seen_keys st
      | Some key \<Rightarrow> insert (aggregate_type e, aggregate_id e, key) (seen_keys st))"
  "replay (counted st e) = (replay st)(agg_key_of e \<mapsto>
     \<lparr>r_state = current_state st (agg_key_of e), r_version = aggregate_version e\<rparr>)"
  by (simp_all add: counted_def check_version_def check_envelope_def Let_def current_state_def
      set_version split: option.split)

lemma set_replay_state_simps [simp]:
  "last_seq (set_replay_state k s st) = last_seq st"
  "seen_creation (set_replay_state k s st) = seen_creation st"
  "commands (set_replay_state k s st) = commands st"
  "seen_keys (set_replay_state k s st) = seen_keys st"
  "replay (set_replay_state k s st) =
     (case replay st k of None \<Rightarrow> replay st | Some r \<Rightarrow> (replay st)(k \<mapsto> r\<lparr>r_state := s\<rparr>))"
  by (simp_all add: set_replay_state_def split: option.split)

lemma record_command_simps [simp]:
  "last_seq (record_command e st) = last_seq st"
  "seen_creation (record_command e st) = seen_creation st"
  "seen_keys (record_command e st) = seen_keys st"
  "replay (record_command e st) = replay st"
  by (simp_all add: record_command_def Let_def)

lemma after_last_seq: "last_seq (after_event st e) = Some (global_sequence e)"
  by (simp add: after_event_cases check_creation_def check_state_change_def Let_def
      split: option.split)

lemma after_seen_keys:
  "seen_keys (after_event st e) =
     (case idempotency_key e of
        None \<Rightarrow> seen_keys st
      | Some key \<Rightarrow> insert (aggregate_type e, aggregate_id e, key) (seen_keys st))"
  by (simp add: after_event_cases check_creation_def check_state_change_def Let_def
      split: option.split)

lemma after_seen_creation:
  "seen_creation (after_event st e) =
     (if is_creation e then insert (agg_key_of e) (seen_creation st) else seen_creation st)"
  by (auto simp add: after_event_cases check_creation_def check_state_change_def Let_def
      split: option.split)

lemma after_replay:
  "replay (after_event st e) = (replay st)(agg_key_of e \<mapsto>
     \<lparr>r_state = next_state st e, r_version = aggregate_version e\<rparr>)"
  by (simp add: after_event_cases check_creation_def check_state_change_def Let_def next_state_def
      split: option.split)

lemma after_commands:
  "commands (after_event st e) =
     (if is_creation e \<and> canonical_type (aggregate_type e) = ''command'' then
        (commands st)(aggregate_id e \<mapsto>
          (let targets = (case payload_targets e of None \<Rightarrow> [] | Some ts \<Rightarrow> ts)
           in \<lparr>c_targets = targets,
               c_pre_canceled = filter (attempt_canceled (after_event st e)) targets\<rparr>))
      else commands st)"
  by (simp add: after_event_cases check_creation_def check_state_change_def Let_def
      record_command_def split: option.split)

lemma clean_envelope:
  assumes "clean_event st e"
  shows "schema_version e = ENVELOPE_SCHEMA_VERSION"
    and "last_seq st = Some prev \<Longrightarrow> prev < global_sequence e"
    and "json_len (payload e) \<le> INLINE_PAYLOAD_MAX_BYTES"
    and "idempotency_key e = Some key \<Longrightarrow> (aggregate_type e, aggregate_id e, key) \<notin> seen_keys st"
proof -
  from assms have "fst (check_envelope st e) = []" by (simp add: clean_event_cases)
  then show "schema_version e = ENVELOPE_SCHEMA_VERSION"
    and "last_seq st = Some prev \<Longrightarrow> prev < global_sequence e"
    and "json_len (payload e) \<le> INLINE_PAYLOAD_MAX_BYTES"
    and "idempotency_key e = Some key \<Longrightarrow> (aggregate_type e, aggregate_id e, key) \<notin> seen_keys st"
    by (auto simp: check_envelope_def Let_def not_le result_simps not_less inline_too_large_def)
qed

lemma envelope_replay [simp]: "replay (snd (check_envelope st e)) = replay st"
  by (simp add: check_envelope_def Let_def)

lemma clean_version:
  assumes "clean_event st e"
  shows "aggregate_version e =
           (case replay st (agg_key_of e) of None \<Rightarrow> 1 | Some r \<Rightarrow> r_version r + 1)"
    and "machine_initial (canonical_type (aggregate_type e)) \<noteq> None
           \<Longrightarrow> canonical_type (aggregate_type e) = aggregate_type e"
    and "machine_initial (canonical_type (aggregate_type e)) \<noteq> None
           \<Longrightarrow> replay st (agg_key_of e) = None \<Longrightarrow> is_creation e"
proof -
  from assms have "fst (check_version (snd (check_envelope st e)) e) = []"
    by (simp add: clean_event_cases)
  then show "aggregate_version e =
           (case replay st (agg_key_of e) of None \<Rightarrow> 1 | Some r \<Rightarrow> r_version r + 1)"
    and "machine_initial (canonical_type (aggregate_type e)) \<noteq> None
           \<Longrightarrow> canonical_type (aggregate_type e) = aggregate_type e"
    and "machine_initial (canonical_type (aggregate_type e)) \<noteq> None
           \<Longrightarrow> replay st (agg_key_of e) = None \<Longrightarrow> is_creation e"
    by (auto simp: check_version_def Let_def is_creation_def)
qed

lemma clean_creation:
  "clean_event st e \<Longrightarrow> is_creation e \<Longrightarrow> agg_key_of e \<notin> seen_creation st"
  by (simp add: clean_event_cases check_creation_def Let_def)

lemma clean_change:
  assumes "clean_event st e" and "is_state_change e"
  obtains f t where "payload_str e ''from'' = Some f" and "payload_str e ''to'' = Some t"
    and "agg_key_of e \<in> seen_creation st \<Longrightarrow> current_state st (agg_key_of e) = f"
    and "check_edge (canonical_type (aggregate_type e)) f t = []"
    and "check_flip (canonical_type (aggregate_type e)) e f t = []"
    and "check_outcome (canonical_type (aggregate_type e)) (counted st e) e t = []"
proof -
  from assms have "fst (check_state_change (counted st e) e) = []"
    by (auto simp: clean_event_cases is_state_change_def)
  with that show thesis
    by (auto simp: check_state_change_def Let_def split: option.splits)
qed

section \<open>What a clean stream says\<close>

lemma clean_stream_increasing:
  "check_from st es = [] \<Longrightarrow>
   sorted_wrt (<) (case last_seq st of None \<Rightarrow> map global_sequence es
                   | Some prev \<Rightarrow> prev # map global_sequence es)"
proof (induction es arbitrary: st)
  case (Cons e es)
  then have clean: "clean_event st e"
    and "sorted_wrt (<) (global_sequence e # map global_sequence es)"
    using Cons.IH [of "after_event st e"] by (simp_all add: check_from_Cons after_last_seq)
  then show ?case using clean_envelope(2) [OF clean]
    by (auto split: option.split intro: order.strict_trans)
qed (simp split: option.split)

definition key_triples :: "'p event_envelope list \<Rightarrow> (string \<times> string \<times> string) list" where
  "key_triples es = List.map_filter
     (\<lambda>e. map_option (\<lambda>k. (aggregate_type e, aggregate_id e, k)) (idempotency_key e)) es"

lemma key_triples_simps [simp]:
  "key_triples [] = []"
  "key_triples (e # es) = (case idempotency_key e of
      None \<Rightarrow> key_triples es
    | Some k \<Rightarrow> (aggregate_type e, aggregate_id e, k) # key_triples es)"
  by (simp_all add: key_triples_def List.map_filter_simps split: option.split)

lemma clean_stream_keys:
  "check_from st es = [] \<Longrightarrow>
   distinct (key_triples es) \<and> set (key_triples es) \<inter> seen_keys st = {}"
proof (induction es arbitrary: st)
  case (Cons e es)
  then have clean: "clean_event st e"
    and "distinct (key_triples es)"
    and "set (key_triples es) \<inter> seen_keys (after_event st e) = {}"
    using Cons.IH [of "after_event st e"] by (simp_all add: check_from_Cons)
  then show ?case using clean_envelope(4) [OF clean]
    by (auto simp: after_seen_keys split: option.splits)
qed simp

lemma clean_stream_versions:
  "check_from st es = [] \<Longrightarrow>
   map aggregate_version (of_key k es) =
     map (\<lambda>i. (case replay st k of None \<Rightarrow> 0 | Some r \<Rightarrow> r_version r) + of_nat i + 1)
       [0..<length (of_key k es)]"
proof (induction es arbitrary: st)
  case (Cons e es)
  then have clean: "clean_event st e"
    and IH: "map aggregate_version (of_key k es) =
     map (\<lambda>i. (case replay (after_event st e) k of None \<Rightarrow> 0 | Some r \<Rightarrow> r_version r) + of_nat i + 1)
       [0..<length (of_key k es)]"
    using Cons.IH [of "after_event st e"] by (simp_all add: check_from_Cons)
  show ?case
  proof (cases "agg_key_of e = k")
    case True
    with IH clean_version(1) [OF clean] show ?thesis
      by (simp add: after_replay upt_Suc_Cons comp_def algebra_simps del: upt_Suc
          split: option.split)
  next
    case False
    with IH show ?thesis by (simp add: after_replay)
  qed
qed simp

section \<open>The machines, replayed\<close>

fun moves_of :: "('s \<Rightarrow> string) \<Rightarrow> 's \<Rightarrow> 's list \<Rightarrow> (string option \<times> string option) list" where
  "moves_of str s [] = []"
| "moves_of str s (t # ts) = (Some (str s), Some (str t)) # moves_of str t ts"

definition state_moves :: "jevent list \<Rightarrow> (string option \<times> string option) list" where
  "state_moves es =
     map (\<lambda>e. (payload_str e ''from'', payload_str e ''to'')) (filter is_state_change es)"

lemma state_moves_simps [simp]:
  "state_moves [] = []"
  "state_moves (e # es) =
     (if is_state_change e then (payload_str e ''from'', payload_str e ''to'') # state_moves es
      else state_moves es)"
  by (simp_all add: state_moves_def)

locale replayed_machine = wire_enum to_wire from_wire
  for to_wire :: "'s \<Rightarrow> string" and from_wire :: "string \<Rightarrow> 's option" +
  fixes aty :: string and initial :: 's and edges :: "('s \<times> 's) list"
  assumes canonical: "canonical_type aty = aty"
    and governed: "machine_initial aty = Some (to_wire initial)"
    and checked: "fsm_check aty f t = Some (machine_check from_wire edges f t)"
begin

lemma clean_edge:
  assumes "check_edge aty f t = []"
  obtains s s' where "f = to_wire s" and "t = to_wire s'" and "can_transition edges s s'"
  using assms that
  by (auto simp: check_edge_def checked machine_check_def from_wire_iff
      split: option.splits bool.splits)

text \<open>A created aggregate in state \<open>s\<close>: the rest of a clean stream moves it legally.\<close>

lemma clean_run:
  assumes "check_from st es = []" and "(aty, i) \<in> seen_creation st"
    and "current_state st (aty, i) = to_wire s" and "replay st (aty, i) \<noteq> None"
  shows "(\<forall>e \<in> set (of_key (aty, i) es). \<not> is_creation e)
    \<and> (\<exists>ss. legal_run edges s ss \<and> state_moves (of_key (aty, i) es) = moves_of to_wire s ss)"
  using assms
proof (induction es arbitrary: st s)
  case Nil
  show ?case by (auto intro!: exI [of _ "[]"])
next
  case (Cons e es)
  let ?k = "(aty, i)" and ?st = "after_event st e"
  from Cons.prems have clean: "clean_event st e" and rest: "check_from ?st es = []"
    by (simp_all add: check_from_Cons)
  have created: "?k \<in> seen_creation ?st" and there: "replay ?st ?k \<noteq> None"
    using Cons.prems by (auto simp: after_seen_creation after_replay)
  show ?case
  proof (cases "agg_key_of e = ?k")
    case False
    then have "current_state ?st ?k = to_wire s"
      using Cons.prems by (simp add: current_state_def after_replay)
    with Cons.IH [OF rest created _ there] False show ?thesis by simp
  next
    case True
    with clean_creation [OF clean] Cons.prems have no: "\<not> is_creation e" by auto
    have now: "current_state ?st ?k = next_state st e"
      by (simp add: current_state_def after_replay True)
    show ?thesis
    proof (cases "is_state_change e")
      case False
      with no True Cons.prems have "next_state st e = to_wire s" by (simp add: next_state_def)
      with Cons.IH [OF rest created _ there] now no True False show ?thesis by simp
    next
      case change: True
      from True canonical have ct: "canonical_type (aggregate_type e) = aty"
        by (simp add: agg_key_of_def)
      obtain f t where ft: "payload_str e ''from'' = Some f" "payload_str e ''to'' = Some t"
        and cur: "current_state st ?k = f" and edge: "check_edge aty f t = []"
        using clean_change [OF clean change] Cons.prems True ct by metis
      from edge obtain s1 s2 where s12: "f = to_wire s1" "t = to_wire s2"
        "can_transition edges s1 s2" by (rule clean_edge)
      with cur Cons.prems have "s1 = s" by (simp add: to_wire_inject)
      have "next_state st e = to_wire s2" using no change ft s12 by (simp add: next_state_def)
      with Cons.IH [OF rest created _ there] now obtain ss where
        "\<forall>e \<in> set (of_key ?k es). \<not> is_creation e" "legal_run edges s2 ss"
        "state_moves (of_key ?k es) = moves_of to_wire s2 ss" by metis
      with True no change ft s12 \<open>s1 = s\<close> show ?thesis
        by (auto intro!: exI [of _ "s2 # ss"])
    qed
  qed
qed

text \<open>Before its first event an aggregate is unknown; the first event has to create it.\<close>

lemma clean_history:
  assumes "check_from st es = []" and "replay st (aty, i) = None"
    and "(aty, i) \<notin> seen_creation st"
  shows "of_key (aty, i) es = [] \<or>
    (\<exists>c rest ss. of_key (aty, i) es = c # rest \<and> is_creation c
       \<and> (\<forall>e \<in> set rest. \<not> is_creation e)
       \<and> legal_run edges initial ss \<and> state_moves rest = moves_of to_wire initial ss)"
  using assms
proof (induction es arbitrary: st)
  case (Cons e es)
  let ?k = "(aty, i)" and ?st = "after_event st e"
  from Cons.prems have clean: "clean_event st e" and rest: "check_from ?st es = []"
    by (simp_all add: check_from_Cons)
  show ?case
  proof (cases "agg_key_of e = ?k")
    case False
    with Cons.IH [OF rest] Cons.prems show ?thesis
      by (simp add: after_replay after_seen_creation)
  next
    case True
    then have ct: "canonical_type (aggregate_type e) = aty"
      by (simp add: agg_key_of_def canonical)
    have crea: "is_creation e"
      using clean_version(3) [OF clean] ct governed True Cons.prems by simp
    then have "next_state st e = to_wire initial"
      using True Cons.prems ct governed by (simp add: next_state_def)
    with clean_run [OF rest, of i initial] True crea show ?thesis
      by (auto simp: after_seen_creation current_state_def after_replay)
  qed
qed simp

lemma stream_history:
  assumes "check_stream es = []"
  shows "of_key (aty, i) es = [] \<or>
    (\<exists>c rest ss. of_key (aty, i) es = c # rest \<and> is_creation c
       \<and> (\<forall>e \<in> set rest. \<not> is_creation e)
       \<and> legal_run edges initial ss \<and> state_moves rest = moves_of to_wire initial ss)"
  using clean_history [of cert_init es i] assms by (simp add: check_stream_def cert_init_def)

end

lemma canonical_governed [simp]:
  "canonical_type ''task'' = ''task''"
  "canonical_type ''attempt'' = ''attempt''"
  "canonical_type ''message'' = ''message''"
  "canonical_type ''command'' = ''command''"
  by code_simp+

interpretation task_replay:
  replayed_machine task_state_str task_state_parse "''task''" Task_Submitted task_edges
  by unfold_locales (simp_all add: machine_initial_def fsm_check_def)

interpretation attempt_replay:
  replayed_machine attempt_state_str attempt_state_parse "''attempt''" Attempt_Queued attempt_edges
  by unfold_locales (simp_all add: machine_initial_def fsm_check_def)

interpretation message_replay:
  replayed_machine message_state_str message_state_parse "''message''" Message_Accepted message_edges
  by unfold_locales (simp_all add: machine_initial_def fsm_check_def)

interpretation command_replay:
  replayed_machine command_state_str command_state_parse "''command''" Command_Issued command_edges
  by unfold_locales (simp_all add: machine_initial_def fsm_check_def)

section \<open>Clean outcomes\<close>

definition targets_of :: "jevent \<Rightarrow> string list" where
  "targets_of e = (case payload_targets e of None \<Rightarrow> [] | Some ts \<Rightarrow> ts)"

definition cancels :: "string \<Rightarrow> jevent \<Rightarrow> bool" where
  "cancels t d \<longleftrightarrow> agg_key_of d = (''attempt'', t) \<and> is_state_change d
     \<and> payload_str d ''to'' = Some ''canceled''"

lemma set_union_targets [simp]: "set (union_targets ts us) = set ts \<union> set us"
  by (induction ts us rule: union_targets.induct) auto

lemma union_targets_Nil [simp]: "union_targets ts us = [] \<longleftrightarrow> ts = [] \<and> us = []"
  by (metis Un_empty set_empty set_union_targets)

lemma check_clean_Nil:
  assumes "check_clean st e = []" and "commands st (aggregate_id e) = Some ctx"
  shows "c_targets ctx @ targets_of e \<noteq> []"
    and "t \<in> set (c_targets ctx @ targets_of e)
           \<Longrightarrow> attempt_canceled st t \<and> t \<notin> set (c_pre_canceled ctx)"
proof -
  define ts where "ts = (case payload_targets e of None \<Rightarrow> c_targets ctx
    | Some listed \<Rightarrow> union_targets (c_targets ctx) listed)"
  have ts: "set ts = set (c_targets ctx @ targets_of e)" "ts = [] \<longleftrightarrow> c_targets ctx @ targets_of e = []"
    by (simp_all add: ts_def targets_of_def split: option.split)
  from assms have "ts \<noteq> []"
    by (simp add: check_clean_def Let_def ts_def split: option.splits)
  with ts show "c_targets ctx @ targets_of e \<noteq> []" by simp
  from assms have "\<forall>t \<in> set ts. check_target st (Some ctx) t = []"
    by (simp add: check_clean_def Let_def ts_def split: option.splits)
  then show "t \<in> set (c_targets ctx @ targets_of e)
      \<Longrightarrow> attempt_canceled st t \<and> t \<notin> set (c_pre_canceled ctx)"
    using ts by (auto simp: check_target_def split: if_splits)
qed

lemma attempt_canceled_iff: "attempt_canceled st t \<longleftrightarrow> current_state st (''attempt'', t) = ''canceled''"
  by (simp add: attempt_canceled_def current_state_def split: option.split)

lemma canceled_by_event:
  "\<not> attempt_canceled st t \<Longrightarrow> attempt_canceled (foldl after_event st es) t
   \<Longrightarrow> \<exists>d \<in> set es. cancels t d"
proof (induction es arbitrary: st)
  case (Cons e es)
  show ?case
  proof (cases "attempt_canceled (after_event st e) t")
    case True
    with Cons.prems(1) have k: "agg_key_of e = (''attempt'', t)"
      and n: "next_state st e = ''canceled''"
      by (auto simp: attempt_canceled_iff current_state_def after_replay split: if_splits)
    then have "canonical_type (aggregate_type e) = ''attempt''" by (simp add: agg_key_of_def)
    with k n Cons.prems(1) have "cancels t e"
      by (auto simp: next_state_def cancels_def attempt_canceled_iff machine_initial_def Let_def
          split: if_splits option.splits)
    then show ?thesis by simp
  next
    case False
    with Cons.IH [OF False] Cons.prems(2) show ?thesis by simp
  qed
qed simp

lemma commands_kept:
  "check_from st es = [] \<Longrightarrow> (''command'', i) \<in> seen_creation st
   \<Longrightarrow> commands (foldl after_event st es) i = commands st i"
proof (induction es arbitrary: st)
  case (Cons e es)
  then have clean: "clean_event st e" and rest: "check_from (after_event st e) es = []"
    by (simp_all add: check_from_Cons)
  have "commands (after_event st e) i = commands st i"
    using clean_version(2) [OF clean] clean_creation [OF clean] Cons.prems(2)
    by (auto simp: after_commands machine_initial_def agg_key_of_def)
  with Cons.IH [OF rest] Cons.prems(2) show ?case by (simp add: after_seen_creation)
qed simp

lemma clean_terminal:
  assumes "clean_event st e" and "agg_key_of e = (''command'', i)" and "is_state_change e"
    and "payload_str e ''to'' = Some ''verification_complete''"
    and "payload_str e ''outcome'' = Some ''clean''"
    and "commands st i = Some ctx"
  shows "c_targets ctx @ targets_of e \<noteq> []"
    and "t \<in> set (c_targets ctx @ targets_of e) \<Longrightarrow> attempt_canceled st t \<and> t \<notin> set (c_pre_canceled ctx)"
proof -
  from assms(2) have ct: "canonical_type (aggregate_type e) = ''command''" and i: "aggregate_id e = i"
    by (simp_all add: agg_key_of_def)
  have same: "attempt_canceled (counted st e) = attempt_canceled st"
    by (simp add: fun_eq_iff attempt_canceled_iff current_state_def)
  have "check_outcome ''command'' (counted st e) e ''verification_complete'' = []"
    using clean_change [OF assms(1,3)] assms(4) ct by auto
  then have "check_clean (counted st e) e = []" using assms(5) by (simp add: check_outcome_def)
  note facts = check_clean_Nil [OF this, of ctx, unfolded counted_simps i same, OF assms(6)]
  show "c_targets ctx @ targets_of e \<noteq> []" by (rule facts(1))
  show "t \<in> set (c_targets ctx @ targets_of e)
      \<Longrightarrow> attempt_canceled st t \<and> t \<notin> set (c_pre_canceled ctx)" by (rule facts(2))
qed

section \<open>Properties\<close>

definition lawful_history ::
  "('s \<Rightarrow> string) \<Rightarrow> ('s \<times> 's) list \<Rightarrow> 's \<Rightarrow> jevent list \<Rightarrow> bool" where
  "lawful_history str edges initial h \<longleftrightarrow> h = [] \<or>
     (\<exists>c rest ss. h = c # rest \<and> is_creation c \<and> (\<forall>e \<in> set rest. \<not> is_creation e)
        \<and> legal_run edges initial ss \<and> state_moves rest = moves_of str initial ss)"

definition lawful_flip :: "jevent \<Rightarrow> bool" where
  "lawful_flip e \<longleftrightarrow>
     actor_kind (actor e) = LIVENESS_PRODUCER_KIND
     \<and> (\<exists>r. payload_str e ''receipt_id'' = Some r \<and> r \<noteq> [])"

lemma stream_flip:
  assumes "check_from st es = []" and "e \<in> set es" and "aggregate_type e = ''attempt''"
    and "is_state_change e" and "payload_str e ''from'' = Some f" and "payload_str e ''to'' = Some t"
    and "is_flip f t"
  shows "lawful_flip e"
  using assms(1,2)
proof (induction es arbitrary: st)
  case (Cons d es)
  then have clean: "clean_event st d" and rest: "check_from (after_event st d) es = []"
    by (simp_all add: check_from_Cons)
  show ?case
  proof (cases "e = d")
    case True
    have "check_flip ''attempt'' e f t = []"
      using clean_change [OF clean [folded True] assms(4)] assms(3,5,6) by auto
    with assms(7) show ?thesis
      by (auto simp: check_flip_def lawful_flip_def split: option.splits)
  next
    case False
    with Cons.IH [OF rest] Cons.prems show ?thesis by simp
  qed
qed simp

text \<open>
  C15: a stream the certifier passes is ordered: global sequences strictly increase, no
  idempotency key appears twice on one aggregate, and the versions of every aggregate are
  1, 2, 3 and so on in stream order.
\<close>

theorem certified_stream_ordered:
  assumes "check_stream es = []"
  shows "sorted_wrt (<) (map global_sequence es)
    \<and> distinct (key_triples es)
    \<and> map aggregate_version (of_key k es) = map of_nat [1..<Suc (length (of_key k es))]"
proof -
  from assms have c: "check_from cert_init es = []" by (simp add: check_stream_def)
  have "map (of_nat :: nat \<Rightarrow> u32) [1..<Suc n] = map (\<lambda>i. 0 + of_nat i + 1) [0..<n]" for n
    by (simp add: map_Suc_upt [symmetric] comp_def add.commute del: upt_Suc)
  then show ?thesis
    using clean_stream_increasing [OF c] clean_stream_keys [OF c]
      clean_stream_versions [OF c, of k]
    by (simp add: cert_init_def del: upt_Suc)
qed

text \<open>
  C16: in a stream the certifier passes, the history of every task, attempt, message and command
  starts at its one creation event and its recorded state changes chain into a legal run of the
  machine from the initial state; and every running/blocked flip of an attempt was written by the
  liveness producer with a receipt.
\<close>

theorem certified_histories_lawful:
  assumes "check_stream es = []"
  shows "lawful_history task_state_str task_edges Task_Submitted (of_key (''task'', i) es)
    \<and> lawful_history attempt_state_str attempt_edges Attempt_Queued (of_key (''attempt'', i) es)
    \<and> lawful_history message_state_str message_edges Message_Accepted (of_key (''message'', i) es)
    \<and> lawful_history command_state_str command_edges Command_Issued (of_key (''command'', i) es)
    \<and> (\<forall>e \<in> set (of_key (''attempt'', i) es). \<forall>f t.
         is_state_change e \<and> payload_str e ''from'' = Some f \<and> payload_str e ''to'' = Some t
         \<and> is_flip f t \<longrightarrow> lawful_flip e)"
  unfolding lawful_history_def
  using task_replay.stream_history [OF assms, of i] attempt_replay.stream_history [OF assms, of i]
    message_replay.stream_history [OF assms, of i] command_replay.stream_history [OF assms, of i]
    stream_flip [of cert_init es] assms
  by (auto simp: check_stream_def in_of_key agg_key_of_def)

text \<open>
  C17: a certified \<open>clean\<close> outcome is earned. When a passing stream ends in a command's
  terminal event with outcome \<open>clean\<close>, the command named at least one target, and every target
  its creation declared was canceled by an event that lies between the creation and the end.
\<close>

theorem certified_clean_outcome_earned:
  assumes "check_stream (pre @ c # mid @ [e]) = []"
    and "agg_key_of c = (''command'', i)" and "is_creation c"
    and "agg_key_of e = (''command'', i)" and "is_state_change e"
    and "payload_str e ''to'' = Some ''verification_complete''"
    and "payload_str e ''outcome'' = Some ''clean''"
  shows "targets_of c @ targets_of e \<noteq> [] \<and> (\<forall>t \<in> set (targets_of c). \<exists>d \<in> set mid. cancels t d)"
proof -
  let ?st0 = "foldl after_event cert_init pre"
  let ?st1 = "after_event ?st0 c"
  let ?st2 = "foldl after_event ?st1 mid"
  from assms(1) have clean: "clean_event ?st2 e" and mid: "check_from ?st1 mid = []"
    by (auto simp: check_stream_def check_from_append check_from_Cons)
  define ctx where "ctx = \<lparr>c_targets = targets_of c,
    c_pre_canceled = filter (attempt_canceled ?st1) (targets_of c)\<rparr>"
  from assms(2) have "canonical_type (aggregate_type c) = ''command''" and "aggregate_id c = i"
    by (simp_all add: agg_key_of_def)
  then have "commands ?st1 i = Some ctx"
    using assms(3) by (simp add: after_commands Let_def ctx_def targets_of_def)
  moreover have "commands ?st2 i = commands ?st1 i"
    by (rule commands_kept [OF mid]) (simp add: after_seen_creation assms(2,3))
  ultimately have "commands ?st2 i = Some ctx" by simp
  note facts = clean_terminal [OF clean assms(4-7) this]
  have "\<exists>d \<in> set mid. cancels t d" if "t \<in> set (targets_of c)" for t
    using facts(2) [of t] that by (intro canceled_by_event [of ?st1]) (auto simp: ctx_def)
  with facts(1) show ?thesis by (auto simp: ctx_def)
qed

section \<open>A stream that passes\<close>

definition fixture_event :: "string \<Rightarrow> u32 \<Rightarrow> jevent" where
  "fixture_event i v =
     \<lparr>event_id = ''evt-'' @ i @ ''-'' @ nat_text (unat v), project_id = ''conformance'',
      aggregate_type = ''task'', aggregate_id = i, aggregate_version = v,
      event_type = ''conformance_tick'', schema_version = ENVELOPE_SCHEMA_VERSION,
      global_sequence = - 1, occurred_at = ''2026-01-01T00:00:00Z'',
      appended_at = ''9999-01-01T00:00:00Z'',
      actor = \<lparr>actor_kind = ''conformance'', actor_id = None\<rparr>,
      origin = \<lparr>origin_system = ''gwk-cert'', origin_ref = None\<rparr>,
      causation_id = None, correlation_id = None, idempotency_key = None,
      payload = JObject [], payload_ref = None\<rparr>"

definition sample_event ::
  "u64 \<Rightarrow> string \<Rightarrow> string \<Rightarrow> u32 \<Rightarrow> string \<Rightarrow> (string \<times> json) list \<Rightarrow> jevent" where
  "sample_event seq aty i v ety kvs = (fixture_event i v)
     \<lparr>global_sequence := seq, aggregate_type := aty, event_type := ety, payload := JObject kvs,
      event_id := ''e''\<rparr>"

definition sample_move :: "string \<Rightarrow> string \<Rightarrow> (string \<times> json) list" where
  "sample_move f t = [(''from'', JString f), (''to'', JString t)]"

definition sample_prefix :: "jevent list" where
  "sample_prefix = [sample_event 1 ''attempt'' ''a1'' 1 ''attempt_created'' []]"

definition sample_command :: "json list \<Rightarrow> jevent" where
  "sample_command ts =
     sample_event 2 ''command'' ''c1'' 1 ''command_created'' [(''targets'', JArray ts)]"

definition sample_middle :: "jevent list" where
  "sample_middle =
     [sample_event 3 ''command'' ''c1'' 2 ''command_state_changed'' (sample_move ''issued'' ''targeted''),
      sample_event 4 ''command'' ''c1'' 3 ''command_state_changed'' (sample_move ''targeted'' ''signaled''),
      sample_event 7 ''attempt'' ''a1'' 2 ''attempt_state_changed'' (sample_move ''queued'' ''canceled'')]"

definition sample_terminal :: "(string \<times> json) list \<Rightarrow> jevent" where
  "sample_terminal extra =
     sample_event 9 ''command'' ''c1'' 4 ''command_state_changed''
       (sample_move ''signaled'' ''verification_complete'' @ (''outcome'', JString ''clean'') # extra)"

definition sample_stream :: "jevent list" where
  "sample_stream = sample_prefix @ sample_command [JString ''a1''] # sample_middle
     @ [sample_terminal []]"

lemmas sample_defs = sample_prefix_def sample_command_def sample_middle_def sample_terminal_def
  sample_event_def sample_move_def fixture_event_def sample_stream_def

lemmas check_eval = check_stream_def check_from.simps check_event_def check_envelope_def
  check_version_def check_creation_def check_state_change_def check_edge_def check_flip_def
  check_outcome_def check_clean_def check_target_def finding_if_def set_replay_state_def
  record_command_def attempt_canceled_def payload_str_def payload_targets_def machine_initial_def
  fsm_check_def machine_check_def agg_key_of_def accept_schema_version_def is_flip_def
  ends_with_eval List.map_filter_simps cert_init_def Let_def word_le_nat_alt
  attempt_state_parse_def attempt_states_def command_state_parse_def command_states_def
  can_transition_def is_terminal_def attempt_edges_def command_edges_def
  ENVELOPE_SCHEMA_VERSION_def inline_too_large_def INLINE_PAYLOAD_MAX_BYTES_def commas_def
  json_str_len_def json_char_len_def

lemma sample_stream_clean: "check_stream sample_stream = []"
  by (simp add: sample_defs check_eval)

theorem certified_stream_ordered_witness:
  "check_stream sample_stream = []
   \<and> map aggregate_version (of_key (''command'', ''c1'') sample_stream) = map of_nat [1..<5]"
proof -
  have "length (of_key (''command'', ''c1'') sample_stream) = 4" by code_simp
  with certified_stream_ordered [OF sample_stream_clean, of "(''command'', ''c1'')"]
  show ?thesis by (simp add: sample_stream_clean del: upt_Suc)
qed

theorem certified_histories_lawful_witness:
  "check_stream sample_stream = []
   \<and> lawful_history attempt_state_str attempt_edges Attempt_Queued
       (of_key (''attempt'', ''a1'') sample_stream)"
  using certified_histories_lawful [OF sample_stream_clean, of "''a1''"]
  by (simp add: sample_stream_clean)

theorem certified_clean_outcome_earned_witness:
  "\<exists>d \<in> set sample_middle. cancels ''a1'' d"
proof -
  have "check_stream (sample_prefix @ sample_command [JString ''a1''] # sample_middle
     @ [sample_terminal []]) = []"
    using sample_stream_clean by (simp add: sample_stream_def)
  moreover have "agg_key_of (sample_command [JString ''a1'']) = (''command'', ''c1'')"
    "is_creation (sample_command [JString ''a1''])"
    "agg_key_of (sample_terminal []) = (''command'', ''c1'')" "is_state_change (sample_terminal [])"
    "payload_str (sample_terminal []) ''to'' = Some ''verification_complete''"
    "payload_str (sample_terminal []) ''outcome'' = Some ''clean''"
    "targets_of (sample_command [JString ''a1'']) = [''a1'']"
    by code_simp+
  ultimately show ?thesis using certified_clean_outcome_earned [of sample_prefix] by fastforce
qed

text \<open>
  The rule that a target must not have been canceled before the command was created is enforced
  for declared targets only. Here the attempt is canceled first, the command is created naming
  nothing, and its terminal event lists the attempt: the stream passes with outcome \<open>clean\<close>.
\<close>

definition loophole_stream :: "jevent list" where
  "loophole_stream =
     [sample_event 1 ''attempt'' ''a1'' 1 ''attempt_created'' [],
      sample_event 2 ''attempt'' ''a1'' 2 ''attempt_state_changed'' (sample_move ''queued'' ''canceled''),
      sample_event 3 ''command'' ''c1'' 1 ''command_created'' [],
      sample_event 4 ''command'' ''c1'' 2 ''command_state_changed'' (sample_move ''issued'' ''targeted''),
      sample_event 5 ''command'' ''c1'' 3 ''command_state_changed'' (sample_move ''targeted'' ''signaled''),
      sample_terminal [(''targets'', JArray [JString ''a1''])]]"

lemma late_target_certifies_clean: "check_stream loophole_stream = []"
  by (simp add: loophole_stream_def sample_defs check_eval)

end
