(* ===== verification/Gw_Store.thy ===== *)
theory Gw_Store
  imports Gw_Transition
begin

text \<open>
  The event store. The port \<open>EventStore\<close> of \<open>gwk-domain/src/port.rs\<close> is the locale
  \<open>event_store\<close>: what an append, a paged read and the watermark promise, with the readers that
  rely on it. It is interpreted on the in-memory reference store
  (\<open>gwk-cert/src/conformance.rs\<close>) and on the PostgreSQL store
  (\<open>gwk-kernel/src/store.rs\<close>), whose table constraints are those of \<open>schema/0001_contract.sql\<close>.

  The PostgreSQL store takes its surroundings as a record \<open>store_env\<close>: whether a statement fails
  (by its context label, as the error names it), the size of a payload's JSON text, what
  \<open>jsonb\<close> and \<open>timestamptz\<close> make of a value, the transaction's clock, the epoch this process
  claimed, and whether an admission permit is free. Nothing is assumed of it.
  A transaction is a function from the tables to a result and the tables; the tables it leaves
  after an error are dropped.
\<close>

datatype batch_fault =
    EmptyBatch
  | MixedAggregates
  | VersionCeiling
  | NonContiguousVersion
  | SchemaVersionZero
  | InlineTooLarge
  | KeyTwiceInBatch
  | NotTheStoredBatch
  | PartialReplay

datatype append_error =
    VersionConflict u32 u32
  | Fenced u64 u64
  | MalformedBatch batch_fault
  | Storage string

definition MAX_READ_LIMIT :: nat where
  "MAX_READ_LIMIT = 65536"

section \<open>The port\<close>

definition after_cursor :: "u64 option \<Rightarrow> 'p event_envelope \<Rightarrow> bool" where
  "after_cursor cursor e = (case cursor of None \<Rightarrow> True | Some c \<Rightarrow> c < global_sequence e)"

definition page_of :: "'p event_envelope list \<Rightarrow> u64 option \<Rightarrow> nat \<Rightarrow> 'p event_envelope list" where
  "page_of log cursor limit = take (min limit MAX_READ_LIMIT) (filter (after_cursor cursor) log)"

definition ordered_log :: "'p event_envelope list \<Rightarrow> bool" where
  "ordered_log log \<longleftrightarrow>
     sorted_wrt (<) (map global_sequence log)
     \<and> (\<forall>e \<in> set log. 0 < global_sequence e)
     \<and> (\<forall>k. map (\<lambda>e. unat (aggregate_version e)) (of_key k log)
              = [1..<Suc (length (of_key k log))])"

text \<open>
  The replay loop of \<open>recover.rs\<close>: page after page from the last sequence seen, until a page is
  empty or short. \<open>reader\<close> is the store's \<open>read_from\<close>; the fuel bounds the pages, and
  the loop answers None only when it runs out.
\<close>

fun drain ::
  "(u64 option \<Rightarrow> nat \<Rightarrow> 'x + 'p event_envelope list) \<Rightarrow> nat \<Rightarrow> nat \<Rightarrow> u64 option
     \<Rightarrow> ('x + 'p event_envelope list) option" where
  "drain reader limit 0 cursor = None"
| "drain reader limit (Suc fuel) cursor =
     (case reader cursor limit of
        Inl err \<Rightarrow> Some (Inl err)
      | Inr page \<Rightarrow>
          if page = [] then Some (Inr [])
          else if length page < limit then Some (Inr page)
          else (case drain reader limit fuel (Some (global_sequence (last page))) of
                  Some (Inr rest) \<Rightarrow> Some (Inr (page @ rest))
                | other \<Rightarrow> other))"

definition REPLAY_PAGE :: nat where
  "REPLAY_PAGE = 1000"

lemma after_next_page:
  assumes sorted: "sorted_wrt (<) (map global_sequence log)"
    and xs: "xs = filter (after_cursor c) log" and page: "take n xs \<noteq> []"
  shows "filter (after_cursor (Some (global_sequence (last (take n xs))))) log = drop n xs"
proof -
  let ?l = "last (take n xs)"
  have sx: "sorted_wrt (\<lambda>a b. global_sequence a < global_sequence b) xs"
    using sorted unfolding xs sorted_wrt_map by (rule sorted_wrt_filter)
  have "?l \<in> set xs" by (rule in_set_takeD [OF last_in_set [OF page]])
  then have "after_cursor c ?l" by (simp add: xs)
  then have "filter (after_cursor (Some (global_sequence ?l))) log
      = filter (after_cursor (Some (global_sequence ?l))) xs"
    by (auto simp: xs after_cursor_def intro!: filter_cong split: option.splits)
  also have "\<dots> = filter (after_cursor (Some (global_sequence ?l))) (butlast (take n xs) @ [?l])
      @ filter (after_cursor (Some (global_sequence ?l))) (drop n xs)"
    using page by (simp flip: filter_append)
  also have "\<dots> = drop n xs"
  proof -
    have "xs = (butlast (take n xs) @ [?l]) @ drop n xs" using page by simp
    with sx have "sorted_wrt (\<lambda>a b. global_sequence a < global_sequence b)
      ((butlast (take n xs) @ [?l]) @ drop n xs)" by metis
    then have "\<forall>a \<in> set (butlast (take n xs)). global_sequence a < global_sequence ?l"
      and "\<forall>b \<in> set (drop n xs). global_sequence ?l < global_sequence b"
      by (auto simp: sorted_wrt_append)
    then show ?thesis by (auto simp: after_cursor_def filter_id_conv filter_empty_conv)
  qed
  finally show ?thesis .
qed

lemma drain_page_of:
  assumes sorted: "sorted_wrt (<) (map global_sequence log)"
    and reader: "\<And>c. reader c limit = Inr (page_of log c limit)"
    and limit: "0 < limit" "limit \<le> MAX_READ_LIMIT"
  shows "length (filter (after_cursor c) log) < fuel \<Longrightarrow>
    drain reader limit fuel c = Some (Inr (filter (after_cursor c) log))"
proof (induction fuel arbitrary: c)
  case (Suc fuel)
  let ?xs = "filter (after_cursor c) log"
  have page: "page_of log c limit = take limit ?xs" using limit by (simp add: page_of_def)
  show ?case
  proof (cases "length ?xs < limit")
    case True
    then show ?thesis by (simp add: reader page)
  next
    case False
    with limit have ne: "take limit ?xs \<noteq> []" and full: "\<not> length (take limit ?xs) < limit"
      by auto
    let ?c = "Some (global_sequence (last (take limit ?xs)))"
    have rest: "filter (after_cursor ?c) log = drop limit ?xs"
      by (rule after_next_page [OF sorted refl ne])
    have "drain reader limit fuel ?c = Some (Inr (drop limit ?xs))"
      using Suc.IH [of ?c] Suc.prems limit False unfolding rest by simp
    then show ?thesis using ne full
      unfolding drain.simps reader page by (simp del: take_eq_Nil length_take)
  qed
qed simp

locale event_store =
  fixes append :: "'s \<Rightarrow> u32 \<Rightarrow> u64 option \<Rightarrow> 'p event_envelope list
                    \<Rightarrow> (append_error + 'p event_envelope list) \<times> 's"
    and read_from :: "'s \<Rightarrow> u64 option \<Rightarrow> nat \<Rightarrow> append_error + 'p event_envelope list"
    and log :: "'s \<Rightarrow> 'p event_envelope list"
    and good :: "'s \<Rightarrow> bool"
    and fits :: "'s \<Rightarrow> u32 \<Rightarrow> 'p event_envelope list \<Rightarrow> bool"
  assumes good_ordered: "good s \<Longrightarrow> ordered_log (log s)"
    and good_append: "good s \<Longrightarrow> fits s v es \<Longrightarrow> good (snd (append s v f es))"
    and refused: "append s v f es = (Inl x, s') \<Longrightarrow> s' = s"
    and appended: "good s \<Longrightarrow> fits s v es \<Longrightarrow> append s v f es = (Inr out, s')
      \<Longrightarrow> log s' = log s @ out \<or> log s' = log s \<and> set out \<subseteq> set (log s)"
    and read_page: "good s \<Longrightarrow> read_from s c n = Inr page \<Longrightarrow> page = page_of (log s) c n"
begin

lemma append_only: "good s \<Longrightarrow> fits s v es \<Longrightarrow> prefix (log s) (log (snd (append s v f es)))"
  by (cases "append s v f es", cases "fst (append s v f es)")
    (auto dest: refused appended)

text \<open>A reader that missed every wake-up recovers the whole suffix from its durable cursor.\<close>

lemma recovers:
  assumes "good s" and "0 < limit" and "limit \<le> MAX_READ_LIMIT"
    and "\<And>c x. read_from s c limit \<noteq> Inl x"
    and "length (filter (after_cursor c) (log s)) < fuel"
  shows "drain (read_from s) limit fuel c = Some (Inr (filter (after_cursor c) (log s)))"
proof (rule drain_page_of)
  show "sorted_wrt (<) (map global_sequence (log s))"
    using good_ordered [OF assms(1)] by (simp add: ordered_log_def)
  show "read_from s c limit = Inr (page_of (log s) c limit)" for c
    using read_page [OF assms(1), of c limit] assms(4) [of c] by (cases "read_from s c limit") auto
qed (use assms in auto)

lemma suffix_after_cursor:
  assumes "good s" and "log s = old @ new" and "old \<noteq> []"
  shows "filter (after_cursor (Some (global_sequence (last old)))) (log s) = new"
proof -
  have "sorted_wrt (<) (map global_sequence (log s))"
    using good_ordered [OF assms(1)] by (simp add: ordered_log_def)
  from after_next_page [OF this, of "log s" None "length old"] assms(2,3)
  show ?thesis by (simp add: after_cursor_def)
qed

end

section \<open>The reference store in memory\<close>

record 'p mem_store =
  mem_events :: "'p event_envelope list"
  mem_next_seq :: u64
  mem_fence :: u64

definition mem_new :: "'p mem_store" where
  "mem_new = \<lparr>mem_events = [], mem_next_seq = 0, mem_fence = 0\<rparr>"

fun mem_check_batch ::
  "agg_key \<Rightarrow> u32 \<Rightarrow> 'p event_envelope list \<Rightarrow> append_error + unit" where
  "mem_check_batch agg wanted [] = Inr ()"
| "mem_check_batch agg wanted (e # es) =
     (if agg_key_of e \<noteq> agg then Inl (MalformedBatch MixedAggregates)
      else if aggregate_version e \<noteq> wanted then Inl (MalformedBatch NonContiguousVersion)
      else mem_check_batch agg (wanted + 1) es)"

fun mem_assign :: "u64 \<Rightarrow> 'p event_envelope list \<Rightarrow> 'p event_envelope list" where
  "mem_assign next [] = []"
| "mem_assign next (e # es) =
     e\<lparr>global_sequence := next + 1, appended_at := ''seq:'' @ nat_text (unat (next + 1))\<rparr>
     # mem_assign (next + 1) es"

definition log_version :: "agg_key \<Rightarrow> 'p event_envelope list \<Rightarrow> u32" where
  "log_version k log = foldr max (map aggregate_version (of_key k log)) 0"

definition mem_append ::
  "'p mem_store \<Rightarrow> u32 \<Rightarrow> u64 option \<Rightarrow> 'p event_envelope list
     \<Rightarrow> (append_error + 'p event_envelope list) \<times> 'p mem_store" where
  "mem_append st expected_version fence events =
     (let presented = (case fence of None \<Rightarrow> 0 | Some f \<Rightarrow> f) in
      if presented \<noteq> mem_fence st then (Inl (Fenced presented (mem_fence st)), st)
      else (case events of
          [] \<Rightarrow> (Inl (MalformedBatch EmptyBatch), st)
        | first # _ \<Rightarrow>
            let agg = agg_key_of first in
            (case mem_check_batch agg (expected_version + 1) events of
               Inl err \<Rightarrow> (Inl err, st)
             | Inr _ \<Rightarrow>
                 let actual = log_version agg (mem_events st) in
                 if actual \<noteq> expected_version
                 then (Inl (VersionConflict actual expected_version), st)
                 else let assigned = mem_assign (mem_next_seq st) events in
                   (Inr assigned,
                    st\<lparr>mem_events := mem_events st @ assigned,
                       mem_next_seq := mem_next_seq st + of_nat (length events)\<rparr>))))"

definition mem_read_from ::
  "'p mem_store \<Rightarrow> u64 option \<Rightarrow> nat \<Rightarrow> append_error + 'p event_envelope list" where
  "mem_read_from st cursor limit =
     (let after = (case cursor of None \<Rightarrow> 0 | Some c \<Rightarrow> c)
      in Inr (take (min limit MAX_READ_LIMIT) (filter (\<lambda>e. after < global_sequence e) (mem_events st))))"

definition mem_watermark :: "'p mem_store \<Rightarrow> u64 option" where
  "mem_watermark st =
     (if mem_events st = [] then None else Some (global_sequence (last (mem_events st))))"

definition mem_grant_fence :: "'p mem_store \<Rightarrow> u64 \<times> 'p mem_store" where
  "mem_grant_fence st = (mem_fence st + 1, st\<lparr>mem_fence := mem_fence st + 1\<rparr>)"

section \<open>The PostgreSQL store\<close>

definition NO_FENCE_PRESENTED :: u64 where
  "NO_FENCE_PRESENTED = 0"

definition CHECKPOINT_EVENT_INTERVAL :: u64 where
  "CHECKPOINT_EVENT_INTERVAL = 10000"

record writer_row =
  w_epoch :: int
  w_fence_token :: "u64 option"
  w_next_seq :: u64
  w_checkpoint_seq :: u64

record 'p pg_state =
  pg_events :: "'p event_envelope list"
  pg_writer :: "writer_row option"

record 'p store_env =
  se_fails :: "string \<Rightarrow> bool"
  se_payload_len :: "'p \<Rightarrow> nat"
  se_jsonb :: "'p \<Rightarrow> 'p"
  se_timestamptz :: "timestamp \<Rightarrow> timestamp"
  se_now :: timestamp
  se_boot_epoch :: int
  se_permit :: bool
  se_overdue :: bool
  se_blobs :: bool

record writer_state =
  ws_next_seq :: u64
  ws_current_fence :: "u64 option"
  ws_checkpoint_seq :: u64
  ws_checkpoint_overdue :: bool

record 'p appended_batch =
  ap_events :: "'p event_envelope list"
  ap_replayed :: bool

definition query :: "('p, 'm) store_env_scheme \<Rightarrow> string \<Rightarrow> append_error + unit" where
  "query env context = guard_that (\<not> se_fails env context) (Storage context)"

definition checkpoint_due :: "writer_state \<Rightarrow> u64 \<Rightarrow> bool" where
  "checkpoint_due w through \<longleftrightarrow>
     ws_checkpoint_overdue w
     \<or> CHECKPOINT_EVENT_INTERVAL \<le> saturating_sub through (ws_checkpoint_seq w)"

definition admit :: "('p, 'm) store_env_scheme \<Rightarrow> append_error + unit" where
  "admit env = guard_that (se_permit env) (Storage ''append queue is full'')"

definition lock_writer ::
  "('p, 'm) store_env_scheme \<Rightarrow> ('p, 'z) pg_state_scheme \<Rightarrow> append_error + writer_state" where
  "lock_writer env st =
     and_then (query env ''lock writer row'') (\<lambda>_.
     and_then (ok_or (Storage ''gwk_internal.writer has no singleton row'') (pg_writer st)) (\<lambda>w.
     and_then (guard_that (w_epoch w = se_boot_epoch env) (Storage ''writer epoch was superseded''))
       (\<lambda>_. Inr \<lparr>ws_next_seq = w_next_seq w, ws_current_fence = w_fence_token w,
                ws_checkpoint_seq = w_checkpoint_seq w,
                ws_checkpoint_overdue = se_overdue env\<rparr>)))"

fun validate_from ::
  "('p \<Rightarrow> nat) \<Rightarrow> agg_key \<Rightarrow> nat \<Rightarrow> string option list \<Rightarrow> 'p event_envelope list
     \<Rightarrow> append_error + unit" where
  "validate_from plen agg want earlier [] = Inr ()"
| "validate_from plen agg want earlier (e # es) =
     and_then (guard_that (agg_key_of e = agg) (MalformedBatch MixedAggregates)) (\<lambda>_.
     and_then (guard_that (want \<le> 4294967295) (MalformedBatch VersionCeiling)) (\<lambda>_.
     and_then (guard_that (unat (aggregate_version e) = want) (MalformedBatch NonContiguousVersion)) (\<lambda>_.
     and_then (guard_that (schema_version e \<noteq> 0) (MalformedBatch SchemaVersionZero)) (\<lambda>_.
     and_then (guard_that (\<not> inline_too_large (plen (payload e))) (MalformedBatch InlineTooLarge)) (\<lambda>_.
     and_then (guard_that (case idempotency_key e of
                 None \<Rightarrow> True | Some key \<Rightarrow> \<not> List.member earlier (Some key))
         (MalformedBatch KeyTwiceInBatch)) (\<lambda>_.
     validate_from plen agg (Suc want) (earlier @ [idempotency_key e]) es))))))"

definition validate_batch ::
  "('p \<Rightarrow> nat) \<Rightarrow> u32 \<Rightarrow> 'p event_envelope list \<Rightarrow> append_error + unit" where
  "validate_batch plen expected_version events =
     (case events of
        [] \<Rightarrow> Inl (MalformedBatch EmptyBatch)
      | first # _ \<Rightarrow>
          validate_from plen (agg_key_of first) (unat expected_version + 1) [] events)"

text \<open>The table \<open>gwk.event\<close>: its primary key, unique constraints, unique indexes and checks.\<close>

definition event_row_allowed ::
  "'p event_envelope list \<Rightarrow> 'p event_envelope \<Rightarrow> bool" where
  "event_row_allowed rows row \<longleftrightarrow>
     1 \<le> aggregate_version row \<and> 1 \<le> schema_version row
     \<and> list_all (\<lambda>r.
         global_sequence r \<noteq> global_sequence row \<and> event_id r \<noteq> event_id row
         \<and> \<not> (agg_key_of r = agg_key_of row \<and> aggregate_version r = aggregate_version row)
         \<and> (idempotency_key row = None \<or> idempotency_key r \<noteq> idempotency_key row
            \<or> agg_key_of r \<noteq> agg_key_of row \<and> project_id r \<noteq> project_id row)) rows"

definition stored_row ::
  "('p, 'm) store_env_scheme \<Rightarrow> u64 \<Rightarrow> 'p event_envelope \<Rightarrow> 'p event_envelope" where
  "stored_row env seq e = e\<lparr>global_sequence := seq, appended_at := se_now env,
     occurred_at := se_timestamptz env (occurred_at e), payload := se_jsonb env (payload e)\<rparr>"

definition row_to_envelope :: "'p event_envelope \<Rightarrow> append_error + 'p event_envelope" where
  "row_to_envelope row =
     (case from_numeric_text (to_numeric_text (global_sequence row)) of
        Inl _ \<Rightarrow> Inl (Storage ''column seq'')
      | Inr seq \<Rightarrow> Inr (row\<lparr>global_sequence := seq\<rparr>))"

definition insert_event ::
  "('p, 'm) store_env_scheme \<Rightarrow> u64 \<Rightarrow> 'p event_envelope \<Rightarrow> ('p, 'z) pg_state_scheme
     \<Rightarrow> append_error + 'p event_envelope \<times> ('p, 'z) pg_state_scheme" where
  "insert_event env seq e st =
     (let row = stored_row env seq e in
      and_then (query env ''insert event'') (\<lambda>_.
      and_then (guard_that (event_row_allowed (pg_events st) row) (Storage ''insert event'')) (\<lambda>_.
      and_then (row_to_envelope row) (\<lambda>back.
        Inr (back, st\<lparr>pg_events := pg_events st @ [row]\<rparr>)))))"

fun insert_events ::
  "('p, 'm) store_env_scheme \<Rightarrow> u64 \<Rightarrow> nat \<Rightarrow> 'p event_envelope list \<Rightarrow> ('p, 'z) pg_state_scheme
     \<Rightarrow> append_error + 'p event_envelope list \<times> ('p, 'z) pg_state_scheme" where
  "insert_events env next_seq offset [] st = Inr ([], st)"
| "insert_events env next_seq offset (e # es) st =
     and_then (ok_or (Storage ''global sequence exhausted'') (checked_add next_seq (of_nat offset)))
       (\<lambda>seq.
     and_then (insert_event env seq e st) (\<lambda>(row, st1).
     and_then (insert_events env next_seq (Suc offset) es st1) (\<lambda>(rows, st2).
       Inr (row # rows, st2))))"

definition is_replay_of :: "'p event_envelope \<Rightarrow> 'p event_envelope \<Rightarrow> bool" where
  "is_replay_of stored presented \<longleftrightarrow>
     presented\<lparr>global_sequence := global_sequence stored, appended_at := appended_at stored,
       occurred_at := occurred_at stored\<rparr> = stored"

definition current_aggregate_version ::
  "('p, 'm) store_env_scheme \<Rightarrow> ('p, 'z) pg_state_scheme \<Rightarrow> string \<Rightarrow> string \<Rightarrow> append_error + u32" where
  "current_aggregate_version env st aty aid =
     and_then (query env ''read aggregate version'') (\<lambda>_. Inr (log_version (aty, aid) (pg_events st)))"

definition events_for_key ::
  "('p, 'm) store_env_scheme \<Rightarrow> ('p, 'z) pg_state_scheme \<Rightarrow> string \<Rightarrow> string \<Rightarrow> string \<Rightarrow> string
     \<Rightarrow> append_error + 'p event_envelope list" where
  "events_for_key env st project aty aid key =
     and_then (query env ''idempotency lookup'') (\<lambda>_.
       Inr (sort_key global_sequence (filter (\<lambda>e. idempotency_key e = Some key
              \<and> (project_id e = project \<or> agg_key_of e = (aty, aid))) (pg_events st))))"

definition check_fence :: "writer_state \<Rightarrow> u64 option \<Rightarrow> append_error + unit" where
  "check_fence writer fence =
     (case ws_current_fence writer of
        None \<Rightarrow> Inr ()
      | Some current \<Rightarrow>
          let presented = (case fence of None \<Rightarrow> NO_FENCE_PRESENTED | Some f \<Rightarrow> f)
          in guard_that (presented = current) (Fenced presented current))"

definition replay_lookup ::
  "('p, 'm) store_env_scheme \<Rightarrow> ('p, 'z) pg_state_scheme \<Rightarrow> 'p event_envelope list
     \<Rightarrow> append_error + 'p event_envelope list option" where
  "replay_lookup env st events =
     (let agg = agg_key_of (hd events); keys = List.map_filter idempotency_key events in
      if keys = [] then Inr None
      else and_then (query env ''idempotency lookup'') (\<lambda>_.
        let stored = sort_key global_sequence (filter (\<lambda>e. agg_key_of e = agg
              \<and> (case idempotency_key e of None \<Rightarrow> False | Some k \<Rightarrow> List.member keys k))
              (pg_events st)) in
        if stored = [] then Inr None
        else if length stored = length events \<and> length keys = length events then
          if list_all2 is_replay_of stored events then Inr (Some stored)
          else Inl (MalformedBatch NotTheStoredBatch)
        else Inl (MalformedBatch PartialReplay)))"

definition advance_writer ::
  "('p, 'm) store_env_scheme \<Rightarrow> u64 \<Rightarrow> ('p, 'z) pg_state_scheme
     \<Rightarrow> append_error + ('p, 'z) pg_state_scheme" where
  "advance_writer env advanced st =
     and_then (query env ''advance sequence'') (\<lambda>_.
       Inr (st\<lparr>pg_writer := map_option (\<lambda>w. w\<lparr>w_next_seq := advanced\<rparr>) (pg_writer st)\<rparr>))"

definition append_locked ::
  "('p, 'm) store_env_scheme \<Rightarrow> writer_state \<Rightarrow> u32 \<Rightarrow> u64 option \<Rightarrow> 'p event_envelope list
     \<Rightarrow> ('p, 'z) pg_state_scheme \<Rightarrow> append_error + 'p appended_batch \<times> ('p, 'z) pg_state_scheme" where
  "append_locked env writer expected_version fence events st =
     and_then (validate_batch (se_payload_len env) expected_version events) (\<lambda>_.
     and_then (check_fence writer fence) (\<lambda>_.
     and_then (replay_lookup env st events) (\<lambda>replayed.
     case replayed of
       Some stored \<Rightarrow> Inr (\<lparr>ap_events = stored, ap_replayed = True\<rparr>, st)
     | None \<Rightarrow>
         and_then (current_aggregate_version env st
                     (aggregate_type (hd events)) (aggregate_id (hd events))) (\<lambda>actual.
         and_then (guard_that (actual = expected_version) (VersionConflict actual expected_version))
           (\<lambda>_.
         and_then (insert_events env (ws_next_seq writer) 0 events st) (\<lambda>(appended, st1).
         and_then (ok_or (Storage ''global sequence exhausted'')
                     (checked_add (ws_next_seq writer) (of_nat (length events)))) (\<lambda>advanced.
         and_then (advance_writer env advanced st1) (\<lambda>st2.
         and_then (query env ''notify'') (\<lambda>_.
           Inr (\<lparr>ap_events = appended, ap_replayed = False\<rparr>, st2))))))))))"

text \<open>A transaction commits its tables or leaves them as they were.\<close>

definition transact :: "'e + 'a \<times> 's \<Rightarrow> 's \<Rightarrow> ('e + 'a) \<times> 's" where
  "transact r st = (case r of Inl err \<Rightarrow> (Inl err, st) | Inr (a, st') \<Rightarrow> (Inr a, st'))"

definition pg_append ::
  "('p, 'm) store_env_scheme \<Rightarrow> ('p, 'z) pg_state_scheme \<Rightarrow> u32 \<Rightarrow> u64 option
     \<Rightarrow> 'p event_envelope list
     \<Rightarrow> (append_error + 'p event_envelope list) \<times> ('p, 'z) pg_state_scheme" where
  "pg_append env st expected_version fence events =
     transact
       (and_then (admit env) (\<lambda>_.
        and_then (query env ''begin'') (\<lambda>_.
        and_then (lock_writer env st) (\<lambda>writer.
        and_then (append_locked env writer expected_version fence events st) (\<lambda>(appended, st1).
        and_then (query env ''commit'') (\<lambda>_. Inr (ap_events appended, st1)))))))
       st"

definition read_page ::
  "('p, 'm) store_env_scheme \<Rightarrow> ('p, 'z) pg_state_scheme \<Rightarrow> u64 option \<Rightarrow> nat
     \<Rightarrow> append_error + 'p event_envelope list" where
  "read_page env st cursor limit =
     and_then (query env ''read_from'') (\<lambda>_.
       Inr (take (min limit MAX_READ_LIMIT)
         (sort_key global_sequence (filter (after_cursor cursor) (pg_events st)))))"

definition pg_watermark ::
  "('p, 'm) store_env_scheme \<Rightarrow> ('p, 'z) pg_state_scheme \<Rightarrow> append_error + u64 option" where
  "pg_watermark env st =
     and_then (query env ''watermark'') (\<lambda>_.
       Inr (if pg_events st = [] then None
            else Some (foldr max (map global_sequence (pg_events st)) 0)))"

definition pg_grant_fence ::
  "('p, 'm) store_env_scheme \<Rightarrow> ('p, 'z) pg_state_scheme
     \<Rightarrow> (append_error + u64) \<times> ('p, 'z) pg_state_scheme" where
  "pg_grant_fence env st =
     transact
       (and_then (query env ''grant_fence'') (\<lambda>_.
        and_then (ok_or (Storage ''gwk_internal.writer has no singleton row'') (pg_writer st)) (\<lambda>w.
        and_then (ok_or (Storage ''grant_fence'')
                    (checked_add (case w_fence_token w of None \<Rightarrow> 0 | Some t \<Rightarrow> t) 1)) (\<lambda>token.
          Inr (token, st\<lparr>pg_writer := Some (w\<lparr>w_fence_token := Some token\<rparr>)\<rparr>)))))
       st"

definition claim_epoch ::
  "('p, 'm) store_env_scheme \<Rightarrow> ('p, 'z) pg_state_scheme
     \<Rightarrow> (append_error + int) \<times> ('p, 'z) pg_state_scheme" where
  "claim_epoch env st =
     transact
       (and_then (query env ''claim epoch'') (\<lambda>_.
        and_then (ok_or (Storage ''gwk_internal.writer has no singleton row'') (pg_writer st)) (\<lambda>w.
        and_then (guard_that (w_epoch w + 1 < 2 ^ 63) (Storage ''claim epoch'')) (\<lambda>_.
          Inr (w_epoch w + 1, st\<lparr>pg_writer := Some (w\<lparr>w_epoch := w_epoch w + 1\<rparr>)\<rparr>)))))
       st"

section \<open>Extending an ordered log\<close>

lemma foldr_max_upt:
  "map unat xs = [1..<Suc (length xs)] \<Longrightarrow> unat (foldr max xs (0 :: u32)) = length xs"
proof -
  assume eq: "map unat xs = [1..<Suc (length xs)]"
  have fold: "unat (foldr max ys (0 :: u32)) = foldr max (map unat ys) 0" for ys
    by (induction ys) (auto simp: max_def word_le_nat_alt)
  have "foldr max [1..<Suc n] m = max n m" for n m :: nat
    by (induction n arbitrary: m) (auto simp: max_def)
  then show ?thesis unfolding fold eq by simp
qed

lemma ordered_log_versions:
  "ordered_log log \<Longrightarrow>
   map (\<lambda>e. unat (aggregate_version e)) (of_key k log) = [1..<Suc (length (of_key k log))]"
  unfolding ordered_log_def by blast

lemma log_version_length:
  "ordered_log log \<Longrightarrow> unat (log_version k log) = length (of_key k log)"
  using foldr_max_upt [of "map aggregate_version (of_key k log)"] ordered_log_versions [of log k]
  by (simp add: log_version_def comp_def del: upt_Suc)

lemma upt_join: "[Suc 0..<Suc n] @ [Suc n..<Suc (n + m)] = [Suc 0..<Suc (n + m)]"
  using upt_add_eq_append [of 1 "Suc n" m] by (simp del: upt_Suc)

lemma ordered_log_extend:
  assumes log: "ordered_log log"
    and key: "\<forall>e \<in> set rows. agg_key_of e = k"
    and versions: "map (\<lambda>e. unat (aggregate_version e)) rows
       = [Suc (unat (log_version k log))..<Suc (unat (log_version k log)) + length rows]"
    and seqs: "sorted_wrt (<) (map global_sequence rows)"
    and above: "\<forall>e \<in> set rows. 0 < global_sequence e \<and> (\<forall>d \<in> set log. global_sequence d < global_sequence e)"
  shows "ordered_log (log @ rows)"
proof -
  have rows: "of_key j rows = (if j = k then rows else [])" for j
    using key by (auto simp: of_key_def filter_id_conv filter_empty_conv)
  have "map (\<lambda>e. unat (aggregate_version e)) (of_key j (log @ rows))
      = [1..<Suc (length (of_key j (log @ rows)))]" for j
  proof (cases "j = k")
    case True
    from ordered_log_versions [OF log, of k] versions True show ?thesis
      by (simp add: rows log_version_length [OF log] upt_join del: upt_Suc)
  next
    case False
    with ordered_log_versions [OF log, of j] show ?thesis by (simp add: rows del: upt_Suc)
  qed
  moreover have "sorted_wrt (<) (map global_sequence (log @ rows))"
    and "\<forall>e \<in> set (log @ rows). 0 < global_sequence e"
    using log seqs above by (auto simp: ordered_log_def sorted_wrt_append)
  ultimately show ?thesis unfolding ordered_log_def by blast
qed

section \<open>The reference store keeps the contract\<close>

definition mem_good :: "'p mem_store \<Rightarrow> bool" where
  "mem_good st \<longleftrightarrow> ordered_log (mem_events st)
     \<and> (\<forall>e \<in> set (mem_events st). global_sequence e \<le> mem_next_seq st)"

text \<open>Room below the ceilings of the two counters, which this store does not check.\<close>

definition mem_fits :: "'p mem_store \<Rightarrow> u32 \<Rightarrow> 'p event_envelope list \<Rightarrow> bool" where
  "mem_fits st v es \<longleftrightarrow> unat (mem_next_seq st) + length es < 2 ^ 64 \<and> unat v + length es < 2 ^ 32"

lemma unat_add_small: "unat a + unat b < 2 ^ LENGTH('a) \<Longrightarrow> unat (a + b) = unat a + unat (b :: 'a::len word)"
  by (simp add: unat_word_ariths)

lemma unat_Suc_small: "unat a + 1 < 2 ^ LENGTH('a) \<Longrightarrow> unat (a + 1) = unat (a :: 'a::len word) + 1"
  by (simp add: unat_word_ariths)

lemma mem_check_batch_Inr:
  "mem_check_batch agg w es = Inr u \<Longrightarrow> unat w + length es \<le> 2 ^ 32 \<Longrightarrow>
   (\<forall>e \<in> set es. agg_key_of e = agg)
   \<and> map (\<lambda>e. unat (aggregate_version e)) es = [unat w..<unat w + length es]"
proof (induction es arbitrary: w)
  case (Cons e es)
  show ?case
  proof (cases "es = []")
    case True
    with Cons.prems show ?thesis by (simp split: if_splits)
  next
    case False
    then have "unat w + 1 < 2 ^ 32" using Cons.prems(2) by (cases es) auto
    then have w: "unat (w + 1) = unat w + 1" using unat_Suc_small [of w] by simp
    from Cons.prems have "mem_check_batch agg (w + 1) es = Inr u" "agg_key_of e = agg"
      "aggregate_version e = w" by (auto split: if_splits)
    with Cons.IH [of "w + 1"] Cons.prems(2) w show ?thesis
      by (simp add: upt_conv_Cons del: upt_Suc)
  qed
qed simp

lemma mem_assign_seqs:
  "unat n + length es < 2 ^ 64 \<Longrightarrow>
   map (\<lambda>e. unat (global_sequence e)) (mem_assign n es) = [Suc (unat n)..<Suc (unat n + length es)]"
proof (induction es arbitrary: n)
  case (Cons e es)
  then have "unat (n + 1) = unat n + 1" using unat_Suc_small [of n] by simp
  with Cons show ?case by (simp add: upt_conv_Cons del: upt_Suc)
qed simp

lemma mem_assign_keeps [simp]:
  "map (\<lambda>e. unat (aggregate_version e)) (mem_assign n es) = map (\<lambda>e. unat (aggregate_version e)) es"
  "agg_key_of ` set (mem_assign n es) = agg_key_of ` set es"
  "length (mem_assign n es) = length es"
  by (induction es arbitrary: n) (simp_all add: agg_key_of_def del: upt_Suc)

lemma sorted_upt_words:
  fixes xs :: "'a::len word list"
  assumes "map unat xs = [a..<b]"
  shows "sorted_wrt (<) xs"
proof -
  have "sorted_wrt (<) (map unat xs)" unfolding assms by (rule sorted_wrt_upt)
  then have "sorted_wrt (\<lambda>x y. unat x < unat y) xs" by (simp add: sorted_wrt_map)
  then show ?thesis by (rule sorted_wrt_mono_rel [rotated]) (simp add: word_less_nat_alt)
qed

lemma words_of_upt:
  fixes xs :: "'a::len word list"
  assumes "map unat xs = [a..<b]" and "x \<in> set xs"
  shows "a \<le> unat x \<and> unat x < b"
proof -
  have "unat x \<in> set (map unat xs)" using assms(2) by simp
  then show ?thesis unfolding assms(1) by simp
qed

lemma mem_append_Inr:
  assumes "mem_append st v f es = (Inr out, st')"
  obtains k where "es \<noteq> []" and "k = agg_key_of (hd es)" and "mem_check_batch k (v + 1) es = Inr ()"
    and "log_version k (mem_events st) = v" and "out = mem_assign (mem_next_seq st) es"
    and "st' = st\<lparr>mem_events := mem_events st @ out,
           mem_next_seq := mem_next_seq st + of_nat (length es)\<rparr>"
  using assms that
  by (auto simp: mem_append_def Let_def split: if_splits list.splits sum.splits)

lemma mem_append_good:
  assumes good: "mem_good st" and fits: "mem_fits st v es"
    and app: "mem_append st v f es = (Inr out, st')"
  shows "mem_good st'"
  using app
proof (rule mem_append_Inr)
  fix k
  assume ne: "es \<noteq> []" and check: "mem_check_batch k (v + 1) es = Inr ()"
    and v: "log_version k (mem_events st) = v" and out: "out = mem_assign (mem_next_seq st) es"
    and st': "st' = st\<lparr>mem_events := mem_events st @ out,
           mem_next_seq := mem_next_seq st + of_nat (length es)\<rparr>"
  have room: "unat (mem_next_seq st) + length es < 2 ^ 64" "unat v + length es < 2 ^ 32"
    using fits by (simp_all add: mem_fits_def)
  with ne have v1: "unat (v + 1) = unat v + 1"
    using unat_Suc_small [of v] by (cases es) auto
  have batch: "\<forall>e \<in> set es. agg_key_of e = k"
    "map (\<lambda>e. unat (aggregate_version e)) es = [Suc (unat v)..<Suc (unat v) + length es]"
    using mem_check_batch_Inr [OF check] room v1 by simp_all
  have vers: "map (\<lambda>e. unat (aggregate_version e)) out = [Suc (unat v)..<Suc (unat v) + length out]"
    using batch(2) by (simp add: out del: upt_Suc)
  have "agg_key_of ` set out = agg_key_of ` set es" by (simp add: out)
  with batch(1) have key: "\<forall>e \<in> set out. agg_key_of e = k" by auto
  have seqs: "map unat (map global_sequence out)
      = [Suc (unat (mem_next_seq st))..<Suc (unat (mem_next_seq st) + length es)]"
    using mem_assign_seqs [OF room(1)] by (simp add: out comp_def)
  have bound: "unat (mem_next_seq st) < unat (global_sequence e)
      \<and> unat (global_sequence e) \<le> unat (mem_next_seq st) + length es" if "e \<in> set out" for e
    using words_of_upt [OF seqs, of "global_sequence e"] that by auto
  have nxt: "unat (mem_next_seq st + of_nat (length es)) = unat (mem_next_seq st) + length es"
    using room(1) by (subst unat_add_small) (auto simp: unat_of_nat take_bit_nat_eq_self_iff)
  have "ordered_log (mem_events st @ out)"
  proof (rule ordered_log_extend [OF _ key])
    show "sorted_wrt (<) (map global_sequence out)" by (rule sorted_upt_words [OF seqs])
    show "\<forall>e \<in> set out. 0 < global_sequence e
        \<and> (\<forall>d \<in> set (mem_events st). global_sequence d < global_sequence e)"
      using bound good by (fastforce simp: mem_good_def word_less_nat_alt word_le_nat_alt)
  qed (use good vers v in \<open>auto simp: mem_good_def\<close>)
  then show "mem_good st'"
    using bound good nxt by (fastforce simp: mem_good_def st' word_le_nat_alt)
qed

lemma mem_append_refused: "mem_append st v f es = (Inl x, st') \<Longrightarrow> st' = st"
  by (auto simp: mem_append_def Let_def split: if_splits list.splits sum.splits)

interpretation memory: event_store mem_append mem_read_from mem_events mem_good mem_fits
proof
  fix s :: "'p mem_store" and v f es x s' out c n page
  show "mem_good s \<Longrightarrow> ordered_log (mem_events s)" by (simp add: mem_good_def)
  show "mem_good s \<Longrightarrow> mem_fits s v es \<Longrightarrow> mem_good (snd (mem_append s v f es))"
    by (cases "mem_append s v f es", cases "fst (mem_append s v f es)")
      (auto dest: mem_append_refused mem_append_good)
  show "mem_append s v f es = (Inl x, s') \<Longrightarrow> s' = s"
    by (rule mem_append_refused)
  show "mem_append s v f es = (Inr out, s') \<Longrightarrow>
    mem_events s' = mem_events s @ out \<or> mem_events s' = mem_events s \<and> set out \<subseteq> set (mem_events s)"
    by (erule mem_append_Inr) simp
  assume "mem_good s" and "mem_read_from s c n = Inr page"
  then show "page = page_of (mem_events s) c n"
    by (auto simp: mem_read_from_def page_of_def Let_def after_cursor_def mem_good_def
        ordered_log_def intro!: arg_cong [of _ _ "take _"] filter_cong split: option.splits)
qed

section \<open>The PostgreSQL store keeps the contract\<close>

definition rows_distinct :: "'p event_envelope \<Rightarrow> 'p event_envelope \<Rightarrow> bool" where
  "rows_distinct r row \<longleftrightarrow> event_id r \<noteq> event_id row
     \<and> (idempotency_key row = None \<or> idempotency_key r \<noteq> idempotency_key row
        \<or> agg_key_of r \<noteq> agg_key_of row \<and> project_id r \<noteq> project_id row)"

definition pg_good :: "('p, 'z) pg_state_scheme \<Rightarrow> bool" where
  "pg_good st \<longleftrightarrow> ordered_log (pg_events st) \<and> sorted_wrt rows_distinct (pg_events st)
     \<and> (case pg_writer st of
          None \<Rightarrow> True
        | Some w \<Rightarrow> 0 < w_next_seq w \<and> (\<forall>e \<in> set (pg_events st). global_sequence e < w_next_seq w))"

lemma query_Inr [result_simps, simp]: "query env c = Inr u \<longleftrightarrow> \<not> se_fails env c"
  by (simp add: query_def result_simps)

lemma row_to_envelope_id [simp]: "row_to_envelope row = Inr row"
  by (simp add: row_to_envelope_def)

lemma stored_row_simps [simp]:
  "global_sequence (stored_row env n e) = n"
  "agg_key_of (stored_row env n e) = agg_key_of e"
  "aggregate_version (stored_row env n e) = aggregate_version e"
  "idempotency_key (stored_row env n e) = idempotency_key e"
  "project_id (stored_row env n e) = project_id e"
  "event_id (stored_row env n e) = event_id e"
  "event_type (stored_row env n e) = event_type e"
  "aggregate_type (stored_row env n e) = aggregate_type e"
  "aggregate_id (stored_row env n e) = aggregate_id e"
  by (simp_all add: stored_row_def agg_key_of_def)

lemma insert_event_Inr:
  "insert_event env n e st = Inr (row, st') \<longleftrightarrow>
     \<not> se_fails env ''insert event'' \<and> event_row_allowed (pg_events st) row
     \<and> row = stored_row env n e \<and> st' = st\<lparr>pg_events := pg_events st @ [row]\<rparr>"
  by (auto simp: insert_event_def Let_def result_simps)

lemma event_row_allowed_distinct:
  "event_row_allowed rows row \<Longrightarrow> r \<in> set rows \<Longrightarrow> rows_distinct r row"
  by (auto simp: event_row_allowed_def rows_distinct_def list_all_iff)

lemma insert_events_Inr:
  assumes "insert_events env n off es st = Inr (rows, st')" and "off + length es < 2 ^ 64"
  shows "st' = st\<lparr>pg_events := pg_events st @ rows\<rparr>
    \<and> list_all2 (\<lambda>row e. \<exists>q. row = stored_row env q e) rows es
    \<and> map (\<lambda>e. unat (global_sequence e)) rows = [unat n + off..<unat n + off + length es]
    \<and> (sorted_wrt rows_distinct (pg_events st) \<longrightarrow> sorted_wrt rows_distinct (pg_events st @ rows))"
  using assms
proof (induction es arbitrary: off st rows st')
  case Nil
  then show ?case by simp
next
  case (Cons e es)
  from Cons.prems(1) obtain q row st1 more where
    q: "checked_add n (of_nat off) = Some q" and row: "insert_event env q e st = Inr (row, st1)"
    and more: "insert_events env n (Suc off) es st1 = Inr (more, st')" and rows: "rows = row # more"
    by (auto simp: result_simps split: prod.splits)
  have "unat (of_nat off :: u64) = off"
    using Cons.prems(2) by (simp add: unat_of_nat take_bit_nat_eq_self_iff)
  then have uq: "unat q = unat n + off" using checked_add_unat [OF q] by simp
  from row have r: "row = stored_row env q e" "st1 = st\<lparr>pg_events := pg_events st @ [row]\<rparr>"
    and ok: "event_row_allowed (pg_events st) row" by (auto simp: insert_event_Inr)
  from Cons.IH [OF more] Cons.prems(2)
  have IH: "st' = st1\<lparr>pg_events := pg_events st1 @ more\<rparr>"
    "list_all2 (\<lambda>row e. \<exists>q. row = stored_row env q e) more es"
    "map (\<lambda>e. unat (global_sequence e)) more = [unat n + Suc off..<unat n + Suc off + length es]"
    "sorted_wrt rows_distinct (pg_events st1) \<longrightarrow> sorted_wrt rows_distinct (pg_events st1 @ more)"
    by simp_all
  have "sorted_wrt rows_distinct (pg_events st @ [row])" if "sorted_wrt rows_distinct (pg_events st)"
    using that event_row_allowed_distinct [OF ok] by (simp add: sorted_wrt_append)
  with IH r uq rows show ?case by (auto simp: upt_conv_Cons simp del: upt_Suc)
qed

lemma validate_from_Inr:
  "validate_from plen agg want earlier es = Inr u \<Longrightarrow>
   (\<forall>e \<in> set es. agg_key_of e = agg \<and> schema_version e \<noteq> 0 \<and> \<not> inline_too_large (plen (payload e)))
   \<and> map (\<lambda>e. unat (aggregate_version e)) es = [want..<want + length es]
   \<and> (es \<noteq> [] \<longrightarrow> want + length es \<le> 2 ^ 32)"
proof (induction es arbitrary: want earlier)
  case (Cons e es)
  then have "validate_from plen agg (Suc want) (earlier @ [idempotency_key e]) es = Inr u"
    and e: "agg_key_of e = agg" "unat (aggregate_version e) = want" "schema_version e \<noteq> 0"
      "\<not> inline_too_large (plen (payload e))" "want \<le> 4294967295"
    by (auto simp: result_simps)
  note IH = Cons.IH [OF this(1)]
  with e show ?case by (cases es) (auto simp: upt_conv_Cons simp del: upt_Suc)
qed simp

lemma validate_batch_Inr:
  assumes "validate_batch plen v es = Inr u"
  shows "es \<noteq> []" and "\<forall>e \<in> set es. agg_key_of e = agg_key_of (hd es) \<and> schema_version e \<noteq> 0
          \<and> \<not> inline_too_large (plen (payload e))"
    and "map (\<lambda>e. unat (aggregate_version e)) es = [Suc (unat v)..<Suc (unat v) + length es]"
    and "unat v + length es < 2 ^ 32"
proof -
  from assms show ne: "es \<noteq> []" by (cases es) (simp_all add: validate_batch_def)
  with assms have "validate_from plen (agg_key_of (hd es)) (unat v + 1) [] es = Inr u"
    by (cases es) (simp_all add: validate_batch_def)
  note facts = validate_from_Inr [OF this]
  from facts show "\<forall>e \<in> set es. agg_key_of e = agg_key_of (hd es) \<and> schema_version e \<noteq> 0
      \<and> \<not> inline_too_large (plen (payload e))" by blast
  from facts show "map (\<lambda>e. unat (aggregate_version e)) es
      = [Suc (unat v)..<Suc (unat v) + length es]" by (simp del: upt_Suc)
  from facts ne show "unat v + length es < 2 ^ 32" by simp
qed

definition keyed_rows :: "'p event_envelope list \<Rightarrow> 'p event_envelope list \<Rightarrow> 'p event_envelope list" where
  "keyed_rows es log = filter (\<lambda>e. agg_key_of e = agg_key_of (hd es)
     \<and> (case idempotency_key e of
          None \<Rightarrow> False | Some k \<Rightarrow> List.member (List.map_filter idempotency_key es) k)) log"

lemma keyed_rows_append [simp]: "keyed_rows es (xs @ ys) = keyed_rows es xs @ keyed_rows es ys"
  by (simp add: keyed_rows_def)

lemma sort_key_log:
  "ordered_log log \<Longrightarrow> sort_key global_sequence (filter P log) = filter P log"
  by (intro sort_key_sorted_id sorted_filter_map)
    (auto simp: ordered_log_def intro: strict_sorted_imp_sorted)

lemma replay_lookup_Some:
  assumes "replay_lookup env st es = Inr (Some stored)"
  shows "stored = sort_key global_sequence (keyed_rows es (pg_events st))"
    and "list_all2 is_replay_of stored es"
    and "length (List.map_filter idempotency_key es) = length es"
    and "stored \<noteq> []"
  using assms
  by (auto simp: replay_lookup_def Let_def keyed_rows_def result_simps split: if_splits)

lemma replay_lookup_None:
  assumes "replay_lookup env st es = Inr None"
  shows "keyed_rows es (pg_events st) = []"
proof (cases "List.map_filter idempotency_key es = []")
  case True
  then show ?thesis by (simp add: keyed_rows_def filter_empty_conv split: option.split)
next
  case False
  with assms have "sort_key global_sequence (keyed_rows es (pg_events st)) = []"
    by (auto simp: replay_lookup_def Let_def keyed_rows_def result_simps split: if_splits)
  then show ?thesis by (metis set_empty set_sort)
qed

lemma append_locked_cases:
  assumes "append_locked env w v f es st = Inr (ap, st')"
  obtains (replay) "st' = st" "ap_replayed ap" "replay_lookup env st es = Inr (Some (ap_events ap))"
        "validate_batch (se_payload_len env) v es = Inr ()"
    | (fresh) st1 adv where "\<not> ap_replayed ap" "replay_lookup env st es = Inr None"
        "validate_batch (se_payload_len env) v es = Inr ()"
        "log_version (agg_key_of (hd es)) (pg_events st) = v"
        "insert_events env (ws_next_seq w) 0 es st = Inr (ap_events ap, st1)"
        "checked_add (ws_next_seq w) (of_nat (length es)) = Some adv"
        "st' = st1\<lparr>pg_writer := map_option (\<lambda>w. w\<lparr>w_next_seq := adv\<rparr>) (pg_writer st1)\<rparr>"
proof (cases "replay_lookup env st es")
  case (Inl x)
  with assms show thesis by (simp add: append_locked_def result_simps)
next
  case (Inr r)
  show thesis
  proof (cases r)
    case (Some stored)
    with assms Inr show thesis by (intro replay) (auto simp: append_locked_def result_simps)
  next
    case None
    with assms Inr that(2) show thesis
      by (auto simp: append_locked_def result_simps current_aggregate_version_def
          advance_writer_def agg_key_of_def split: prod.splits)
  qed
qed

lemma fresh_ordered:
  assumes log: "ordered_log (pg_events st)"
    and below: "\<forall>e \<in> set (pg_events st). global_sequence e < n" and n: "0 < n"
    and valid: "validate_batch plen v es = Inr ()"
    and v: "log_version (agg_key_of (hd es)) (pg_events st) = v"
    and ins: "insert_events env n 0 es st = Inr (rows, st1)"
    and adv: "checked_add n (of_nat (length es)) = Some adv"
  shows "ordered_log (pg_events st @ rows)"
    and "\<forall>e \<in> set (pg_events st @ rows). global_sequence e < adv" and "0 < adv"
proof -
  note batch = validate_batch_Inr [OF valid]
  have len: "0 + length es < 2 ^ 64" using batch(4) by simp
  from insert_events_Inr [OF ins len]
  have same: "list_all2 (\<lambda>row e. \<exists>q. row = stored_row env q e) rows es"
    and seqs: "map unat (map global_sequence rows) = [unat n..<unat n + length es]"
    by (simp_all add: comp_def)
  from same have "map (\<lambda>e. unat (aggregate_version e)) rows = map (\<lambda>e. unat (aggregate_version e)) es"
    and keys: "map agg_key_of rows = map agg_key_of es" and lens: "length rows = length es"
    by (induction rule: list_all2_induct) auto
  with batch(3) have vers: "map (\<lambda>e. unat (aggregate_version e)) rows
      = [Suc (unat v)..<Suc (unat v) + length rows]" by simp
  have key: "\<forall>e \<in> set rows. agg_key_of e = agg_key_of (hd es)"
    using batch(2) arg_cong [OF keys, of set] by auto
  have bound: "unat n \<le> unat (global_sequence e) \<and> unat (global_sequence e) < unat n + length es"
    if "e \<in> set rows" for e
    using words_of_upt [OF seqs, of "global_sequence e"] that by auto
  have "unat (of_nat (length es) :: u64) = length es"
    using len by (simp add: unat_of_nat take_bit_nat_eq_self_iff)
  with checked_add_unat [OF adv] have ua: "unat adv = unat n + length es" by simp
  show "ordered_log (pg_events st @ rows)"
  proof (rule ordered_log_extend [OF log key])
    show "sorted_wrt (<) (map global_sequence rows)" by (rule sorted_upt_words [OF seqs])
    show "\<forall>e \<in> set rows. 0 < global_sequence e
        \<and> (\<forall>d \<in> set (pg_events st). global_sequence d < global_sequence e)"
      using bound below n by (fastforce simp: word_less_nat_alt)
  qed (use vers v in auto)
  show "\<forall>e \<in> set (pg_events st @ rows). global_sequence e < adv"
    using bound below ua by (fastforce simp: word_less_nat_alt)
  show "0 < adv" using n ua by (simp add: word_less_nat_alt)
qed

lemma lock_writer_Inr:
  assumes "lock_writer env st = Inr w"
  obtains row where "pg_writer st = Some row" "w_epoch row = se_boot_epoch env"
    "ws_next_seq w = w_next_seq row" "ws_current_fence w = w_fence_token row"
    "ws_checkpoint_seq w = w_checkpoint_seq row"
  using assms that by (auto simp: lock_writer_def result_simps)

lemma append_locked_good:
  assumes good: "pg_good st" and lock: "lock_writer env st = Inr w"
    and app: "append_locked env w v f es st = Inr (ap, st')"
  shows "pg_good st'"
    and "pg_events st' = pg_events st @ ap_events ap \<and> \<not> ap_replayed ap
         \<or> st' = st \<and> ap_replayed ap \<and> set (ap_events ap) \<subseteq> set (pg_events st)"
proof -
  from lock obtain row where row: "pg_writer st = Some row" "ws_next_seq w = w_next_seq row"
    by (rule lock_writer_Inr)
  have "pg_good st' \<and> (pg_events st' = pg_events st @ ap_events ap \<and> \<not> ap_replayed ap
         \<or> st' = st \<and> ap_replayed ap \<and> set (ap_events ap) \<subseteq> set (pg_events st))"
    using app
  proof (cases rule: append_locked_cases)
    case replay
    with good replay_lookup_Some(1) [OF replay(3)] show ?thesis by (auto simp: keyed_rows_def)
  next
    case (fresh st1 adv)
    have g: "ordered_log (pg_events st)" "0 < ws_next_seq w"
      "\<forall>e \<in> set (pg_events st). global_sequence e < ws_next_seq w"
      using good row by (simp_all add: pg_good_def)
    have len: "0 + length es < 2 ^ 64" using validate_batch_Inr(4) [OF fresh(3)] by simp
    from insert_events_Inr [OF fresh(5) len] good
    have st1: "st1 = st\<lparr>pg_events := pg_events st @ ap_events ap\<rparr>"
      "sorted_wrt rows_distinct (pg_events st @ ap_events ap)" by (simp_all add: pg_good_def)
    note o = fresh_ordered [OF g(1,3,2) fresh(3,4,5,6)]
    from o st1 fresh row show ?thesis by (simp add: pg_good_def)
  qed
  then show "pg_good st'" and "pg_events st' = pg_events st @ ap_events ap \<and> \<not> ap_replayed ap
         \<or> st' = st \<and> ap_replayed ap \<and> set (ap_events ap) \<subseteq> set (pg_events st)" by auto
qed

lemma pg_append_Inr:
  assumes "pg_append env st v f es = (Inr out, st')"
  obtains w ap where "lock_writer env st = Inr w" "append_locked env w v f es st = Inr (ap, st')"
    "out = ap_events ap"
  using assms that
  by (auto simp: pg_append_def transact_def result_simps split: sum.splits prod.splits)

lemma pg_append_Inl: "pg_append env st v f es = (Inl x, st') \<Longrightarrow> st' = st"
  by (auto simp: pg_append_def transact_def split: sum.splits)

lemma pg_append_good:
  "pg_good st \<Longrightarrow> pg_append env st v f es = (r, st') \<Longrightarrow> pg_good st'"
  by (cases r) (auto dest: pg_append_Inl elim!: pg_append_Inr intro: append_locked_good(1))

interpretation postgres: event_store "pg_append env" "read_page env" pg_events pg_good "\<lambda>_ _ _. True"
  for env :: "('p, 'm) store_env_scheme"
proof
  fix s :: "('p, 'z) pg_state_scheme" and v f es x s' out c n page
  show "pg_good s \<Longrightarrow> ordered_log (pg_events s)" by (simp add: pg_good_def)
  show "pg_good s \<Longrightarrow> pg_good (snd (pg_append env s v f es))"
    by (metis pg_append_good prod.collapse)
  show "pg_append env s v f es = (Inl x, s') \<Longrightarrow> s' = s" by (rule pg_append_Inl)
  show "pg_good s \<Longrightarrow> pg_append env s v f es = (Inr out, s') \<Longrightarrow>
    pg_events s' = pg_events s @ out \<or> pg_events s' = pg_events s \<and> set out \<subseteq> set (pg_events s)"
    by (erule pg_append_Inr) (auto dest: append_locked_good(2))
  show "pg_good s \<Longrightarrow> read_page env s c n = Inr page \<Longrightarrow> page = page_of (pg_events s) c n"
    by (auto simp: read_page_def page_of_def result_simps sort_key_log pg_good_def)
qed

section \<open>Fences\<close>

definition append_all ::
  "('s \<Rightarrow> u32 \<Rightarrow> u64 option \<Rightarrow> 'p event_envelope list \<Rightarrow> (append_error + 'p event_envelope list) \<times> 's)
     \<Rightarrow> 's \<Rightarrow> (u32 \<times> u64 option \<times> 'p event_envelope list) list \<Rightarrow> 's" where
  "append_all app s ops = foldl (\<lambda>s (v, f, es). snd (app s v f es)) s ops"

locale fenced_store = event_store append read_from log good fits
  for append :: "'s \<Rightarrow> u32 \<Rightarrow> u64 option \<Rightarrow> 'p event_envelope list
                    \<Rightarrow> (append_error + 'p event_envelope list) \<times> 's"
    and read_from :: "'s \<Rightarrow> u64 option \<Rightarrow> nat \<Rightarrow> append_error + 'p event_envelope list"
    and log :: "'s \<Rightarrow> 'p event_envelope list"
    and good :: "'s \<Rightarrow> bool"
    and fits :: "'s \<Rightarrow> u32 \<Rightarrow> 'p event_envelope list \<Rightarrow> bool" +
  fixes grant :: "'s \<Rightarrow> (append_error + u64) \<times> 's" and grantable :: "'s \<Rightarrow> bool"
  assumes granted: "grantable s \<Longrightarrow> grant s = (Inr t, s') \<Longrightarrow> f \<noteq> Some t
      \<Longrightarrow> \<exists>x. fst (append s' v f es) = Inl x"
    and grant_log: "grant s = (r, s') \<Longrightarrow> log s' = log s"
begin

lemma deposed_writer_changes_nothing:
  assumes "grantable s" and "grant s = (Inr t, s')"
    and "\<forall>(v, f, es) \<in> set ops. f \<noteq> Some t"
  shows "append_all append s' ops = s'"
  using assms(3)
proof (induction ops)
  case (Cons op ops)
  obtain v f es where op: "op = (v, f, es)" by (cases op)
  with Cons.prems granted [OF assms(1,2), of f v es] have "snd (append s' v f es) = s'"
    by (cases "append s' v f es") (auto dest: refused)
  with Cons op show ?case by (simp add: append_all_def)
qed (simp add: append_all_def)

end

definition mem_grant :: "'p mem_store \<Rightarrow> (append_error + u64) \<times> 'p mem_store" where
  "mem_grant st = (let (t, st') = mem_grant_fence st in (Inr t, st'))"

interpretation memory_fence: fenced_store mem_append mem_read_from mem_events mem_good mem_fits
  mem_grant "\<lambda>st. mem_fence st + 1 \<noteq> 0"
  by unfold_locales
    (auto simp: mem_grant_def mem_grant_fence_def mem_append_def Let_def split: option.split)

lemma checked_add_one_pos: "checked_add a 1 = Some c \<Longrightarrow> c \<noteq> (0 :: 'a::len word)"
  using checked_add_unat [of a 1 c] by (cases "LENGTH('a) = 0") auto

lemma pg_grant_Inr:
  assumes "pg_grant_fence env st = (Inr t, st')"
  obtains w where "pg_writer st = Some w" "t \<noteq> 0"
    "st' = st\<lparr>pg_writer := Some (w\<lparr>w_fence_token := Some t\<rparr>)\<rparr>"
    "\<forall>old. w_fence_token w = Some old \<longrightarrow> old < t"
proof -
  from assms obtain w where w: "pg_writer st = Some w"
    and add: "checked_add (case w_fence_token w of None \<Rightarrow> 0 | Some t \<Rightarrow> t) 1 = Some t"
    and st': "st' = st\<lparr>pg_writer := Some (w\<lparr>w_fence_token := Some t\<rparr>)\<rparr>"
    by (auto simp: pg_grant_fence_def transact_def result_simps split: sum.splits)
  from checked_add_unat [OF add] have "\<forall>old. w_fence_token w = Some old \<longrightarrow> old < t"
    by (auto simp: word_less_nat_alt)
  with w checked_add_one_pos [OF add] st' show thesis by (rule that)
qed

lemma fence_mismatch_refused:
  assumes "pg_writer st = Some w" "w_fence_token w = Some t" "t \<noteq> 0" "f \<noteq> Some t"
  shows "\<exists>x. fst (pg_append env st v f es) = Inl x"
proof (cases "pg_append env st v f es")
  case (Pair r st')
  show ?thesis
  proof (cases r)
    case (Inr out)
    with Pair obtain w' ap where lock: "lock_writer env st = Inr w'"
      and app: "append_locked env w' v f es st = Inr (ap, st')" by (auto elim: pg_append_Inr)
    from lock assms(1,2) have "ws_current_fence w' = Some t" by (auto elim!: lock_writer_Inr)
    with app assms(3,4) show ?thesis
      by (auto simp: append_locked_def result_simps check_fence_def NO_FENCE_PRESENTED_def
          split: option.splits)
  qed (simp add: Pair)
qed

interpretation postgres_fence: fenced_store "pg_append env" "read_page env" pg_events pg_good
  "\<lambda>_ _ _. True" "pg_grant_fence env'" "\<lambda>_. True"
  for env env' :: "('p, 'm) store_env_scheme"
proof
  fix s s' :: "('p, 'z) pg_state_scheme" and t f v es r
  show "pg_grant_fence env' s = (Inr t, s') \<Longrightarrow> f \<noteq> Some t
      \<Longrightarrow> \<exists>x. fst (pg_append env s' v f es) = Inl x"
    by (erule pg_grant_Inr) (rule fence_mismatch_refused, auto)
  show "pg_grant_fence env' s = (r, s') \<Longrightarrow> pg_events s' = pg_events s"
    by (auto simp: pg_grant_fence_def transact_def result_simps split: sum.splits)
qed

section \<open>A keyed retry\<close>

lemma fresh_keyed_rows:
  assumes "list_all2 (\<lambda>row e. \<exists>q. row = stored_row env q e) rows es"
    and "\<forall>e \<in> set es. agg_key_of e = agg_key_of (hd es) \<and> idempotency_key e \<noteq> None"
  shows "keyed_rows es rows = rows"
proof -
  have "\<forall>r \<in> set rows. \<exists>e \<in> set es. agg_key_of r = agg_key_of e
      \<and> idempotency_key r = idempotency_key e"
    using assms(1) by (induction rule: list_all2_induct) auto
  moreover have "k \<in> set (List.map_filter idempotency_key es)"
    if "e \<in> set es" "idempotency_key e = Some k" for e k
    using that by (force simp: List.map_filter_def image_iff)
  ultimately show ?thesis
    using assms(2) by (fastforce simp: keyed_rows_def filter_id_conv split: option.split)
qed

lemma stored_is_replay:
  assumes "list_all2 (\<lambda>row e. \<exists>q. row = stored_row env q e) rows es"
    and "\<forall>e \<in> set es. se_jsonb env (payload e) = payload e"
  shows "list_all2 is_replay_of rows es"
  using assms
  by (induction rule: list_all2_induct) (auto simp: is_replay_of_def stored_row_def)

lemma is_replay_of_keeps:
  assumes "is_replay_of r e"
  shows "idempotency_key r = idempotency_key e" and "agg_key_of r = agg_key_of e"
    and "aggregate_version r = aggregate_version e" and "payload r = payload e"
  using arg_cong [OF assms [unfolded is_replay_of_def], of idempotency_key]
    arg_cong [OF assms [unfolded is_replay_of_def], of agg_key_of]
    arg_cong [OF assms [unfolded is_replay_of_def], of aggregate_version]
    arg_cong [OF assms [unfolded is_replay_of_def], of payload]
  by (simp_all add: agg_key_of_def)

lemma later_rows_unkeyed:
  assumes distinct: "sorted_wrt rows_distinct (log @ later)"
    and rows: "list_all2 is_replay_of out es" "set out \<subseteq> set log"
    and keyed: "\<forall>e \<in> set es. agg_key_of e = agg_key_of (hd es)"
  shows "keyed_rows es later = []"
proof -
  have "\<exists>r \<in> set log. agg_key_of r = agg_key_of (hd es) \<and> idempotency_key r = Some k"
    if "k \<in> set (List.map_filter idempotency_key es)" for k
  proof -
    from that obtain e where e: "e \<in> set es" "idempotency_key e = Some k"
      by (auto simp: List.map_filter_def)
    with rows(1) obtain r where "r \<in> set out" "is_replay_of r e"
      by (metis in_set_conv_nth list_all2_conv_all_nth)
    with rows(2) keyed e show ?thesis using is_replay_of_keeps [of r e] by auto
  qed
  with distinct show ?thesis
    by (fastforce simp: keyed_rows_def filter_empty_conv sorted_wrt_append rows_distinct_def
        split: option.splits)
qed

lemma pg_append_stored:
  assumes good: "pg_good st" and app: "pg_append env st v f es = (Inr out, st1)"
    and keyed: "\<forall>e \<in> set es. idempotency_key e \<noteq> None"
    and jsonb: "\<forall>e \<in> set es. se_jsonb env (payload e) = payload e"
  shows "keyed_rows es (pg_events st1) = out" and "list_all2 is_replay_of out es"
    and "\<forall>e \<in> set es. agg_key_of e = agg_key_of (hd es)" and "es \<noteq> []"
    and "validate_batch (se_payload_len env) v es = Inr ()" and "set out \<subseteq> set (pg_events st1)"
proof -
  from app obtain w ap where lock: "lock_writer env st = Inr w"
    and al: "append_locked env w v f es st = Inr (ap, st1)" and out: "out = ap_events ap"
    by (rule pg_append_Inr)
  have good1: "pg_good st1" by (rule append_locked_good(1) [OF good lock al])
  from al have "keyed_rows es (pg_events st1) = out \<and> list_all2 is_replay_of out es
    \<and> validate_batch (se_payload_len env) v es = Inr ()"
  proof (cases rule: append_locked_cases)
    case replay
    note look = replay_lookup_Some [OF replay(3)]
    have "sort_key global_sequence (keyed_rows es (pg_events st)) = keyed_rows es (pg_events st)"
      using good by (simp add: keyed_rows_def sort_key_log pg_good_def)
    with look(1) have "keyed_rows es (pg_events st1) = out" unfolding replay(1) out by simp
    with look(2) replay(4) out show ?thesis by blast
  next
    case (fresh st' adv)
    have len: "0 + length es < 2 ^ 64" using validate_batch_Inr(4) [OF fresh(3)] by simp
    note ins = insert_events_Inr [OF fresh(5) len]
    from ins have rows: "list_all2 (\<lambda>row e. \<exists>q. row = stored_row env q e) out es"
      unfolding out by blast
    from ins have "st' = st\<lparr>pg_events := pg_events st @ out\<rparr>" unfolding out by blast
    then have ev: "pg_events st1 = pg_events st @ out" unfolding fresh(7) by simp
    have "keyed_rows es out = out"
      using fresh_keyed_rows [OF rows] validate_batch_Inr(2) [OF fresh(3)] keyed by blast
    with stored_is_replay [OF rows jsonb] ev replay_lookup_None [OF fresh(2)] fresh(3)
    show ?thesis by simp
  qed
  then show rows: "keyed_rows es (pg_events st1) = out" and "list_all2 is_replay_of out es"
    and valid: "validate_batch (se_payload_len env) v es = Inr ()" by blast+
  show "es \<noteq> []" by (rule validate_batch_Inr(1) [OF valid])
  show "\<forall>e \<in> set es. agg_key_of e = agg_key_of (hd es)"
    using validate_batch_Inr(2) [OF valid] by blast
  show "set out \<subseteq> set (pg_events st1)" unfolding rows [symmetric] by (auto simp: keyed_rows_def)
qed

lemma all_keyed_length:
  "\<forall>e \<in> set es. idempotency_key e \<noteq> None \<Longrightarrow>
   length (List.map_filter idempotency_key es) = length es"
  by (induction es) (auto simp: List.map_filter_simps)

text \<open>An environment in which nothing stands in an append's way.\<close>

definition clear_run :: "('p, 'm) store_env_scheme \<Rightarrow> ('p, 'z) pg_state_scheme \<Rightarrow> u64 option \<Rightarrow> bool" where
  "clear_run env st fence \<longleftrightarrow> se_permit env \<and> (\<forall>c. \<not> se_fails env c)
     \<and> (\<exists>w. pg_writer st = Some w \<and> w_epoch w = se_boot_epoch env
            \<and> (\<forall>t. w_fence_token w = Some t \<longrightarrow> fence = Some t))"

lemma clear_run_lock:
  assumes "clear_run env st fence"
  obtains w where "lock_writer env st = Inr w" "check_fence w fence = Inr ()"
  using assms that
  by (auto simp: clear_run_def lock_writer_def query_def check_fence_def split: option.splits)

lemma pg_append_clear:
  assumes "clear_run env st fence"
    and "\<And>w. lock_writer env st = Inr w \<Longrightarrow> check_fence w fence = Inr ()
           \<Longrightarrow> append_locked env w v fence es st = Inr (ap, st1)"
  shows "pg_append env st v fence es = (Inr (ap_events ap), st1)"
proof -
  from assms(1) obtain w where "lock_writer env st = Inr w" "check_fence w fence = Inr ()"
    by (rule clear_run_lock)
  with assms show ?thesis
    by (simp add: pg_append_def transact_def admit_def query_def clear_run_def)
qed

lemma retry_found:
  assumes rows: "keyed_rows es (pg_events st) = out" "list_all2 is_replay_of out es"
    and ne: "es \<noteq> []" and keyed: "\<forall>e \<in> set es. idempotency_key e \<noteq> None"
    and good: "pg_good st" and run: "\<not> se_fails env ''idempotency lookup''"
  shows "replay_lookup env st es = Inr (Some out)"
proof -
  have "List.map_filter idempotency_key es \<noteq> []"
    using all_keyed_length [OF keyed] ne by auto
  moreover have "length out = length es" using rows(2) by (rule list_all2_lengthD)
  moreover have "out \<noteq> []" using calculation ne by auto
  moreover have "sort_key global_sequence (keyed_rows es (pg_events st)) = out"
    unfolding rows(1) [symmetric] using good by (simp add: keyed_rows_def sort_key_log pg_good_def)
  ultimately show ?thesis
    using rows(2) run all_keyed_length [OF keyed]
    by (simp add: replay_lookup_def Let_def query_def keyed_rows_def)
qed

section \<open>Properties\<close>

text \<open>
  Every state the PostgreSQL store can be in: starting from an empty log and a fresh writer row,
  any number of processes append batches, claim epochs and grant fences, each in surroundings of
  its own.
\<close>

inductive pg_reachable :: "'p pg_state \<Rightarrow> bool" where
  initial: "pg_reachable \<lparr>pg_events = [],
     pg_writer = Some \<lparr>w_epoch = 0, w_fence_token = None, w_next_seq = 1, w_checkpoint_seq = 0\<rparr>\<rparr>"
| append: "pg_reachable st \<Longrightarrow> pg_append (env :: 'p store_env) st v f es = (r, st') \<Longrightarrow> pg_reachable st'"
| claim: "pg_reachable st \<Longrightarrow> claim_epoch (env :: 'p store_env) st = (r', st') \<Longrightarrow> pg_reachable st'"
| grant: "pg_reachable st \<Longrightarrow> pg_grant_fence (env :: 'p store_env) st = (r'', st') \<Longrightarrow> pg_reachable st'"

lemma pg_good_writer:
  "pg_good st \<Longrightarrow> pg_writer st = Some w \<Longrightarrow> w_next_seq w' = w_next_seq w
   \<Longrightarrow> pg_good (st\<lparr>pg_writer := Some w'\<rparr>)"
  by (simp add: pg_good_def)

lemma pg_reachable_good: "pg_reachable st \<Longrightarrow> pg_good st"
proof (induction rule: pg_reachable.induct)
  case initial
  show ?case by (simp add: pg_good_def ordered_log_def)
next
  case (append st env v f es r st')
  then show ?case by (blast intro: pg_append_good)
next
  case (claim st env r' st')
  then show ?case
    by (auto simp: claim_epoch_def transact_def result_simps intro: pg_good_writer
        split: sum.splits)
next
  case (grant st env r'' st')
  then show ?case
    by (auto simp: pg_grant_fence_def transact_def result_simps intro: pg_good_writer
        split: sum.splits)
qed

text \<open>
  C11: the log of the PostgreSQL store is well formed in every reachable state, whatever statements
  fail and whoever writes: global sequences strictly increase from 1 in commit order, the versions
  of every aggregate are exactly 1, 2, 3 and so on, event ids are unique, and no idempotency key
  names two events of one project or of one aggregate.
\<close>

theorem pg_log_well_formed:
  assumes "pg_reachable st"
  shows "sorted_wrt (<) (map global_sequence (pg_events st))
    \<and> (\<forall>e \<in> set (pg_events st). 0 < global_sequence e)
    \<and> map (\<lambda>e. unat (aggregate_version e)) (of_key k (pg_events st))
        = [1..<Suc (length (of_key k (pg_events st)))]
    \<and> sorted_wrt rows_distinct (pg_events st)"
  using pg_reachable_good [OF assms] ordered_log_versions [of "pg_events st" k]
  by (simp add: pg_good_def ordered_log_def del: upt_Suc)

text \<open>
  C12: a keyed append happens once. After a batch whose events all carry a key has landed, then
  whatever else is appended later, sending the identical batch again in a run that meets no
  obstacle answers the original events and changes nothing. The one thing asked of the database is
  that \<open>jsonb\<close> hands these payloads back as they were.
\<close>

theorem keyed_append_exactly_once:
  assumes "pg_reachable st" and "pg_append env st v f es = (Inr out, st1)"
    and "\<forall>e \<in> set es. idempotency_key e \<noteq> None"
    and "\<forall>e \<in> set es. se_jsonb env (payload e) = payload e"
    and "pg_reachable st2" and "pg_events st2 = pg_events st1 @ later"
    and "clear_run env2 st2 f2" and "se_payload_len env2 = se_payload_len env"
  shows "pg_append env2 st2 v f2 es = (Inr out, st2)"
proof -
  note stored = pg_append_stored [OF pg_reachable_good [OF assms(1)] assms(2-4)]
  have good2: "pg_good st2" by (rule pg_reachable_good [OF assms(5)])
  then have "sorted_wrt rows_distinct (pg_events st1 @ later)"
    by (simp add: pg_good_def assms(6))
  then have "keyed_rows es later = []" by (rule later_rows_unkeyed [OF _ stored(2,6,3)])
  then have "keyed_rows es (pg_events st2) = out" by (simp add: assms(6) stored(1))
  moreover have "\<not> se_fails env2 ''idempotency lookup''" using assms(7) by (simp add: clear_run_def)
  ultimately have "replay_lookup env2 st2 es = Inr (Some out)"
    using retry_found [OF _ stored(2,4) assms(3) good2] by blast
  then have "append_locked env2 w v f2 es st2 = Inr (\<lparr>ap_events = out, ap_replayed = True\<rparr>, st2)"
    if "check_fence w f2 = Inr ()" for w
    using that stored(5) assms(8) by (simp add: append_locked_def)
  then show ?thesis
    using pg_append_clear [OF assms(7), of v es "\<lparr>ap_events = out, ap_replayed = True\<rparr>"] by simp
qed


text \<open>
  C14: the replay loop sees the whole log. Reading pages of 1000 from the last sequence seen until a
  short page, a reader at any cursor collects exactly the events after it, in order, each once, and
  the loop ends after at most one page more than there are events.
\<close>

theorem replay_reads_everything:
  assumes "pg_reachable st" and "\<forall>c. \<not> se_fails env c"
    and "length (pg_events st) < fuel"
  shows "drain (read_page env st) REPLAY_PAGE fuel cursor
    = Some (Inr (filter (after_cursor cursor) (pg_events st)))"
proof (rule postgres.recovers [OF pg_reachable_good [OF assms(1)]])
  show "read_page env st c REPLAY_PAGE \<noteq> Inl x" for c x
    using assms(2) by (simp add: read_page_def query_def)
  show "length (filter (after_cursor cursor) (pg_events st)) < fuel"
    using assms(3) length_filter_le order.strict_trans1 by blast
qed (simp_all add: REPLAY_PAGE_def MAX_READ_LIMIT_def)

section \<open>A run of the store\<close>

definition calm_env :: "int \<Rightarrow> nat store_env" where
  "calm_env epoch = \<lparr>se_fails = (\<lambda>_. False), se_payload_len = (\<lambda>_. 10), se_jsonb = (\<lambda>p. p),
     se_timestamptz = (\<lambda>t. t), se_now = ''2026-01-02'', se_boot_epoch = epoch, se_permit = True,
     se_overdue = False, se_blobs = False\<rparr>"

definition demo_event :: "nat event_envelope" where
  "demo_event = \<lparr>event_id = ''evt-1'', project_id = ''p'', aggregate_type = ''task'',
     aggregate_id = ''t-1'', aggregate_version = 1, event_type = ''task_created'',
     schema_version = 1, global_sequence = 77, occurred_at = ''2026-01-01'', appended_at = ''never'',
     actor = \<lparr>actor_kind = ''op'', actor_id = None\<rparr>,
     origin = \<lparr>origin_system = ''cli'', origin_ref = None\<rparr>, causation_id = None,
     correlation_id = None, idempotency_key = Some ''k-1'', payload = 5, payload_ref = None\<rparr>"

definition demo_row :: "nat event_envelope" where
  "demo_row = demo_event\<lparr>global_sequence := 1, appended_at := ''2026-01-02''\<rparr>"

definition demo_writer :: "u64 \<Rightarrow> writer_row" where
  "demo_writer n = \<lparr>w_epoch = 0, w_fence_token = None, w_next_seq = n, w_checkpoint_seq = 0\<rparr>"

definition demo_start :: "nat pg_state" where
  "demo_start = \<lparr>pg_events = [], pg_writer = Some (demo_writer 1)\<rparr>"

definition demo_after :: "nat pg_state" where
  "demo_after = \<lparr>pg_events = [demo_row], pg_writer = Some (demo_writer 2)\<rparr>"

lemmas demo_defs = calm_env_def demo_event_def demo_row_def demo_writer_def demo_start_def demo_after_def

lemma demo_append: "pg_append (calm_env 0) demo_start 0 None [demo_event] = (Inr [demo_row], demo_after)"
  by (simp add: demo_defs pg_append_def transact_def admit_def query_def lock_writer_def
      append_locked_def validate_batch_def inline_too_large_def INLINE_PAYLOAD_MAX_BYTES_def
      agg_key_of_def check_fence_def replay_lookup_def List.map_filter_simps
      current_aggregate_version_def log_version_def insert_event_def Let_def stored_row_def
      event_row_allowed_def row_to_envelope_def checked_add_def advance_writer_def)

lemma demo_reachable: "pg_reachable demo_start" "pg_reachable demo_after"
  using pg_reachable.initial [where 'p = nat] pg_reachable.append [OF _ demo_append]
  by (simp_all add: demo_start_def demo_writer_def)

lemma demo_clear: "clear_run (calm_env 0) demo_after None"
  by (simp add: clear_run_def demo_defs)

theorem pg_log_well_formed_witness:
  "pg_reachable demo_after
   \<and> map (\<lambda>e. unat (aggregate_version e)) (of_key (''task'', ''t-1'') (pg_events demo_after)) = [1]"
proof -
  have "length (of_key (''task'', ''t-1'') (pg_events demo_after)) = 1"
    by (simp add: demo_defs agg_key_of_def)
  with pg_log_well_formed [OF demo_reachable(2), of "(''task'', ''t-1'')"] demo_reachable(2)
  show ?thesis by simp
qed

theorem keyed_append_exactly_once_witness:
  "pg_append (calm_env 0) demo_after 0 None [demo_event] = (Inr [demo_row], demo_after)"
  by (rule keyed_append_exactly_once [OF demo_reachable(1) demo_append _ _ demo_reachable(2) _ demo_clear,
        where later = "[]"])
    (simp_all add: demo_defs)


theorem replay_reads_everything_witness:
  "drain (read_page (calm_env 0) demo_after) REPLAY_PAGE 2 None = Some (Inr [demo_row])"
  using replay_reads_everything [OF demo_reachable(2), of "calm_env 0" 2 None]
  by (simp add: demo_defs after_cursor_def)

end
