(* ===== verification/Gw_Command.thy ===== *)
theory Gw_Command
  imports Gw_Store
begin

text \<open>
  The commands a client may issue (\<open>gwk-domain/src/command.rs\<close>) with the small types they carry
  (\<open>entity.rs\<close>, \<open>inherited.rs\<close>, \<open>ingestion.rs\<close>), the refusals the kernel answers
  (\<open>protocol.rs\<close>, \<open>gwk-kernel/src/project.rs\<close>) and the decoding of an envelope. A
  refusal keeps its code and its structured detail; the human-readable message is left out.
  Decoding a JSON body is \<open>serde\<close>'s: it is a parameter of \<open>from_envelope\<close>.
\<close>

record budget =
  max_tokens :: "u32 option"
  max_tool_calls :: "u32 option"
  max_wall_ms :: "u32 option"
  max_cost_micros :: "u64 option"

datatype workspace_node_kind = Node_Workspace | Node_Tab | Node_Pane

fun workspace_node_kind_str :: "workspace_node_kind \<Rightarrow> string" where
  "workspace_node_kind_str Node_Workspace = ''workspace''"
| "workspace_node_kind_str Node_Tab = ''tab''"
| "workspace_node_kind_str Node_Pane = ''pane''"

record open_attempt_ref =
  oar_attempt_id :: string
  oar_task_id :: string
  oar_state :: string
  oar_engine :: string
  oar_worktree_lease_id :: "string option"

record lease_snapshot =
  ls_lease_id :: string
  ls_scope :: "string option"
  ls_holder :: "string option"
  ls_expires_at :: "timestamp option"

record pending_approval =
  pa_kind :: string
  pa_question :: string
  pa_subject_ref :: "string option"
  pa_raised_at :: timestamp

record budget_cursor =
  spent_tokens :: "u32 option"
  spent_tool_calls :: "u32 option"
  spent_cost_micros :: "u64 option"
  window_started_at :: "timestamp option"

record orchestrator_checkpoint =
  oc_orchestrator_id :: "string option"
  oc_seq :: u64
  oc_native_session_ref :: "string option"
  oc_active_goal :: "string option"
  oc_active_step_ref :: "string option"
  oc_latest_command_ref :: "string option"
  oc_open_attempts :: "open_attempt_ref list option"
  oc_leases :: "lease_snapshot list option"
  oc_pending_approvals :: "pending_approval list option"
  oc_budget_cursor :: "budget_cursor option"

datatype finding_action = AutoFix | AskUser | NoOp

record round_finding_summary =
  rfs_total :: u32
  rfs_auto_fix :: u32
  rfs_ask_user :: u32
  rfs_no_op :: u32

datatype ingestion_kind =
    Ingest_Memory
  | Ingest_Knowledge
  | Ingest_GraphSnapshot
  | Ingest_EvalVerdict
  | Ingest_Insight
  | Ingest_Cost
  | Ingest_Health
  | Ingest_Session
  | Ingest_Config
  | Ingest_Checkpoint
  | Ingest_Round
  | Ingest_Finding

definition ingestion_kinds :: "ingestion_kind list" where
  "ingestion_kinds = [Ingest_Memory, Ingest_Knowledge, Ingest_GraphSnapshot, Ingest_EvalVerdict,
     Ingest_Insight, Ingest_Cost, Ingest_Health, Ingest_Session, Ingest_Config, Ingest_Checkpoint,
     Ingest_Round, Ingest_Finding]"

fun ingestion_kind_str :: "ingestion_kind \<Rightarrow> string" where
  "ingestion_kind_str Ingest_Memory = ''memory''"
| "ingestion_kind_str Ingest_Knowledge = ''knowledge''"
| "ingestion_kind_str Ingest_GraphSnapshot = ''graph_snapshot''"
| "ingestion_kind_str Ingest_EvalVerdict = ''eval_verdict''"
| "ingestion_kind_str Ingest_Insight = ''insight''"
| "ingestion_kind_str Ingest_Cost = ''cost''"
| "ingestion_kind_str Ingest_Health = ''health''"
| "ingestion_kind_str Ingest_Session = ''session''"
| "ingestion_kind_str Ingest_Config = ''config''"
| "ingestion_kind_str Ingest_Checkpoint = ''checkpoint''"
| "ingestion_kind_str Ingest_Round = ''round''"
| "ingestion_kind_str Ingest_Finding = ''finding''"

definition ingestion_kind_parse :: "string \<Rightarrow> ingestion_kind option" where
  "ingestion_kind_parse w = find (\<lambda>k. ingestion_kind_str k = w) ingestion_kinds"

interpretation ingestion_wire: wire_enum ingestion_kind_str ingestion_kind_parse
proof
  show "ingestion_kind_parse (ingestion_kind_str k) = Some k" for k
    by (cases k) (simp_all add: ingestion_kind_parse_def ingestion_kinds_def)
  show "ingestion_kind_str k = w" if "ingestion_kind_parse w = Some k" for w k
    using that by (auto simp: ingestion_kind_parse_def find_Some_iff)
qed

section \<open>Refusals\<close>

datatype kernel_error_code =
    Code_Handshake
  | Code_UnsupportedVersion
  | Code_Capability
  | Code_Validation
  | Code_DuplicateKey
  | Code_FrameSize
  | Code_Sealed
  | Code_AlreadyActive
  | Code_NotFound
  | Code_Indeterminate
  | Code_StaleVersion
  | Code_IllegalEdge
  | Code_Authority
  | Code_IdempotencyConflict
  | Code_Fenced
  | Code_Overloaded
  | Code_SlowConsumer
  | Code_Storage
  | Code_Schema
  | Code_Privilege
  | Code_BlobIntegrity
  | Code_BlobTombstoned

fun kernel_error_code_str :: "kernel_error_code \<Rightarrow> string" where
  "kernel_error_code_str Code_Handshake = ''handshake''"
| "kernel_error_code_str Code_UnsupportedVersion = ''unsupported_version''"
| "kernel_error_code_str Code_Capability = ''capability''"
| "kernel_error_code_str Code_Validation = ''validation''"
| "kernel_error_code_str Code_DuplicateKey = ''duplicate_key''"
| "kernel_error_code_str Code_FrameSize = ''frame_size''"
| "kernel_error_code_str Code_Sealed = ''sealed''"
| "kernel_error_code_str Code_AlreadyActive = ''already_active''"
| "kernel_error_code_str Code_NotFound = ''not_found''"
| "kernel_error_code_str Code_Indeterminate = ''indeterminate''"
| "kernel_error_code_str Code_StaleVersion = ''stale_version''"
| "kernel_error_code_str Code_IllegalEdge = ''illegal_edge''"
| "kernel_error_code_str Code_Authority = ''authority''"
| "kernel_error_code_str Code_IdempotencyConflict = ''idempotency_conflict''"
| "kernel_error_code_str Code_Fenced = ''fenced''"
| "kernel_error_code_str Code_Overloaded = ''overloaded''"
| "kernel_error_code_str Code_SlowConsumer = ''slow_consumer''"
| "kernel_error_code_str Code_Storage = ''storage''"
| "kernel_error_code_str Code_Schema = ''schema''"
| "kernel_error_code_str Code_Privilege = ''privilege''"
| "kernel_error_code_str Code_BlobIntegrity = ''blob_integrity''"
| "kernel_error_code_str Code_BlobTombstoned = ''blob_tombstoned''"

record refusal =
  code :: kernel_error_code
  detail :: "json option"

definition refusal_new :: "kernel_error_code \<Rightarrow> refusal" where
  "refusal_new c = \<lparr>code = c, detail = None\<rparr>"

definition with_detail :: "refusal \<Rightarrow> json \<Rightarrow> refusal" where
  "with_detail r d = r\<lparr>detail := Some d\<rparr>"

definition validation :: refusal where
  "validation = refusal_new Code_Validation"

definition not_found :: refusal where
  "not_found = refusal_new Code_NotFound"

definition storage_failed :: refusal where
  "storage_failed = refusal_new Code_Storage"

definition json_u32 :: "u32 \<Rightarrow> json" where
  "json_u32 n = JNumber (nat_text (unat n))"

definition stale_version :: "u32 \<Rightarrow> u32 \<Rightarrow> refusal" where
  "stale_version actual expected =
     with_detail (refusal_new Code_StaleVersion)
       (JObject [(''actual'', json_u32 actual), (''expected'', json_u32 expected)])"

fun refusal_of_append :: "append_error \<Rightarrow> refusal" where
  "refusal_of_append (VersionConflict actual expected) = stale_version actual expected"
| "refusal_of_append (Fenced presented current) =
     with_detail (refusal_new Code_Fenced)
       (JObject [(''presented'', JString (nat_text (unat presented))),
                 (''current'', JString (nat_text (unat current)))])"
| "refusal_of_append (MalformedBatch _) = validation"
| "refusal_of_append (Storage _) = storage_failed"

definition lift_append :: "append_error + 'a \<Rightarrow> refusal + 'a" where
  "lift_append r = (case r of Inl e \<Rightarrow> Inl (refusal_of_append e) | Inr x \<Rightarrow> Inr x)"

lemma lift_append_Inr [simp, result_simps]: "lift_append r = Inr x \<longleftrightarrow> r = Inr x"
  by (cases r) (simp_all add: lift_append_def)

section \<open>Commands\<close>

datatype (plugins only: size) kernel_command =
    ActivateKernel string string
  | CreateTask string "string option" "string option" "string option" "string option" "i32 option" "string option"
  | TransitionTask string task_state u32
  | UpdateBudget string u32 budget
  | CreateAttempt string string string "string option" "string option" "string option" "string option" "string option" "string option" "budget option"
  | TransitionAttempt string attempt_state u32 "string option"
  | RecordAttemptRuntime string u32 string timestamp
  | RecordAttemptOutcome string u32 "i32 option" "string option" "bool option" "string option"
  | OpenEngineSession string string string "string option"
  | CloseEngineSession string
  | SendMessage string "string option" "string option" "string option" "string option" "string option" "string option" "json option" "timestamp option"
  | TransitionMessage string message_state u32 "string option"
  | IssueCommand string string "string list" "actor option"
  | TransitionCommand string command_state u32
  | RecordCommandOutcome string u32 outcome
  | AcquireLease string lease_mode "string option" "string option" "string option" "string option" "string option" "string option" "timestamp option"
  | RenewLease string u32 "timestamp option"
  | ReleaseLease string u32 "string option"
  | ExpireLease string u32
  | OpenGate string "string option" "string option" "string option" "string option" "string list option"
  | DecideGate string u32 gate_verdict "string option" "string option"
  | GrantAuthority string actor string "string option" "timestamp option"
  | RevokeAuthority string "string option"
  | RaiseAttention string string string "string option" "actor option" "i32 option"
  | ResolveAttention string "string option"
  | AckAttention string
  | MuteAttention string timestamp
  | UnmuteAttention string
  | RecordEvidence string string string "string option" "u64 option"
  | RecordCostEntry string "string option" "string option" "string option" string "string option" "u64 option" "u64 option" "u64 option" "u64 option" "u64 option" "u64 option" "bool option"
  | RegisterWorktree string string string string "string option" "string option"
  | UpdateWorktree string bool bool "string option"
  | ReleaseWorktree string "string option"
  | CreateWorkspaceNode string workspace_node_kind "string option" "string option"
  | MoveWorkspaceNode string string u32
  | RebindWorkspacePane string string u32
  | CloseWorkspaceNode string u32
  | OpenWorkflowRun string string "string option" "string option" "string option"
  | AdvanceWorkflowRun string string u32
  | CloseWorkflowRun string string u32
  | OpenPtySession string string "string option" "string option"
  | RecordPtyAttach string u32
  | RecordPtyDetach string u32
  | SendPtyInput string string u64
  | ResizePtySession string string u16 u16
  | StopPtySession string string
  | ClosePtySession string u32
  | DeclarePtySessionTemplate string string "string list" "string option" "(string \<times> string) list" u16 u16
  | RetirePtySessionTemplate string u32
  | RequestPtySessionStart string string
  | RegisterDispatchNode string "string option" "string option" string "string option"
  | TransitionDispatchNode string string u32
  | WriteOrchestratorCheckpoint orchestrator_checkpoint
  | RecordRound string u32 round_finding_summary
  | RecordFinding string u32 finding_action string "string option"
  | IngestRecord ingestion_kind json "payload_ref option"

definition command_type :: "kernel_command \<Rightarrow> string" where
  "command_type c = (case c of
       ActivateKernel _ _ \<Rightarrow> ''activate_kernel''
     | CreateTask _ _ _ _ _ _ _ \<Rightarrow> ''create_task''
     | TransitionTask _ _ _ \<Rightarrow> ''transition_task''
     | UpdateBudget _ _ _ \<Rightarrow> ''update_budget''
     | CreateAttempt _ _ _ _ _ _ _ _ _ _ \<Rightarrow> ''create_attempt''
     | TransitionAttempt _ _ _ _ \<Rightarrow> ''transition_attempt''
     | RecordAttemptRuntime _ _ _ _ \<Rightarrow> ''record_attempt_runtime''
     | RecordAttemptOutcome _ _ _ _ _ _ \<Rightarrow> ''record_attempt_outcome''
     | OpenEngineSession _ _ _ _ \<Rightarrow> ''open_engine_session''
     | CloseEngineSession _ \<Rightarrow> ''close_engine_session''
     | SendMessage _ _ _ _ _ _ _ _ _ \<Rightarrow> ''send_message''
     | TransitionMessage _ _ _ _ \<Rightarrow> ''transition_message''
     | IssueCommand _ _ _ _ \<Rightarrow> ''issue_command''
     | TransitionCommand _ _ _ \<Rightarrow> ''transition_command''
     | RecordCommandOutcome _ _ _ \<Rightarrow> ''record_command_outcome''
     | AcquireLease _ _ _ _ _ _ _ _ _ \<Rightarrow> ''acquire_lease''
     | RenewLease _ _ _ \<Rightarrow> ''renew_lease''
     | ReleaseLease _ _ _ \<Rightarrow> ''release_lease''
     | ExpireLease _ _ \<Rightarrow> ''expire_lease''
     | OpenGate _ _ _ _ _ _ \<Rightarrow> ''open_gate''
     | DecideGate _ _ _ _ _ \<Rightarrow> ''decide_gate''
     | GrantAuthority _ _ _ _ _ \<Rightarrow> ''grant_authority''
     | RevokeAuthority _ _ \<Rightarrow> ''revoke_authority''
     | RaiseAttention _ _ _ _ _ _ \<Rightarrow> ''raise_attention''
     | ResolveAttention _ _ \<Rightarrow> ''resolve_attention''
     | AckAttention _ \<Rightarrow> ''ack_attention''
     | MuteAttention _ _ \<Rightarrow> ''mute_attention''
     | UnmuteAttention _ \<Rightarrow> ''unmute_attention''
     | RecordEvidence _ _ _ _ _ \<Rightarrow> ''record_evidence''
     | RecordCostEntry _ _ _ _ _ _ _ _ _ _ _ _ _ \<Rightarrow> ''record_cost_entry''
     | RegisterWorktree _ _ _ _ _ _ \<Rightarrow> ''register_worktree''
     | UpdateWorktree _ _ _ _ \<Rightarrow> ''update_worktree''
     | ReleaseWorktree _ _ \<Rightarrow> ''release_worktree''
     | CreateWorkspaceNode _ _ _ _ \<Rightarrow> ''create_workspace_node''
     | MoveWorkspaceNode _ _ _ \<Rightarrow> ''move_workspace_node''
     | RebindWorkspacePane _ _ _ \<Rightarrow> ''rebind_workspace_pane''
     | CloseWorkspaceNode _ _ \<Rightarrow> ''close_workspace_node''
     | OpenWorkflowRun _ _ _ _ _ \<Rightarrow> ''open_workflow_run''
     | AdvanceWorkflowRun _ _ _ \<Rightarrow> ''advance_workflow_run''
     | CloseWorkflowRun _ _ _ \<Rightarrow> ''close_workflow_run''
     | OpenPtySession _ _ _ _ \<Rightarrow> ''open_pty_session''
     | RecordPtyAttach _ _ \<Rightarrow> ''record_pty_attach''
     | RecordPtyDetach _ _ \<Rightarrow> ''record_pty_detach''
     | SendPtyInput _ _ _ \<Rightarrow> ''send_pty_input''
     | ResizePtySession _ _ _ _ \<Rightarrow> ''resize_pty_session''
     | StopPtySession _ _ \<Rightarrow> ''stop_pty_session''
     | ClosePtySession _ _ \<Rightarrow> ''close_pty_session''
     | DeclarePtySessionTemplate _ _ _ _ _ _ _ \<Rightarrow> ''declare_pty_session_template''
     | RetirePtySessionTemplate _ _ \<Rightarrow> ''retire_pty_session_template''
     | RequestPtySessionStart _ _ \<Rightarrow> ''request_pty_session_start''
     | RegisterDispatchNode _ _ _ _ _ \<Rightarrow> ''register_dispatch_node''
     | TransitionDispatchNode _ _ _ \<Rightarrow> ''transition_dispatch_node''
     | WriteOrchestratorCheckpoint _ \<Rightarrow> ''write_orchestrator_checkpoint''
     | RecordRound _ _ _ \<Rightarrow> ''record_round''
     | RecordFinding _ _ _ _ _ \<Rightarrow> ''record_finding''
     | IngestRecord _ _ _ \<Rightarrow> ''ingest_record'')"

datatype command_decode_error = TypeMismatch string string | MalformedPayload

definition from_envelope ::
  "('p \<Rightarrow> kernel_command option) \<Rightarrow> 'p command_envelope \<Rightarrow> command_decode_error + kernel_command" where
  "from_envelope decode envelope =
     and_then (ok_or MalformedPayload (decode (cmd_payload envelope))) (\<lambda>command.
     and_then (guard_that (cmd_command_type envelope = command_type command)
                 (TypeMismatch (cmd_command_type envelope) (command_type command)))
       (\<lambda>_. Inr command))"

end
