(* ===== verification/Gw_Schema.thy ===== *)
theory Gw_Schema
  imports Gw_Command "HOL-Library.AList"
begin

text \<open>
  The tables of \<open>schema/0001_contract.sql\<close> and \<open>gwk-kernel/migrations\<close> with the constraints
  and triggers that guard them. A table is an association list from primary keys to rows
  (\<open>HOL-Library.AList\<close>); an insert runs the row checks, the primary key and then the foreign keys,
  an update the row triggers and checks, as PostgreSQL orders them. A column that holds the
  wire name of a closed enum holds the enum. Text columns are strings, \<open>jsonb\<close> columns
  the values they encode.
\<close>

type_synonym 'r table = "(string \<times> 'r) list"

section \<open>The transition guard\<close>

definition transition_rows :: "(string \<times> string \<times> string) list" where
  "transition_rows = [
     (''task'', ''submitted'', ''working''), (''task'', ''submitted'', ''canceled''),
     (''task'', ''working'', ''input_required''), (''task'', ''working'', ''completed''),
     (''task'', ''working'', ''failed''), (''task'', ''working'', ''canceled''),
     (''task'', ''input_required'', ''working''), (''task'', ''input_required'', ''canceled''),
     (''attempt'', ''queued'', ''leased''), (''attempt'', ''queued'', ''canceled''),
     (''attempt'', ''leased'', ''starting''), (''attempt'', ''leased'', ''canceled''),
     (''attempt'', ''starting'', ''running''), (''attempt'', ''starting'', ''failed''),
     (''attempt'', ''starting'', ''unknown''), (''attempt'', ''starting'', ''canceling''),
     (''attempt'', ''running'', ''blocked''), (''attempt'', ''running'', ''canceling''),
     (''attempt'', ''running'', ''failed''), (''attempt'', ''running'', ''unknown''),
     (''attempt'', ''running'', ''succeeded''), (''attempt'', ''blocked'', ''running''),
     (''attempt'', ''blocked'', ''canceling''), (''attempt'', ''blocked'', ''failed''),
     (''attempt'', ''blocked'', ''unknown''), (''attempt'', ''canceling'', ''canceled''),
     (''attempt'', ''canceling'', ''unknown''), (''message'', ''accepted'', ''delivered''),
     (''message'', ''accepted'', ''dead_letter''),
     (''message'', ''delivered'', ''acknowledged''),
     (''message'', ''delivered'', ''dead_letter''), (''message'', ''acknowledged'', ''applied''),
     (''message'', ''acknowledged'', ''rejected''),
     (''message'', ''acknowledged'', ''dead_letter''), (''command'', ''issued'', ''targeted''),
     (''command'', ''targeted'', ''signaled''),
     (''command'', ''signaled'', ''verification_complete'')]"

definition assert_transition :: "string \<Rightarrow> string \<times> u32 \<Rightarrow> string \<times> u32 \<Rightarrow> bool" where
  "assert_transition entity old new \<longleftrightarrow>
     (fst new = fst old \<or> List.member transition_rows (entity, fst old, fst new))
     \<and> unat (snd new) = unat (snd old) + 1"

definition assert_initial_state :: "string \<Rightarrow> string \<times> u32 \<Rightarrow> bool" where
  "assert_initial_state initial new \<longleftrightarrow> fst new = initial \<and> snd new = 1"

definition assert_version_cas :: "u32 \<Rightarrow> u32 \<Rightarrow> bool" where
  "assert_version_cas old new \<longleftrightarrow> unat new = unat old + 1"

section \<open>Rows\<close>

record task_row =
  tk_version :: u32
  tk_state :: task_state
  tk_kind :: "string option"
  tk_title :: "string option"
  tk_spec_ref :: "string option"
  tk_project :: "string option"
  tk_priority :: "i32 option"
  tk_tracker_ref :: "string option"
  tk_created_at :: timestamp
  tk_updated_at :: timestamp

record attempt_row =
  at_version :: u32
  at_state :: attempt_state
  at_task_id :: string
  at_engine :: string
  at_capability :: "string option"
  at_role :: "string option"
  at_model_lane :: "string option"
  at_permission_profile :: "string option"
  at_worktree_lease_id :: "string option"
  at_base_sha :: "string option"
  at_budget :: "budget option"
  at_provider_session_ref :: "string option"
  at_runtime_ref :: "string option"
  at_runtime_started_at :: "timestamp option"
  at_exit_code :: "i32 option"
  at_provider_terminal_event :: "string option"
  at_result_valid :: "bool option"
  at_evidence_manifest_ref :: "string option"
  at_created_at :: timestamp
  at_updated_at :: timestamp

record engine_session_row =
  es_attempt_id :: string
  es_engine :: string
  es_provider_session_ref :: "string option"
  es_started_at :: timestamp
  es_ended_at :: "timestamp option"

record message_row =
  ms_version :: u32
  ms_state :: message_state
  ms_idempotency_key :: string
  ms_correlation_id :: "string option"
  ms_reply_to :: "string option"
  ms_sender :: "string option"
  ms_recipient :: "string option"
  ms_channel :: "string option"
  ms_kind :: "string option"
  ms_payload :: "json option"
  ms_deadline :: "timestamp option"
  ms_delivery_attempts :: int
  ms_dead_letter_reason :: "string option"
  ms_delivery_refs :: "json option"
  ms_created_at :: timestamp
  ms_updated_at :: timestamp

record command_row =
  cm_version :: u32
  cm_state :: command_state
  cm_kind :: string
  cm_target :: "string option"
  cm_actor :: "actor option"
  cm_idempotency_key :: "string option"
  cm_outcome :: "outcome option"
  cm_created_at :: timestamp
  cm_updated_at :: timestamp

record gate_row =
  ga_version :: u32
  ga_attempt_id :: "string option"
  ga_phase_ref :: "string option"
  ga_kind :: "string option"
  ga_question :: "string option"
  ga_options :: "string list option"
  ga_verdict :: gate_verdict
  ga_chosen_option :: "string option"
  ga_decided_by :: "actor option"
  ga_evidence_ref :: "string option"
  ga_created_at :: timestamp
  ga_updated_at :: timestamp

record authority_grant_row =
  au_grantee :: actor
  au_action_class :: string
  au_scope :: "string option"
  au_granted_at :: timestamp
  au_expires_at :: "timestamp option"
  au_revoked_at :: "timestamp option"
  au_revoke_reason :: "string option"
  au_receipt_id :: "string option"

record receipt_row =
  rc_actor :: actor
  rc_action :: string
  rc_subject_type :: string
  rc_subject_id :: string
  rc_from :: "string option"
  rc_to :: "string option"
  rc_observed_basis :: "string option"
  rc_ts :: timestamp

record evidence_row =
  ev_kind :: string
  ev_ref :: string
  ev_digest :: "string option"
  ev_byte_size :: "u64 option"
  ev_created_at :: timestamp

record cost_entry_row =
  co_attempt_id :: "string option"
  co_engine_session_id :: "string option"
  co_dispatch_node_id :: "string option"
  co_engine :: string
  co_model :: "string option"
  co_input_tokens :: "u64 option"
  co_cached_input_tokens :: "u64 option"
  co_cache_write_tokens :: "u64 option"
  co_output_tokens :: "u64 option"
  co_reasoning_tokens :: "u64 option"
  co_cost_micros :: "u64 option"
  co_cost_is_estimate :: "bool option"
  co_recorded_at :: timestamp

record attention_item_row =
  an_kind :: string
  an_summary :: string
  an_subject_ref :: "string option"
  an_raised_by :: "actor option"
  an_priority :: "i32 option"
  an_raised_at :: timestamp
  an_acked_at :: "timestamp option"
  an_muted_until :: "timestamp option"
  an_resolved_at :: "timestamp option"
  an_resolution :: "string option"

record worktree_row =
  wt_repo :: string
  wt_path :: string
  wt_branch :: string
  wt_base_sha :: "string option"
  wt_lease_id :: "string option"
  wt_dirty :: bool
  wt_unpushed :: bool
  wt_released_at :: "timestamp option"
  wt_disposition :: "string option"
  wt_created_at :: timestamp

record workspace_node_row =
  wn_version :: u32
  wn_kind :: workspace_node_kind
  wn_parent_id :: "string option"
  wn_session_id :: "string option"
  wn_created_at :: timestamp
  wn_updated_at :: timestamp

record workflow_run_row =
  wf_version :: u32
  wf_state :: string
  wf_step :: "string option"
  wf_template_ref :: string
  wf_template_sha256 :: "string option"
  wf_task_id :: "string option"
  wf_title :: "string option"
  wf_opened_at :: timestamp
  wf_updated_at :: timestamp
  wf_closed_at :: "timestamp option"

record pty_session_row =
  ps_version :: u32
  ps_state :: string
  ps_generation :: string
  ps_engine_session_id :: "string option"
  ps_attach_count :: int
  ps_detach_count :: int
  ps_title :: "string option"
  ps_opened_at :: timestamp
  ps_updated_at :: timestamp
  ps_closed_at :: "timestamp option"

record pty_template_row =
  pt_version :: u32
  pt_state :: string
  pt_command :: string
  pt_args :: "string list"
  pt_cwd :: "string option"
  pt_env :: "(string \<times> string) list"
  pt_cols :: u16
  pt_rows :: u16
  pt_declared_at :: timestamp
  pt_updated_at :: timestamp
  pt_retired_at :: "timestamp option"

record lease_row =
  le_version :: u32
  le_state :: lease_state
  le_mode :: lease_mode
  le_holder :: "string option"
  le_scope :: "string option"
  le_repo :: "string option"
  le_path :: "string option"
  le_branch :: "string option"
  le_base_sha :: "string option"
  le_fence_token :: "u64 option"
  le_heartbeat_at :: "timestamp option"
  le_expires_at :: "timestamp option"
  le_dirty :: bool
  le_unpushed :: bool
  le_disposition :: "string option"
  le_created_at :: timestamp
  le_updated_at :: timestamp

record dispatch_node_row =
  dn_version :: u32
  dn_parent_id :: "string option"
  dn_attempt_id :: "string option"
  dn_kind :: string
  dn_state :: string
  dn_label :: "string option"
  dn_created_at :: timestamp
  dn_updated_at :: timestamp

record checkpoint_row =
  oc_body :: orchestrator_checkpoint
  oc_updated_at :: timestamp

record ingested_record_row =
  ir_kind :: ingestion_kind
  ir_payload :: json
  ir_payload_ref :: "payload_ref option"
  ir_ingested_by :: "actor option"
  ir_event_seq :: u64
  ir_ingested_at :: timestamp

record pty_delivery_row =
  pd_project_id :: string
  pd_idempotency_key :: string
  pd_command_id :: string
  pd_event_id :: string
  pd_event_seq :: u64
  pd_input_binding :: "string option"

section \<open>The database\<close>

record 'p db = "'p pg_state" +
  t_task :: "task_row table"
  t_attempt :: "attempt_row table"
  t_engine_session :: "engine_session_row table"
  t_message :: "message_row table"
  t_command :: "command_row table"
  t_gate :: "gate_row table"
  t_authority_grant :: "authority_grant_row table"
  t_receipt :: "receipt_row table"
  t_evidence :: "evidence_row table"
  t_cost_entry :: "cost_entry_row table"
  t_attention_item :: "attention_item_row table"
  t_worktree :: "worktree_row table"
  t_workspace_node :: "workspace_node_row table"
  t_workflow_run :: "workflow_run_row table"
  t_pty_session :: "pty_session_row table"
  t_pty_template :: "pty_template_row table"
  t_lease :: "lease_row table"
  t_dispatch_node :: "dispatch_node_row table"
  t_checkpoint :: "checkpoint_row table"
  t_ingested_record :: "ingested_record_row table"
  t_pty_delivery :: "pty_delivery_row list"

section \<open>Statements\<close>

definition sql :: "('p, 'm) store_env_scheme \<Rightarrow> string \<Rightarrow> refusal + unit" where
  "sql env context = guard_that (\<not> se_fails env context) storage_failed"

definition references :: "'r table \<Rightarrow> string option \<Rightarrow> bool" where
  "references t r = (case r of None \<Rightarrow> True | Some i \<Rightarrow> map_of t i \<noteq> None)"

definition insert_row ::
  "('p, 'm) store_env_scheme \<Rightarrow> string \<Rightarrow> bool \<Rightarrow> bool \<Rightarrow> string \<Rightarrow> 'r \<Rightarrow> 'r table
     \<Rightarrow> refusal + 'r table" where
  "insert_row env context checks foreign_keys i row t =
     and_then (sql env context) (\<lambda>_.
     and_then (guard_that (checks \<and> map_of t i = None) storage_failed) (\<lambda>_.
     and_then (guard_that foreign_keys not_found) (\<lambda>_. Inr (AList.update i row t))))"

definition update_row ::
  "('p, 'm) store_env_scheme \<Rightarrow> string \<Rightarrow> ('r \<Rightarrow> 'r \<Rightarrow> bool) \<Rightarrow> string \<Rightarrow> ('r \<Rightarrow> 'r) \<Rightarrow> 'r table
     \<Rightarrow> refusal + 'r table" where
  "update_row env context allowed i change t =
     and_then (sql env context) (\<lambda>_.
     and_then (ok_or not_found (map_of t i)) (\<lambda>row.
     and_then (guard_that (allowed row (change row)) storage_failed) (\<lambda>_.
       Inr (AList.update i (change row) t))))"

definition coalesce :: "'a option \<Rightarrow> 'a option \<Rightarrow> 'a option" where
  "coalesce new old = (case new of None \<Rightarrow> old | Some x \<Rightarrow> Some x)"

lemma insert_row_Inr:
  "insert_row env ctx ck fk i row t = Inr t' \<longleftrightarrow>
     \<not> se_fails env ctx \<and> ck \<and> map_of t i = None \<and> fk \<and> t' = AList.update i row t"
  by (auto simp: insert_row_def sql_def result_simps)

lemma update_row_Inr:
  "update_row env ctx ok i f t = Inr t' \<longleftrightarrow>
     \<not> se_fails env ctx \<and> (\<exists>row. map_of t i = Some row \<and> ok row (f row) \<and> t' = AList.update i (f row) t)"
  by (auto simp: update_row_def sql_def result_simps)

lemmas statement_simps = insert_row_Inr update_row_Inr

lemma map_of_update [simp]: "map_of (AList.update i r t) j = (if j = i then Some r else map_of t j)"
  by (simp add: update_conv')

lemma map_of_delete [simp]: "map_of (AList.delete i t) j = (if j = i then None else map_of t j)"
  by (simp add: delete_conv')

section \<open>Row checks\<close>

definition command_row_check :: "command_row \<Rightarrow> bool" where
  "command_row_check r \<longleftrightarrow> (cm_state r = Command_VerificationComplete) = (cm_outcome r \<noteq> None)"

definition gate_row_check :: "gate_row \<Rightarrow> bool" where
  "gate_row_check r \<longleftrightarrow> (ga_verdict r = Gate_Pending) = (ga_decided_by r = None)"

definition workflow_run_check :: "workflow_run_row \<Rightarrow> bool" where
  "workflow_run_check r \<longleftrightarrow>
     (wf_state r = ''running'') = (wf_closed_at r = None)
     \<and> (case wf_template_sha256 r of None \<Rightarrow> True | Some d \<Rightarrow> is_sha256_hex d)"

definition pty_session_check :: "pty_session_row \<Rightarrow> bool" where
  "pty_session_check r \<longleftrightarrow>
     (ps_state r = ''running'' \<or> ps_state r = ''stopping'' \<or> ps_state r = ''closed'')
     \<and> 0 \<le> ps_attach_count r \<and> 0 \<le> ps_detach_count r
     \<and> (ps_state r = ''closed'') = (ps_closed_at r \<noteq> None)"

definition pty_template_check :: "pty_template_row \<Rightarrow> bool" where
  "pty_template_check r \<longleftrightarrow>
     1 \<le> char_count (pt_command r) \<and> char_count (pt_command r) \<le> 4096
     \<and> (pt_state r = ''active'' \<or> pt_state r = ''retired'')
     \<and> (pt_state r = ''active'') = (pt_retired_at r = None)
     \<and> 1 \<le> pt_cols r \<and> pt_cols r \<le> 1000 \<and> 1 \<le> pt_rows r \<and> pt_rows r \<le> 1000
     \<and> unat (pt_cols r) * unat (pt_rows r) \<le> 100000"

definition cost_entry_check :: "cost_entry_row \<Rightarrow> bool" where
  "cost_entry_check r \<longleftrightarrow>
     (co_attempt_id r \<noteq> None \<or> co_engine_session_id r \<noteq> None \<or> co_dispatch_node_id r \<noteq> None)
     \<and> (co_cost_is_estimate r = None \<or> co_cost_micros r \<noteq> None)"

definition workspace_node_check :: "workspace_node_row \<Rightarrow> bool" where
  "workspace_node_check r \<longleftrightarrow> wn_kind r = Node_Pane \<or> wn_session_id r = None"

definition assert_workspace_parentage ::
  "workspace_node_row table \<Rightarrow> string \<Rightarrow> workspace_node_row \<Rightarrow> bool" where
  "assert_workspace_parentage t i new =
     (case wn_parent_id new of
        None \<Rightarrow> wn_kind new = Node_Workspace
      | Some p \<Rightarrow>
          wn_kind new \<noteq> Node_Workspace \<and> p \<noteq> i
          \<and> (case map_of t p of
               None \<Rightarrow> True
             | Some parent \<Rightarrow>
                 (wn_kind new = Node_Tab \<longrightarrow> wn_kind parent = Node_Workspace)
                 \<and> (wn_kind new = Node_Pane \<longrightarrow> wn_kind parent \<noteq> Node_Workspace)))"

definition assert_lease_guard :: "lease_row \<Rightarrow> lease_row \<Rightarrow> bool" where
  "assert_lease_guard old new \<longleftrightarrow>
     assert_version_cas (le_version old) (le_version new)
     \<and> (case le_fence_token old of
          None \<Rightarrow> True
        | Some f \<Rightarrow> (case le_fence_token new of None \<Rightarrow> False | Some g \<Rightarrow> f \<le> g))"

definition attention_dedup :: "attention_item_row table \<Rightarrow> string \<Rightarrow> string option \<Rightarrow> bool" where
  "attention_dedup t kind subject =
     (case subject of
        None \<Rightarrow> True
      | Some s \<Rightarrow> list_all (\<lambda>(_, r). \<not> (an_kind r = kind \<and> an_subject_ref r = Some s
                                     \<and> an_resolved_at r = None)) t)"

end
