(* ===== verification/Gw_Project.thy ===== *)
theory Gw_Project
  imports Gw_Schema
begin

text \<open>
  The projector (\<open>gwk-kernel/src/project.rs\<close>): the statements an appended event runs against the
  tables. There is one definition per arm of \<open>apply_event\<close>, named after the command, with the
  arm's bindings as arguments, and \<open>apply_command\<close> is the match over the command. \<open>v\<close> is the
  event's aggregate version and \<open>at\<close> its \<open>appended_at\<close>, the two values the arms share.
\<close>

type_synonym ('p, 'm) env = "('p, 'm) store_env_scheme"

section \<open>Tasks and attempts\<close>

definition task_guard :: "task_row \<Rightarrow> task_row \<Rightarrow> bool" where
  "task_guard old new =
     assert_transition ''task'' (task_state_str (tk_state old), tk_version old)
       (task_state_str (tk_state new), tk_version new)"

definition attempt_row_guard :: "attempt_row \<Rightarrow> attempt_row \<Rightarrow> bool" where
  "attempt_row_guard old new =
     assert_transition ''attempt'' (attempt_state_str (at_state old), at_version old)
       (attempt_state_str (at_state new), at_version new)"

definition project_create_task where
  "project_create_task env v at task_id kind title spec_ref project priority tracker_ref db =
     and_then (insert_row env ''insert task'' (assert_initial_state ''submitted'' (''submitted'', v)) True
       task_id
       \<lparr>tk_version = v, tk_state = Task_Submitted, tk_kind = kind, tk_title = title,
        tk_spec_ref = spec_ref, tk_project = project, tk_priority = priority,
        tk_tracker_ref = tracker_ref, tk_created_at = at, tk_updated_at = at\<rparr> (t_task db))
     (\<lambda>t. Inr (db\<lparr>t_task := t\<rparr>))"

definition project_transition_task where
  "project_transition_task env v at task_id to db =
     and_then (update_row env ''transition task'' task_guard task_id
       (\<lambda>r. r\<lparr>tk_state := to, tk_version := v, tk_updated_at := at\<rparr>) (t_task db))
     (\<lambda>t. Inr (db\<lparr>t_task := t\<rparr>))"

definition project_create_attempt where
  "project_create_attempt env v at attempt_id task_id engine capability role model_lane
     permission_profile worktree_lease_id base_sha budget db =
     and_then (insert_row env ''insert attempt'' (assert_initial_state ''queued'' (''queued'', v))
       (references (t_task db) (Some task_id) \<and> references (t_lease db) worktree_lease_id)
       attempt_id
       \<lparr>at_version = v, at_state = Attempt_Queued, at_task_id = task_id, at_engine = engine,
        at_capability = capability, at_role = role, at_model_lane = model_lane,
        at_permission_profile = permission_profile, at_worktree_lease_id = worktree_lease_id,
        at_base_sha = base_sha, at_budget = budget, at_provider_session_ref = None,
        at_runtime_ref = None, at_runtime_started_at = None, at_exit_code = None,
        at_provider_terminal_event = None, at_result_valid = None,
        at_evidence_manifest_ref = None, at_created_at = at, at_updated_at = at\<rparr> (t_attempt db))
     (\<lambda>t. Inr (db\<lparr>t_attempt := t\<rparr>))"

definition update_attempt where
  "update_attempt env context v at attempt_id change db =
     and_then (update_row env context attempt_row_guard attempt_id
       (\<lambda>r. (change r)\<lparr>at_version := v, at_updated_at := at\<rparr>) (t_attempt db))
     (\<lambda>t. Inr (db\<lparr>t_attempt := t\<rparr>))"

definition project_transition_attempt where
  "project_transition_attempt env v at attempt_id to db =
     update_attempt env ''transition attempt'' v at attempt_id (\<lambda>r. r\<lparr>at_state := to\<rparr>) db"

definition project_update_budget where
  "project_update_budget env v at attempt_id budget db =
     update_attempt env ''update budget'' v at attempt_id (\<lambda>r. r\<lparr>at_budget := Some budget\<rparr>) db"

definition project_record_attempt_runtime where
  "project_record_attempt_runtime env v at attempt_id runtime_ref runtime_started_at db =
     update_attempt env ''record attempt runtime'' v at attempt_id
       (\<lambda>r. r\<lparr>at_runtime_ref := Some runtime_ref,
             at_runtime_started_at := Some (se_timestamptz env runtime_started_at)\<rparr>) db"

definition project_record_attempt_outcome where
  "project_record_attempt_outcome env v at attempt_id exit_code provider_terminal_event result_valid
     evidence_manifest_ref db =
     update_attempt env ''record attempt outcome'' v at attempt_id
       (\<lambda>r. r\<lparr>at_exit_code := coalesce exit_code (at_exit_code r),
             at_provider_terminal_event :=
               coalesce provider_terminal_event (at_provider_terminal_event r),
             at_result_valid := coalesce result_valid (at_result_valid r),
             at_evidence_manifest_ref :=
               coalesce evidence_manifest_ref (at_evidence_manifest_ref r)\<rparr>) db"

definition project_advance_attempt where
  "project_advance_attempt env v at attempt_id db =
     update_attempt env ''advance attempt'' v at attempt_id (\<lambda>r. r) db"

section \<open>Engine sessions, leases and worktrees\<close>

definition project_open_engine_session where
  "project_open_engine_session env v at engine_session_id attempt_id engine provider_session_ref db =
     and_then (insert_row env ''open engine session'' True
       (references (t_attempt db) (Some attempt_id)) engine_session_id
       \<lparr>es_attempt_id = attempt_id, es_engine = engine,
        es_provider_session_ref = provider_session_ref, es_started_at = at, es_ended_at = None\<rparr>
       (t_engine_session db))
     (\<lambda>t. Inr (db\<lparr>t_engine_session := t\<rparr>))"

definition project_close_engine_session where
  "project_close_engine_session env v at engine_session_id db =
     and_then (update_row env ''close engine session'' (\<lambda>_ _. True) engine_session_id
       (\<lambda>r. r\<lparr>es_ended_at := Some at\<rparr>) (t_engine_session db))
     (\<lambda>t. Inr (db\<lparr>t_engine_session := t\<rparr>))"

definition project_acquire_lease where
  "project_acquire_lease env v at lease_id mode holder scope repo path branch base_sha expires_at db =
     and_then (insert_row env ''acquire lease'' (1 \<le> v) True lease_id
       \<lparr>le_version = v, le_state = Lease_Held, le_mode = mode, le_holder = holder, le_scope = scope,
        le_repo = repo, le_path = path, le_branch = branch, le_base_sha = base_sha,
        le_fence_token = None, le_heartbeat_at = None,
        le_expires_at = map_option (se_timestamptz env) expires_at, le_dirty = False,
        le_unpushed = False, le_disposition = None, le_created_at = at, le_updated_at = at\<rparr>
       (t_lease db))
     (\<lambda>t. Inr (db\<lparr>t_lease := t\<rparr>))"

definition update_lease where
  "update_lease env context v at lease_id change db =
     and_then (update_row env context assert_lease_guard lease_id
       (\<lambda>r. (change r)\<lparr>le_version := v, le_updated_at := at\<rparr>) (t_lease db))
     (\<lambda>t. Inr (db\<lparr>t_lease := t\<rparr>))"

definition project_renew_lease where
  "project_renew_lease env v at lease_id expires_at db =
     update_lease env ''renew lease'' v at lease_id
       (\<lambda>r. r\<lparr>le_expires_at := coalesce (map_option (se_timestamptz env) expires_at) (le_expires_at r),
             le_heartbeat_at := Some at\<rparr>) db"

definition project_release_lease where
  "project_release_lease env v at lease_id disposition db =
     update_lease env ''release lease'' v at lease_id
       (\<lambda>r. r\<lparr>le_state := Lease_Released, le_disposition := coalesce disposition (le_disposition r)\<rparr>) db"

definition project_expire_lease where
  "project_expire_lease env v at lease_id db =
     update_lease env ''expire lease'' v at lease_id (\<lambda>r. r\<lparr>le_state := Lease_Expired\<rparr>) db"

definition project_register_worktree where
  "project_register_worktree env v at worktree_id repo path branch base_sha lease_id db =
     and_then (insert_row env ''register worktree'' True (references (t_lease db) lease_id) worktree_id
       \<lparr>wt_repo = repo, wt_path = path, wt_branch = branch, wt_base_sha = base_sha,
        wt_lease_id = lease_id, wt_dirty = False, wt_unpushed = False, wt_released_at = None,
        wt_disposition = None, wt_created_at = at\<rparr> (t_worktree db))
     (\<lambda>t. Inr (db\<lparr>t_worktree := t\<rparr>))"

definition project_update_worktree where
  "project_update_worktree env v at worktree_id dirty unpushed base_sha db =
     and_then (update_row env ''update worktree'' (\<lambda>_ _. True) worktree_id
       (\<lambda>r. r\<lparr>wt_dirty := dirty, wt_unpushed := unpushed,
             wt_base_sha := coalesce base_sha (wt_base_sha r)\<rparr>) (t_worktree db))
     (\<lambda>t. Inr (db\<lparr>t_worktree := t\<rparr>))"

definition project_release_worktree where
  "project_release_worktree env v at worktree_id disposition db =
     and_then (update_row env ''release worktree'' (\<lambda>_ _. True) worktree_id
       (\<lambda>r. r\<lparr>wt_released_at := Some at, wt_disposition := coalesce disposition (wt_disposition r)\<rparr>)
       (t_worktree db))
     (\<lambda>t. Inr (db\<lparr>t_worktree := t\<rparr>))"

section \<open>Dispatch nodes and checkpoints\<close>

definition DISPATCH_NODE_INITIAL_STATE :: string where
  "DISPATCH_NODE_INITIAL_STATE = ''registered''"

definition project_register_dispatch_node where
  "project_register_dispatch_node env v at dispatch_node_id parent_id attempt_id kind label db =
     (let row = \<lparr>dn_version = v, dn_parent_id = parent_id, dn_attempt_id = attempt_id, dn_kind = kind,
                 dn_state = DISPATCH_NODE_INITIAL_STATE, dn_label = label, dn_created_at = at,
                 dn_updated_at = at\<rparr> in
      and_then (insert_row env ''register dispatch node'' (1 \<le> v)
        (references (AList.update dispatch_node_id row (t_dispatch_node db)) parent_id
         \<and> references (t_attempt db) attempt_id)
        dispatch_node_id row (t_dispatch_node db))
      (\<lambda>t. Inr (db\<lparr>t_dispatch_node := t\<rparr>)))"

definition project_transition_dispatch_node where
  "project_transition_dispatch_node env v at dispatch_node_id to db =
     and_then (update_row env ''transition dispatch node''
       (\<lambda>old new. assert_version_cas (dn_version old) (dn_version new)) dispatch_node_id
       (\<lambda>r. r\<lparr>dn_state := to, dn_version := v, dn_updated_at := at\<rparr>) (t_dispatch_node db))
     (\<lambda>t. Inr (db\<lparr>t_dispatch_node := t\<rparr>))"

text \<open>An insert that on conflict updates the row, whose update trigger wants the sequence to advance.\<close>

definition project_write_checkpoint where
  "project_write_checkpoint env v at checkpoint db =
     and_then (ok_or validation (oc_orchestrator_id checkpoint)) (\<lambda>orchestrator_id.
     and_then (sql env ''write orchestrator checkpoint'') (\<lambda>_.
     and_then (guard_that
        (case map_of (t_checkpoint db) orchestrator_id of
           None \<Rightarrow> True | Some old \<Rightarrow> oc_seq (oc_body old) < oc_seq checkpoint)
        storage_failed) (\<lambda>_.
       Inr (db\<lparr>t_checkpoint := AList.update orchestrator_id
                 \<lparr>oc_body = checkpoint, oc_updated_at = at\<rparr> (t_checkpoint db)\<rparr>))))"

section \<open>Messages, commands and gates\<close>

definition message_guard :: "message_row \<Rightarrow> message_row \<Rightarrow> bool" where
  "message_guard old new =
     assert_transition ''message'' (message_state_str (ms_state old), ms_version old)
       (message_state_str (ms_state new), ms_version new)"

definition command_guard :: "command_row \<Rightarrow> command_row \<Rightarrow> bool" where
  "command_guard old new \<longleftrightarrow>
     assert_transition ''command'' (command_state_str (cm_state old), cm_version old)
       (command_state_str (cm_state new), cm_version new)
     \<and> command_row_check new"

definition project_send_message where
  "project_send_message env v at event_key message_id correlation reply_to sender recipient channel
     kind body deadline db =
     and_then (ok_or validation event_key) (\<lambda>key.
     let row = \<lparr>ms_version = v, ms_state = Message_Accepted, ms_idempotency_key = key,
                ms_correlation_id = correlation, ms_reply_to = reply_to, ms_sender = sender,
                ms_recipient = recipient, ms_channel = channel, ms_kind = kind, ms_payload = body,
                ms_deadline = map_option (se_timestamptz env) deadline, ms_delivery_attempts = 0,
                ms_dead_letter_reason = None, ms_delivery_refs = None, ms_created_at = at,
                ms_updated_at = at\<rparr> in
     and_then (insert_row env ''insert message''
       (assert_initial_state ''accepted'' (''accepted'', v)
        \<and> list_all (\<lambda>(_, r). ms_idempotency_key r \<noteq> key) (t_message db))
       (references (AList.update message_id row (t_message db)) reply_to) message_id row (t_message db))
     (\<lambda>t. Inr (db\<lparr>t_message := t\<rparr>)))"

definition project_transition_message where
  "project_transition_message env v at message_id to dead_letter_reason db =
     and_then (update_row env ''transition message'' message_guard message_id
       (\<lambda>r. r\<lparr>ms_state := to, ms_version := v, ms_updated_at := at,
             ms_dead_letter_reason := coalesce dead_letter_reason (ms_dead_letter_reason r)\<rparr>)
       (t_message db))
     (\<lambda>t. Inr (db\<lparr>t_message := t\<rparr>))"

definition project_issue_command where
  "project_issue_command env v at event_key command_id kind targets issuer db =
     (let row = \<lparr>cm_version = v, cm_state = Command_Issued, cm_kind = kind,
                 cm_target = (case targets of [] \<Rightarrow> None | x # _ \<Rightarrow> Some x), cm_actor = issuer,
                 cm_idempotency_key = event_key, cm_outcome = None, cm_created_at = at,
                 cm_updated_at = at\<rparr> in
      and_then (insert_row env ''insert command''
        (assert_initial_state ''issued'' (''issued'', v) \<and> command_row_check row
         \<and> (event_key = None \<or> list_all (\<lambda>(_, r). cm_idempotency_key r \<noteq> event_key) (t_command db)))
        True command_id row (t_command db))
      (\<lambda>t. Inr (db\<lparr>t_command := t\<rparr>)))"

definition project_transition_command where
  "project_transition_command env v at command_id to db =
     and_then (update_row env ''transition command'' command_guard command_id
       (\<lambda>r. r\<lparr>cm_state := to, cm_version := v, cm_updated_at := at\<rparr>) (t_command db))
     (\<lambda>t. Inr (db\<lparr>t_command := t\<rparr>))"

definition project_record_command_outcome where
  "project_record_command_outcome env v at command_id result db =
     and_then (update_row env ''record command outcome'' command_guard command_id
       (\<lambda>r. r\<lparr>cm_state := Command_VerificationComplete, cm_outcome := Some result, cm_version := v,
             cm_updated_at := at\<rparr>) (t_command db))
     (\<lambda>t. Inr (db\<lparr>t_command := t\<rparr>))"

definition project_open_gate where
  "project_open_gate env v at gate_id attempt_id phase_ref kind question options db =
     (let row = \<lparr>ga_version = v, ga_attempt_id = attempt_id, ga_phase_ref = phase_ref, ga_kind = kind,
                 ga_question = question, ga_options = options, ga_verdict = Gate_Pending,
                 ga_chosen_option = None, ga_decided_by = None, ga_evidence_ref = None,
                 ga_created_at = at, ga_updated_at = at\<rparr> in
      and_then (insert_row env ''insert gate'' (1 \<le> v \<and> gate_row_check row)
        (references (t_attempt db) attempt_id) gate_id row (t_gate db))
      (\<lambda>t. Inr (db\<lparr>t_gate := t\<rparr>)))"

definition project_decide_gate where
  "project_decide_gate env v at event_actor gate_id verdict chosen_option evidence_ref db =
     and_then (update_row env ''decide gate'' (\<lambda>_ new. 1 \<le> ga_version new \<and> gate_row_check new) gate_id
       (\<lambda>r. r\<lparr>ga_verdict := verdict, ga_chosen_option := chosen_option,
             ga_decided_by := (if verdict = Gate_Pending then None else Some event_actor),
             ga_version := v, ga_updated_at := at,
             ga_evidence_ref := coalesce evidence_ref (ga_evidence_ref r)\<rparr>) (t_gate db))
     (\<lambda>t. Inr (db\<lparr>t_gate := t\<rparr>))"

section \<open>Evidence, cost and authority\<close>

definition project_record_evidence where
  "project_record_evidence env v at evidence_id kind reference digest byte_size db =
     and_then (insert_row env ''insert evidence'' True True evidence_id
       \<lparr>ev_kind = kind, ev_ref = reference, ev_digest = digest, ev_byte_size = byte_size,
        ev_created_at = at\<rparr> (t_evidence db))
     (\<lambda>t. Inr (db\<lparr>t_evidence := t\<rparr>))"

definition project_record_cost_entry where
  "project_record_cost_entry env v at cost_entry_id attempt_id engine_session_id dispatch_node_id engine
     model input_tokens cached_input_tokens cache_write_tokens output_tokens reasoning_tokens
     cost_micros cost_is_estimate db =
     (let row = \<lparr>co_attempt_id = attempt_id, co_engine_session_id = engine_session_id,
                 co_dispatch_node_id = dispatch_node_id, co_engine = engine, co_model = model,
                 co_input_tokens = input_tokens, co_cached_input_tokens = cached_input_tokens,
                 co_cache_write_tokens = cache_write_tokens, co_output_tokens = output_tokens,
                 co_reasoning_tokens = reasoning_tokens, co_cost_micros = cost_micros,
                 co_cost_is_estimate = cost_is_estimate, co_recorded_at = at\<rparr> in
      and_then (insert_row env ''insert cost entry'' (cost_entry_check row)
        (references (t_attempt db) attempt_id \<and> references (t_engine_session db) engine_session_id
         \<and> references (t_dispatch_node db) dispatch_node_id) cost_entry_id row (t_cost_entry db))
      (\<lambda>t. Inr (db\<lparr>t_cost_entry := t\<rparr>)))"

definition project_grant_authority where
  "project_grant_authority env v at authority_grant_id grantee action_class scope expires_at db =
     and_then (insert_row env ''insert authority grant'' True True authority_grant_id
       \<lparr>au_grantee = grantee, au_action_class = action_class, au_scope = scope, au_granted_at = at,
        au_expires_at = map_option (se_timestamptz env) expires_at, au_revoked_at = None,
        au_revoke_reason = None, au_receipt_id = None\<rparr> (t_authority_grant db))
     (\<lambda>t. Inr (db\<lparr>t_authority_grant := t\<rparr>))"

definition project_revoke_authority where
  "project_revoke_authority env v at authority_grant_id reason db =
     and_then (update_row env ''revoke authority grant'' (\<lambda>_ _. True) authority_grant_id
       (\<lambda>r. r\<lparr>au_revoked_at := Some at, au_revoke_reason := coalesce reason (au_revoke_reason r)\<rparr>)
       (t_authority_grant db))
     (\<lambda>t. Inr (db\<lparr>t_authority_grant := t\<rparr>))"

section \<open>Attention\<close>

definition project_raise_attention where
  "project_raise_attention env v at attention_item_id kind summary subject_ref raised_by priority db =
     and_then (insert_row env ''insert attention item''
       (attention_dedup (t_attention_item db) kind subject_ref) True attention_item_id
       \<lparr>an_kind = kind, an_summary = summary, an_subject_ref = subject_ref, an_raised_by = raised_by,
        an_priority = priority, an_raised_at = at, an_acked_at = None, an_muted_until = None,
        an_resolved_at = None, an_resolution = None\<rparr> (t_attention_item db))
     (\<lambda>t. Inr (db\<lparr>t_attention_item := t\<rparr>))"

definition project_resolve_attention where
  "project_resolve_attention env v at attention_item_id resolution db =
     and_then (sql env ''resolve attention item'') (\<lambda>_.
     case map_of (t_attention_item db) attention_item_id of
       None \<Rightarrow> Inl not_found
     | Some r \<Rightarrow>
         if an_resolved_at r \<noteq> None then Inl not_found
         else Inr (db\<lparr>t_attention_item := AList.update attention_item_id
                (r\<lparr>an_resolved_at := Some at, an_resolution := coalesce resolution (an_resolution r)\<rparr>)
                (t_attention_item db)\<rparr>))"

definition update_attention where
  "update_attention env context attention_item_id change db =
     and_then (update_row env context (\<lambda>_ _. True) attention_item_id change (t_attention_item db))
     (\<lambda>t. Inr (db\<lparr>t_attention_item := t\<rparr>))"

definition project_ack_attention where
  "project_ack_attention env v at attention_item_id db =
     update_attention env ''ack attention item'' attention_item_id (\<lambda>r. r\<lparr>an_acked_at := Some at\<rparr>) db"

definition project_mute_attention where
  "project_mute_attention env v at attention_item_id muted_until db =
     update_attention env ''mute attention item'' attention_item_id
       (\<lambda>r. r\<lparr>an_muted_until := Some (se_timestamptz env muted_until)\<rparr>) db"

definition project_unmute_attention where
  "project_unmute_attention env v at attention_item_id db =
     update_attention env ''unmute attention item'' attention_item_id
       (\<lambda>r. r\<lparr>an_muted_until := None\<rparr>) db"

section \<open>The workspace tree\<close>

definition workspace_node_guard ::
  "workspace_node_row table \<Rightarrow> string \<Rightarrow> workspace_node_row \<Rightarrow> workspace_node_row \<Rightarrow> bool" where
  "workspace_node_guard t i old new \<longleftrightarrow>
     assert_version_cas (wn_version old) (wn_version new)
     \<and> assert_workspace_parentage t i new \<and> workspace_node_check new"

definition project_create_workspace_node where
  "project_create_workspace_node env v at workspace_node_id kind parent_id session_id db =
     (let row = \<lparr>wn_version = v, wn_kind = kind, wn_parent_id = parent_id, wn_session_id = session_id,
                 wn_created_at = at, wn_updated_at = at\<rparr> in
      and_then (insert_row env ''create workspace node''
        (1 \<le> v \<and> assert_workspace_parentage (t_workspace_node db) workspace_node_id row
         \<and> workspace_node_check row)
        (references (AList.update workspace_node_id row (t_workspace_node db)) parent_id)
        workspace_node_id row (t_workspace_node db))
      (\<lambda>t. Inr (db\<lparr>t_workspace_node := t\<rparr>)))"

definition project_move_workspace_node where
  "project_move_workspace_node env v at workspace_node_id parent_id db =
     and_then (update_row env ''move workspace node''
       (workspace_node_guard (t_workspace_node db) workspace_node_id) workspace_node_id
       (\<lambda>r. r\<lparr>wn_parent_id := Some parent_id, wn_version := v, wn_updated_at := at\<rparr>)
       (t_workspace_node db)) (\<lambda>t.
     and_then (guard_that (references (t_workspace_node db) (Some parent_id)) not_found)
     (\<lambda>_. Inr (db\<lparr>t_workspace_node := t\<rparr>)))"

definition project_rebind_workspace_pane where
  "project_rebind_workspace_pane env v at workspace_node_id session_id db =
     and_then (update_row env ''rebind workspace pane''
       (workspace_node_guard (t_workspace_node db) workspace_node_id) workspace_node_id
       (\<lambda>r. r\<lparr>wn_session_id := Some session_id, wn_version := v, wn_updated_at := at\<rparr>)
       (t_workspace_node db))
     (\<lambda>t. Inr (db\<lparr>t_workspace_node := t\<rparr>))"

definition has_children :: "workspace_node_row table \<Rightarrow> string \<Rightarrow> bool" where
  "has_children t i = list_ex (\<lambda>(_, r). wn_parent_id r = Some i) t"

definition project_close_workspace_node where
  "project_close_workspace_node env v at workspace_node_id db =
     and_then (sql env ''close workspace node'') (\<lambda>_.
     and_then (guard_that (map_of (t_workspace_node db) workspace_node_id \<noteq> None) not_found) (\<lambda>_.
     and_then (guard_that
        (\<not> has_children (AList.delete workspace_node_id (t_workspace_node db)) workspace_node_id)
        not_found) (\<lambda>_.
       Inr (db\<lparr>t_workspace_node := AList.delete workspace_node_id (t_workspace_node db)\<rparr>))))"

section \<open>Workflow runs\<close>

definition workflow_run_guard :: "workflow_run_row \<Rightarrow> workflow_run_row \<Rightarrow> bool" where
  "workflow_run_guard old new \<longleftrightarrow>
     assert_version_cas (wf_version old) (wf_version new) \<and> workflow_run_check new"

definition project_open_workflow_run where
  "project_open_workflow_run env v at workflow_run_id template_ref template_sha256 task_id title db =
     (let row = \<lparr>wf_version = v, wf_state = ''running'', wf_step = None, wf_template_ref = template_ref,
                 wf_template_sha256 = template_sha256, wf_task_id = task_id, wf_title = title,
                 wf_opened_at = at, wf_updated_at = at, wf_closed_at = None\<rparr> in
      and_then (insert_row env ''open workflow run'' (1 \<le> v \<and> workflow_run_check row)
        (references (t_task db) task_id) workflow_run_id row (t_workflow_run db))
      (\<lambda>t. Inr (db\<lparr>t_workflow_run := t\<rparr>)))"

definition project_advance_workflow_run where
  "project_advance_workflow_run env v at workflow_run_id step db =
     and_then (update_row env ''advance workflow run'' workflow_run_guard workflow_run_id
       (\<lambda>r. r\<lparr>wf_step := Some step, wf_version := v, wf_updated_at := at\<rparr>) (t_workflow_run db))
     (\<lambda>t. Inr (db\<lparr>t_workflow_run := t\<rparr>))"

definition project_close_workflow_run where
  "project_close_workflow_run env v at workflow_run_id result db =
     and_then (update_row env ''close workflow run'' workflow_run_guard workflow_run_id
       (\<lambda>r. r\<lparr>wf_state := result, wf_version := v, wf_closed_at := Some at, wf_updated_at := at\<rparr>)
       (t_workflow_run db))
     (\<lambda>t. Inr (db\<lparr>t_workflow_run := t\<rparr>))"

section \<open>PTY sessions and templates\<close>

definition pty_session_guard :: "pty_session_row \<Rightarrow> pty_session_row \<Rightarrow> bool" where
  "pty_session_guard old new \<longleftrightarrow>
     assert_version_cas (ps_version old) (ps_version new) \<and> pty_session_check new
     \<and> ps_attach_count new < 2 ^ 63 \<and> ps_detach_count new < 2 ^ 63"

definition pty_template_guard :: "pty_template_row \<Rightarrow> pty_template_row \<Rightarrow> bool" where
  "pty_template_guard old new \<longleftrightarrow>
     assert_version_cas (pt_version old) (pt_version new) \<and> pty_template_check new"

definition project_open_pty_session where
  "project_open_pty_session env v at pty_session_id generation engine_session_id title db =
     and_then (insert_row env ''open pty session'' (1 \<le> v)
       (references (t_engine_session db) engine_session_id) pty_session_id
       \<lparr>ps_version = v, ps_state = ''running'', ps_generation = generation,
        ps_engine_session_id = engine_session_id, ps_attach_count = 0, ps_detach_count = 0,
        ps_title = title, ps_opened_at = at, ps_updated_at = at, ps_closed_at = None\<rparr>
       (t_pty_session db))
     (\<lambda>t. Inr (db\<lparr>t_pty_session := t\<rparr>))"

definition update_pty_session where
  "update_pty_session env context v at i change db =
     and_then (update_row env context pty_session_guard i
       (\<lambda>r. (change r)\<lparr>ps_version := v, ps_updated_at := at\<rparr>) (t_pty_session db))
     (\<lambda>t. Inr (db\<lparr>t_pty_session := t\<rparr>))"

definition project_record_pty_attach where
  "project_record_pty_attach env v at pty_session_id db =
     update_pty_session env ''record pty attach'' v at pty_session_id
       (\<lambda>r. r\<lparr>ps_attach_count := ps_attach_count r + 1\<rparr>) db"

definition project_record_pty_detach where
  "project_record_pty_detach env v at pty_session_id db =
     update_pty_session env ''record pty detach'' v at pty_session_id
       (\<lambda>r. r\<lparr>ps_detach_count := ps_detach_count r + 1\<rparr>) db"

definition project_send_pty_input where
  "project_send_pty_input env v at pty_session_id generation db =
     update_pty_session env ''record pty input'' v at
       (pty_session_lifetime_id pty_session_id generation) (\<lambda>r. r) db"

definition project_resize_pty_session where
  "project_resize_pty_session env v at pty_session_id generation db =
     update_pty_session env ''record pty resize'' v at
       (pty_session_lifetime_id pty_session_id generation) (\<lambda>r. r) db"

definition project_stop_pty_session where
  "project_stop_pty_session env v at pty_session_id generation db =
     update_pty_session env ''record pty stop'' v at
       (pty_session_lifetime_id pty_session_id generation) (\<lambda>r. r) db"

definition project_close_pty_session where
  "project_close_pty_session env v at pty_session_id db =
     update_pty_session env ''close pty session'' v at pty_session_id
       (\<lambda>r. r\<lparr>ps_state := ''closed'', ps_closed_at := Some at\<rparr>) db"

definition project_declare_pty_template where
  "project_declare_pty_template env v at template_name command args cwd envs cols rows db =
     (let row = \<lparr>pt_version = v, pt_state = ''active'', pt_command = command, pt_args = args,
                 pt_cwd = cwd, pt_env = envs, pt_cols = cols, pt_rows = rows, pt_declared_at = at,
                 pt_updated_at = at, pt_retired_at = None\<rparr> in
      and_then (insert_row env ''declare pty session template'' (1 \<le> v \<and> pty_template_check row) True
        template_name row (t_pty_template db))
      (\<lambda>t. Inr (db\<lparr>t_pty_template := t\<rparr>)))"

definition project_retire_pty_template where
  "project_retire_pty_template env v at template_name db =
     and_then (update_row env ''retire pty session template'' pty_template_guard template_name
       (\<lambda>r. r\<lparr>pt_state := ''retired'', pt_version := v, pt_retired_at := Some at, pt_updated_at := at\<rparr>)
       (t_pty_template db))
     (\<lambda>t. Inr (db\<lparr>t_pty_template := t\<rparr>))"

section \<open>Ingestion\<close>

definition project_ingest_record where
  "project_ingest_record env v at event_aggregate_id event_actor event_seq kind body body_ref db =
     and_then (insert_row env ''insert ingested record'' True True event_aggregate_id
       \<lparr>ir_kind = kind, ir_payload = body, ir_payload_ref = body_ref, ir_ingested_by = Some event_actor,
        ir_event_seq = event_seq, ir_ingested_at = at\<rparr> (t_ingested_record db))
     (\<lambda>t. Inr (db\<lparr>t_ingested_record := t\<rparr>))"

section \<open>The match over the command\<close>

text \<open>
  What the command path takes from code outside the repository: \<open>serde\<close>'s rendering of a command
  body and its inverse, the text PostgreSQL's \<open>->>\<close> gives for a compound value, the comparison of
  two \<open>timestamptz\<close>, the database clock, and the keyed digest of PTY input bytes.
\<close>

record kernel_env = "json store_env" +
  ke_encode :: "kernel_command \<Rightarrow> json"
  ke_decode :: "json \<Rightarrow> kernel_command option"
  ke_print :: "json \<Rightarrow> string"
  ke_later :: "timestamp \<Rightarrow> timestamp \<Rightarrow> bool"
  ke_clock :: timestamp
  ke_mac :: "string \<Rightarrow> string"

definition apply_command ::
  "'m kernel_env_scheme \<Rightarrow> json event_envelope \<Rightarrow> kernel_command \<Rightarrow> json db \<Rightarrow> refusal + json db" where
  "apply_command env e command db =
     (let v = aggregate_version e; at = appended_at e in
      case command of
        CreateTask i k ti sr p pr tr \<Rightarrow> project_create_task env v at i k ti sr p pr tr db
      | TransitionTask i to _ \<Rightarrow> project_transition_task env v at i to db
      | CreateAttempt i t eng ca ro ml pp wl bs bu \<Rightarrow>
          project_create_attempt env v at i t eng ca ro ml pp wl bs bu db
      | TransitionAttempt i to _ _ \<Rightarrow> project_transition_attempt env v at i to db
      | UpdateBudget i _ b \<Rightarrow> project_update_budget env v at i b db
      | RecordAttemptRuntime i _ rr rs \<Rightarrow> project_record_attempt_runtime env v at i rr rs db
      | RecordAttemptOutcome i _ xc te rv em \<Rightarrow>
          project_record_attempt_outcome env v at i xc te rv em db
      | RecordRound i _ _ \<Rightarrow> project_advance_attempt env v at i db
      | RecordFinding i _ _ _ _ \<Rightarrow> project_advance_attempt env v at i db
      | OpenEngineSession i a eng ref \<Rightarrow> project_open_engine_session env v at i a eng ref db
      | CloseEngineSession i \<Rightarrow> project_close_engine_session env v at i db
      | AcquireLease i m h s r p b bs ex \<Rightarrow> project_acquire_lease env v at i m h s r p b bs ex db
      | RenewLease i _ ex \<Rightarrow> project_renew_lease env v at i ex db
      | ReleaseLease i _ d \<Rightarrow> project_release_lease env v at i d db
      | ExpireLease i _ \<Rightarrow> project_expire_lease env v at i db
      | RegisterWorktree i r p b bs l \<Rightarrow> project_register_worktree env v at i r p b bs l db
      | UpdateWorktree i d u bs \<Rightarrow> project_update_worktree env v at i d u bs db
      | ReleaseWorktree i d \<Rightarrow> project_release_worktree env v at i d db
      | RegisterDispatchNode i p a k l \<Rightarrow> project_register_dispatch_node env v at i p a k l db
      | TransitionDispatchNode i to _ \<Rightarrow> project_transition_dispatch_node env v at i to db
      | WriteOrchestratorCheckpoint c \<Rightarrow> project_write_checkpoint env v at c db
      | SendMessage i co rt s r ch k p d \<Rightarrow>
          project_send_message env v at (idempotency_key e) i co rt s r ch k p d db
      | TransitionMessage i to _ dl \<Rightarrow> project_transition_message env v at i to dl db
      | IssueCommand i k ts a \<Rightarrow> project_issue_command env v at (idempotency_key e) i k ts a db
      | TransitionCommand i to _ \<Rightarrow> project_transition_command env v at i to db
      | RecordCommandOutcome i _ r \<Rightarrow> project_record_command_outcome env v at i r db
      | OpenGate i a p k q os \<Rightarrow> project_open_gate env v at i a p k q os db
      | DecideGate i _ vd c ev \<Rightarrow> project_decide_gate env v at (actor e) i vd c ev db
      | RecordEvidence i k r d b \<Rightarrow> project_record_evidence env v at i k r d b db
      | RecordCostEntry i a s n eng m t1 t2 t3 t4 t5 c ce \<Rightarrow>
          project_record_cost_entry env v at i a s n eng m t1 t2 t3 t4 t5 c ce db
      | GrantAuthority i g c s ex \<Rightarrow> project_grant_authority env v at i g c s ex db
      | RevokeAuthority i r \<Rightarrow> project_revoke_authority env v at i r db
      | RaiseAttention i k s sr rb p \<Rightarrow> project_raise_attention env v at i k s sr rb p db
      | ResolveAttention i r \<Rightarrow> project_resolve_attention env v at i r db
      | AckAttention i \<Rightarrow> project_ack_attention env v at i db
      | MuteAttention i u \<Rightarrow> project_mute_attention env v at i u db
      | UnmuteAttention i \<Rightarrow> project_unmute_attention env v at i db
      | CreateWorkspaceNode i k p s \<Rightarrow> project_create_workspace_node env v at i k p s db
      | MoveWorkspaceNode i p _ \<Rightarrow> project_move_workspace_node env v at i p db
      | RebindWorkspacePane i s _ \<Rightarrow> project_rebind_workspace_pane env v at i s db
      | CloseWorkspaceNode i _ \<Rightarrow> project_close_workspace_node env v at i db
      | OpenWorkflowRun i r d t ti \<Rightarrow> project_open_workflow_run env v at i r d t ti db
      | AdvanceWorkflowRun i s _ \<Rightarrow> project_advance_workflow_run env v at i s db
      | CloseWorkflowRun i r _ \<Rightarrow> project_close_workflow_run env v at i r db
      | OpenPtySession i g es t \<Rightarrow> project_open_pty_session env v at i g es t db
      | RecordPtyAttach i _ \<Rightarrow> project_record_pty_attach env v at i db
      | RecordPtyDetach i _ \<Rightarrow> project_record_pty_detach env v at i db
      | SendPtyInput i g _ \<Rightarrow> project_send_pty_input env v at i g db
      | ResizePtySession i g _ _ \<Rightarrow> project_resize_pty_session env v at i g db
      | StopPtySession i g \<Rightarrow> project_stop_pty_session env v at i g db
      | ClosePtySession i _ \<Rightarrow> project_close_pty_session env v at i db
      | DeclarePtySessionTemplate n c as w en cs rs \<Rightarrow>
          project_declare_pty_template env v at n c as w en cs rs db
      | RetirePtySessionTemplate n _ \<Rightarrow> project_retire_pty_template env v at n db
      | RequestPtySessionStart _ _ \<Rightarrow> Inr db
      | ActivateKernel _ _ \<Rightarrow> Inr db
      | IngestRecord k p pr \<Rightarrow>
          project_ingest_record env v at (aggregate_id e) (actor e) (global_sequence e) k p pr db)"

text \<open>
  The body of \<open>apply_event\<close> for an event that carries a command. An event of a Context aggregate
  takes another branch before this one; no event of the command path is of such an aggregate
  (\<open>route_not_context\<close> in the submit theory).
\<close>

definition apply_event ::
  "'m kernel_env_scheme \<Rightarrow> json event_envelope \<Rightarrow> json db \<Rightarrow> refusal + json db" where
  "apply_event env e db =
     and_then (ok_or storage_failed (ke_decode env (payload e))) (\<lambda>command.
       apply_command env e command db)"

section \<open>Rows written beside the log\<close>

definition write_receipt ::
  "'m kernel_env_scheme \<Rightarrow> string \<Rightarrow> receipt_row \<Rightarrow> json db \<Rightarrow> refusal + json db" where
  "write_receipt env receipt_id receipt db =
     (let row = receipt\<lparr>rc_ts := se_timestamptz env (rc_ts receipt)\<rparr> in
      and_then (sql env ''write receipt'') (\<lambda>_.
      case map_of (t_receipt db) receipt_id of
        None \<Rightarrow> Inr (db\<lparr>t_receipt := AList.update receipt_id row (t_receipt db)\<rparr>)
      | Some existing \<Rightarrow>
          and_then (sql env ''compare existing receipt'') (\<lambda>_.
          and_then (guard_that (existing = row) (refusal_new Code_IdempotencyConflict)) (\<lambda>_. Inr db))))"

definition unresolved_attention ::
  "'m kernel_env_scheme \<Rightarrow> string \<Rightarrow> string option \<Rightarrow> json db \<Rightarrow> refusal + string option" where
  "unresolved_attention env kind subject_ref db =
     (case subject_ref of
        None \<Rightarrow> Inr None
      | Some s \<Rightarrow> and_then (sql env ''read unresolved attention'') (\<lambda>_.
          Inr (map_option fst (find (\<lambda>(_, r). an_kind r = kind \<and> an_subject_ref r = Some s
                                     \<and> an_resolved_at r = None) (t_attention_item db)))))"

text \<open>
  The conflict target is the partial unique index over open items: an open item on the same
  subject makes the statement a no-op, and any other clash is an error.
\<close>

definition page_attention ::
  "'m kernel_env_scheme \<Rightarrow> string \<Rightarrow> string \<Rightarrow> string \<Rightarrow> actor \<Rightarrow> timestamp \<Rightarrow> json db
     \<Rightarrow> refusal + json db" where
  "page_attention env attention_item_id summary subject_ref raised_by at db =
     and_then (sql env ''page attention'') (\<lambda>_.
     if \<not> attention_dedup (t_attention_item db) ''authority'' (Some subject_ref) then Inr db
     else and_then (guard_that (map_of (t_attention_item db) attention_item_id = None) storage_failed)
       (\<lambda>_. Inr (db\<lparr>t_attention_item := AList.update attention_item_id
              \<lparr>an_kind = ''authority'', an_summary = summary, an_subject_ref = Some subject_ref,
               an_raised_by = Some raised_by, an_priority = None,
               an_raised_at = se_timestamptz env at, an_acked_at = None, an_muted_until = None,
               an_resolved_at = None, an_resolution = None\<rparr> (t_attention_item db)\<rparr>)))"

end
