(* ===== verification/Gw_Epoch.thy ===== *)
theory Gw_Epoch
  imports Gw_Project
begin

text \<open>
  The kernel's own lifecycle (\<open>gwk-kernel/src/epoch.rs\<close>): genesis seals the log, one activation
  opens it, and the version of the aggregate \<open>kernel/singleton\<close> is the epoch. Also the
  checkpoint barrier every appending transaction ends with (\<open>store.rs\<close>); what a snapshot writes
  besides the writer row's counter is not modelled.
\<close>

definition KERNEL_AGGREGATE :: string where
  "KERNEL_AGGREGATE = ''kernel''"

definition KERNEL_SINGLETON :: string where
  "KERNEL_SINGLETON = ''singleton''"

definition SYSTEM_PROJECT :: string where
  "SYSTEM_PROJECT = ''system''"

definition GENESIS_KEY :: string where
  "GENESIS_KEY = ''kernel_initialized:v1''"

definition GENESIS_EVENT_TYPE :: string where
  "GENESIS_EVENT_TYPE = ''kernel_initialized''"

definition ACTIVATION_EVENT_TYPE :: string where
  "ACTIVATION_EVENT_TYPE = ''kernel_activated''"

definition REVISION_HEX_LEN :: nat where
  "REVISION_HEX_LEN = 40"

lemmas kernel_names = KERNEL_AGGREGATE_def KERNEL_SINGLETON_def SYSTEM_PROJECT_def GENESIS_KEY_def
  GENESIS_EVENT_TYPE_def ACTIVATION_EVENT_TYPE_def

datatype epoch = Epoch_None | Epoch_Sealed | Epoch_Active

definition of_version :: "u32 \<Rightarrow> epoch" where
  "of_version v = (if v = 0 then Epoch_None else if v = 1 then Epoch_Sealed else Epoch_Active)"

definition epoch_of :: "('p, 'm) store_env_scheme \<Rightarrow> ('p, 'z) pg_state_scheme \<Rightarrow> refusal + epoch" where
  "epoch_of env db =
     and_then (lift_append (current_aggregate_version env db KERNEL_AGGREGATE KERNEL_SINGLETON))
       (\<lambda>v. Inr (of_version v))"

text \<open>The \<open>->>\<close> operator: a field of an object as text, SQL's null for an absent or null one.\<close>

definition json_text :: "(json \<Rightarrow> string) \<Rightarrow> json \<Rightarrow> string \<Rightarrow> string option" where
  "json_text print j k =
     (case json_get j k of
        None \<Rightarrow> None
      | Some JNull \<Rightarrow> None
      | Some (JString s) \<Rightarrow> Some s
      | Some other \<Rightarrow> Some (print other))"

definition committed_cutover ::
  "'m kernel_env_scheme \<Rightarrow> (json, 'z) pg_state_scheme \<Rightarrow> refusal + string option" where
  "committed_cutover env db =
     and_then (sql env ''read the committed cutover'') (\<lambda>_.
       Inr (case sort_key aggregate_version
                   (filter (\<lambda>e. agg_key_of e = (''kernel'', ''singleton'')
                             \<and> event_type e = ''kernel_activated'') (pg_events db)) of
              [] \<Rightarrow> None
            | e # _ \<Rightarrow> json_text (ke_print env) (payload e) ''cutover_id''))"

definition activation_key :: "string \<Rightarrow> string" where
  "activation_key cutover_id = ACTIVATION_EVENT_TYPE @ '':'' @ cutover_id"

definition is_public_revision :: "string \<Rightarrow> bool" where
  "is_public_revision value \<longleftrightarrow> length value = REVISION_HEX_LEN \<and> list_all is_lower_hex value"

definition CONTRACT_VERSION :: u32 where
  "CONTRACT_VERSION = 1"

definition genesis_event :: "string \<Rightarrow> timestamp \<Rightarrow> json event_envelope" where
  "genesis_event public_revision at =
     \<lparr>event_id = KERNEL_AGGREGATE @ '':'' @ KERNEL_SINGLETON @ '':1'',
      project_id = SYSTEM_PROJECT,
      aggregate_type = KERNEL_AGGREGATE,
      aggregate_id = KERNEL_SINGLETON,
      aggregate_version = 1,
      event_type = GENESIS_EVENT_TYPE,
      schema_version = ENVELOPE_SCHEMA_VERSION,
      global_sequence = 0,
      occurred_at = at,
      appended_at = at,
      actor = \<lparr>actor_kind = ''kernel'', actor_id = None\<rparr>,
      origin = \<lparr>origin_system = ''gw'', origin_ref = None\<rparr>,
      causation_id = None,
      correlation_id = None,
      idempotency_key = Some GENESIS_KEY,
      payload = JObject [(''contract_version'', json_u32 CONTRACT_VERSION),
                         (''public_revision'', JString public_revision)],
      payload_ref = None\<rparr>"

definition ensure_genesis ::
  "'m kernel_env_scheme \<Rightarrow> string \<Rightarrow> (json, 'z) pg_state_scheme
     \<Rightarrow> (refusal + unit) \<times> (json, 'z) pg_state_scheme" where
  "ensure_genesis env public_revision db =
     transact
       (and_then (guard_that (is_public_revision public_revision) validation) (\<lambda>_.
        and_then (sql env ''begin'') (\<lambda>_.
        and_then (lift_append (lock_writer env db)) (\<lambda>writer.
        and_then (epoch_of env db) (\<lambda>epoch.
        if epoch \<noteq> Epoch_None then Inr ((), db)
        else
          and_then (sql env ''read the database clock'') (\<lambda>_.
          and_then (lift_append (append_locked env writer 0 (ws_current_fence writer)
                      [genesis_event public_revision (se_now env)] db)) (\<lambda>(appended, db1).
          and_then (sql env ''commit'') (\<lambda>_. Inr ((), db1)))))))))
       db"

definition sealed_refusal :: refusal where
  "sealed_refusal = refusal_new Code_Sealed"

section \<open>The checkpoint barrier\<close>

definition checkpoint_if_due ::
  "('p, 'm) store_env_scheme \<Rightarrow> writer_state \<Rightarrow> u64 \<Rightarrow> ('p, 'z) pg_state_scheme
     \<Rightarrow> append_error + ('p, 'z) pg_state_scheme" where
  "checkpoint_if_due env writer through db =
     (if \<not> se_blobs env \<or> \<not> checkpoint_due writer through then Inr db
      else and_then (query env ''checkpoint'') (\<lambda>_.
        Inr (db\<lparr>pg_writer := map_option (\<lambda>w. w\<lparr>w_checkpoint_seq := through\<rparr>) (pg_writer db)\<rparr>)))"

end
