(* ===== verification/Gw_Authority.thy ===== *)
theory Gw_Authority
  imports Gw_Epoch
begin

text \<open>
  The authority gate (\<open>gwk-kernel/src/authority.rs\<close>): the table of classified commands, the live
  grants and the decision a gated command gets.
\<close>

definition PTY_INPUT_ACTION_CLASS :: string where
  "PTY_INPUT_ACTION_CLASS = ''pty_input''"

definition PTY_CONTROL_ACTION_CLASS :: string where
  "PTY_CONTROL_ACTION_CLASS = ''pty_control''"

definition PTY_START_ACTION_CLASS :: string where
  "PTY_START_ACTION_CLASS = ''pty_start''"

definition PTY_TEMPLATE_ACTION_CLASS :: string where
  "PTY_TEMPLATE_ACTION_CLASS = ''pty_template''"

lemmas action_classes = PTY_INPUT_ACTION_CLASS_def PTY_CONTROL_ACTION_CLASS_def
  PTY_START_ACTION_CLASS_def PTY_TEMPLATE_ACTION_CLASS_def

definition RISK_CLASS :: "(string \<times> string) list" where
  "RISK_CLASS =
     [(''issue_command'', ''stop''),
      (''record_evidence:config_change'', ''config_change''),
      (''send_pty_input'', PTY_INPUT_ACTION_CLASS),
      (''resize_pty_session'', PTY_CONTROL_ACTION_CLASS),
      (''stop_pty_session'', PTY_CONTROL_ACTION_CLASS),
      (''request_pty_session_start'', PTY_START_ACTION_CLASS),
      (''declare_pty_session_template'', PTY_TEMPLATE_ACTION_CLASS),
      (''retire_pty_session_template'', PTY_TEMPLATE_ACTION_CLASS)]"

definition MATCHING_GRANT_BASIS :: string where
  "MATCHING_GRANT_BASIS = ''matching unexpired scoped grant''"

definition OPERATOR_BASIS :: string where
  "OPERATOR_BASIS = ''operator authority''"

definition UNGRANTED_BASIS :: string where
  "UNGRANTED_BASIS = ''no matching unexpired scoped grant''"

definition ACTOR_KIND_BASIS :: string where
  "ACTOR_KIND_BASIS = ''actor kind is neither operator nor orchestrator''"

datatype decision = Unclassified | Allow string string | Page string string

fun decision_result :: "decision \<Rightarrow> (string \<times> string) option" where
  "decision_result Unclassified = None"
| "decision_result (Allow action_class basis) = Some (action_class, basis)"
| "decision_result (Page action_class basis) = Some (action_class, basis)"

definition classification_key :: "string \<Rightarrow> kernel_command \<Rightarrow> string" where
  "classification_key ctype command =
     (case command of
        RecordEvidence _ kind _ _ _ \<Rightarrow>
          if kind = ''config_change'' then ''record_evidence:config_change'' else ctype
      | _ \<Rightarrow> ctype)"

definition class_of :: "string \<Rightarrow> string option" where
  "class_of key = map_of RISK_CLASS key"

definition is_pty_action :: "string \<Rightarrow> bool" where
  "is_pty_action action_class \<longleftrightarrow>
     action_class = PTY_INPUT_ACTION_CLASS \<or> action_class = PTY_CONTROL_ACTION_CLASS
     \<or> action_class = PTY_START_ACTION_CLASS \<or> action_class = PTY_TEMPLATE_ACTION_CLASS"

definition grant_live ::
  "'m kernel_env_scheme \<Rightarrow> timestamp \<Rightarrow> bool \<Rightarrow> authority_grant_row \<Rightarrow> bool" where
  "grant_live env issued_at live_expiry g \<longleftrightarrow>
     au_revoked_at g = None
     \<and> (case au_expires_at g of
          None \<Rightarrow> True
        | Some x \<Rightarrow> if live_expiry then ke_later env x (ke_clock env)
                   else ke_later env x (se_timestamptz env issued_at))"

definition matching_grant ::
  "'m kernel_env_scheme \<Rightarrow> actor \<Rightarrow> string \<Rightarrow> string \<Rightarrow> timestamp \<Rightarrow> bool \<Rightarrow> json db
     \<Rightarrow> refusal + bool" where
  "matching_grant env who action_class subject issued_at live_expiry db =
     and_then (sql env ''read authority grants'') (\<lambda>_.
       Inr (list_ex (\<lambda>(_, g). au_action_class g = action_class \<and> au_grantee g = who
              \<and> (au_scope g = None \<or> au_scope g = Some subject)
              \<and> grant_live env issued_at live_expiry g) (t_authority_grant db)))"

definition evaluate ::
  "'m kernel_env_scheme \<Rightarrow> json command_envelope \<Rightarrow> string \<Rightarrow> string \<Rightarrow> json db \<Rightarrow> refusal + decision" where
  "evaluate env envelope key subject db =
     (case class_of key of
        None \<Rightarrow> Inr Unclassified
      | Some action_class \<Rightarrow>
          if is_pty_action action_class \<and> actor_kind (cmd_actor envelope) = ''operator''
          then Inr (Allow action_class OPERATOR_BASIS)
          else if is_pty_action action_class \<and> actor_kind (cmd_actor envelope) \<noteq> ''orchestrator''
          then Inr (Page action_class ACTOR_KIND_BASIS)
          else and_then (matching_grant env (cmd_actor envelope) action_class subject
                  (cmd_issued_at envelope) (is_pty_action action_class) db) (\<lambda>allowed.
            Inr (if allowed then Allow action_class MATCHING_GRANT_BASIS
                 else Page action_class UNGRANTED_BASIS)))"

section \<open>What a decision means\<close>

definition covered ::
  "'m kernel_env_scheme \<Rightarrow> json command_envelope \<Rightarrow> string \<Rightarrow> string \<Rightarrow> json db \<Rightarrow> bool" where
  "covered env envelope action_class subject db \<longleftrightarrow>
     (\<exists>(_, g) \<in> set (t_authority_grant db).
        au_action_class g = action_class \<and> au_grantee g = cmd_actor envelope
        \<and> (au_scope g = None \<or> au_scope g = Some subject)
        \<and> grant_live env (cmd_issued_at envelope) (is_pty_action action_class) g)"

lemma evaluate_Allow:
  assumes "evaluate env envelope key subject db = Inr (Allow c b)"
  shows "class_of key = Some c
    \<and> (is_pty_action c \<and> actor_kind (cmd_actor envelope) = ''operator''
       \<or> (is_pty_action c \<longrightarrow> actor_kind (cmd_actor envelope) = ''orchestrator'')
         \<and> covered env envelope c subject db)"
  using assms
  by (auto simp: evaluate_def matching_grant_def covered_def list_ex_iff result_simps sql_def
      split: option.splits if_splits)

lemma evaluate_Unclassified:
  "evaluate env envelope key subject db = Inr Unclassified \<longleftrightarrow> class_of key = None"
  by (auto simp: evaluate_def result_simps split: option.splits if_splits)

end
