(* ===== verification/Gw_Route.thy ===== *)
theory Gw_Route
  imports Gw_Authority
begin

text \<open>
  The checks a command passes before any row is read (\<open>gwk-kernel/src/submit.rs\<close>): the PTY input
  carrier, the PTY template, the aggregate the body addresses, and the agreement of envelope
  and body. The arms of \<open>route_of\<close> that validate their body are definitions of their own.
\<close>

section \<open>PTY carriers, grids and templates\<close>

definition PTY_INPUT_MAX_BYTES :: nat where
  "PTY_INPUT_MAX_BYTES = 64 * 1024"

definition PTY_GRID_MAX_AXIS :: u16 where
  "PTY_GRID_MAX_AXIS = 1000"

definition PTY_GRID_MAX_CELLS :: u32 where
  "PTY_GRID_MAX_CELLS = 100000"

definition pty_grid_dimensions_are_bounded :: "u16 \<Rightarrow> u16 \<Rightarrow> bool" where
  "pty_grid_dimensions_are_bounded cols rows \<longleftrightarrow>
     cols \<noteq> 0 \<and> rows \<noteq> 0 \<and> cols \<le> PTY_GRID_MAX_AXIS \<and> rows \<le> PTY_GRID_MAX_AXIS
     \<and> (ucast cols :: u32) * ucast rows \<le> PTY_GRID_MAX_CELLS"

datatype pty_input_carrier = Bytes string | Invalid

definition validate_pty_input_carrier ::
  "kernel_command \<Rightarrow> pty_input_carrier option \<Rightarrow> refusal + unit" where
  "validate_pty_input_carrier command pty_input =
     (case (command, pty_input) of
        (SendPtyInput _ _ byte_count, Some (Bytes bytes)) \<Rightarrow>
          guard_that (bytes \<noteq> [] \<and> length bytes \<le> PTY_INPUT_MAX_BYTES
                      \<and> length bytes = unat byte_count) validation
      | (SendPtyInput _ _ _, Some Invalid) \<Rightarrow> Inl validation
      | (SendPtyInput _ _ _, None) \<Rightarrow> Inl validation
      | (_, Some _) \<Rightarrow> Inl validation
      | (_, None) \<Rightarrow> Inr ())"

definition has_nul :: "string \<Rightarrow> bool" where
  "has_nul s \<longleftrightarrow> List.member s (byte 0)"

definition valid_environment_name :: "string \<Rightarrow> bool" where
  "valid_environment_name name =
     (case name of
        [] \<Rightarrow> False
      | c # cs \<Rightarrow> (is_ascii_alphabetic c \<or> c = CHR ''_'')
          \<and> list_all (\<lambda>b. is_ascii_alphanumeric b \<or> b = CHR ''_'') cs
          \<and> length name \<le> 256)"

definition template_name_char :: "char \<Rightarrow> bool" where
  "template_name_char b \<longleftrightarrow>
     is_ascii_alphanumeric b \<or> b = CHR ''-'' \<or> b = CHR ''_'' \<or> b = CHR ''.''"

definition validate_pty_grid :: "u16 \<Rightarrow> u16 \<Rightarrow> refusal + unit" where
  "validate_pty_grid cols rows = guard_that (pty_grid_dimensions_are_bounded cols rows) validation"

definition validate_pty_template ::
  "string \<Rightarrow> string \<Rightarrow> string list \<Rightarrow> string option \<Rightarrow> (string \<times> string) list \<Rightarrow> u16 \<Rightarrow> u16
     \<Rightarrow> refusal + unit" where
  "validate_pty_template template_name command args cwd envs cols rows =
     (let name = trim template_name in
      and_then (guard_that (name \<noteq> [] \<and> length name \<le> 128 \<and> list_all template_name_char name)
        validation) (\<lambda>_.
      and_then (guard_that (trim command \<noteq> [] \<and> length command \<le> 4096 \<and> \<not> has_nul command)
        validation) (\<lambda>_.
      and_then (guard_that (length args \<le> 256
          \<and> list_all (\<lambda>arg. length arg \<le> 16384 \<and> \<not> has_nul arg) args) validation) (\<lambda>_.
      and_then (guard_that (case cwd of None \<Rightarrow> True
          | Some d \<Rightarrow> d \<noteq> [] \<and> length d \<le> 4096 \<and> \<not> has_nul d) validation) (\<lambda>_.
      and_then (guard_that (length envs \<le> 256
          \<and> list_all (\<lambda>(key, value). key \<noteq> [] \<and> \<not> List.member key (CHR ''='')
               \<and> length key \<le> 16384 \<and> length value \<le> 16384
               \<and> \<not> has_nul key \<and> \<not> has_nul value) envs) validation) (\<lambda>_.
      and_then (guard_that (list_all (\<lambda>(_, value).
          case strip_prefix ''env:'' value of
            None \<Rightarrow> False | Some n \<Rightarrow> valid_environment_name n) envs) validation) (\<lambda>_.
      validate_pty_grid cols rows)))))))"

section \<open>Routing\<close>

record route =
  rt_aggregate_type :: string
  rt_aggregate_id :: string
  rt_event_type :: string

definition route_create_workspace_node ::
  "string \<Rightarrow> workspace_node_kind \<Rightarrow> string option \<Rightarrow> string option
     \<Rightarrow> refusal + string \<times> string \<times> string" where
  "route_create_workspace_node workspace_node_id kind parent_id session_id =
     and_then (guard_that (session_id = None \<or> kind = Node_Pane) validation) (\<lambda>_.
     and_then (case (kind, parent_id) of
         (Node_Workspace, Some _) \<Rightarrow> Inl validation
       | (Node_Tab, None) \<Rightarrow> Inl validation
       | (Node_Pane, None) \<Rightarrow> Inl validation
       | _ \<Rightarrow> Inr ()) (\<lambda>_.
     and_then (guard_that (parent_id \<noteq> Some workspace_node_id) validation) (\<lambda>_.
       Inr (''workspace_node'', workspace_node_id, ''workspace_node_created''))))"

definition route_move_workspace_node ::
  "string \<Rightarrow> string \<Rightarrow> refusal + string \<times> string \<times> string" where
  "route_move_workspace_node workspace_node_id parent_id =
     and_then (guard_that (parent_id \<noteq> workspace_node_id) validation) (\<lambda>_.
       Inr (''workspace_node'', workspace_node_id, ''workspace_node_moved''))"

definition route_open_workflow_run ::
  "string \<Rightarrow> string \<Rightarrow> string option \<Rightarrow> refusal + string \<times> string \<times> string" where
  "route_open_workflow_run workflow_run_id template_ref template_sha256 =
     and_then (guard_that (trim template_ref \<noteq> []) validation) (\<lambda>_.
     and_then (guard_that (case template_sha256 of None \<Rightarrow> True | Some d \<Rightarrow> is_sha256_hex d) validation)
       (\<lambda>_. Inr (''workflow_run'', workflow_run_id, ''workflow_run_opened'')))"

definition route_advance_workflow_run ::
  "string \<Rightarrow> string \<Rightarrow> refusal + string \<times> string \<times> string" where
  "route_advance_workflow_run workflow_run_id step =
     and_then (guard_that (trim step \<noteq> []) validation) (\<lambda>_.
       Inr (''workflow_run'', workflow_run_id, ''workflow_run_advanced''))"

definition route_close_workflow_run ::
  "string \<Rightarrow> string \<Rightarrow> refusal + string \<times> string \<times> string" where
  "route_close_workflow_run workflow_run_id result =
     and_then (guard_that (result = ''completed'' \<or> result = ''failed'' \<or> result = ''canceled'')
       validation) (\<lambda>_. Inr (''workflow_run'', workflow_run_id, ''workflow_run_closed''))"

definition route_open_pty_session ::
  "string \<Rightarrow> string \<Rightarrow> refusal + string \<times> string \<times> string" where
  "route_open_pty_session pty_session_id generation =
     and_then (guard_that (trim generation \<noteq> []) validation) (\<lambda>_.
       Inr (''pty_session'', pty_session_id, ''pty_session_opened''))"

definition route_resize_pty_session ::
  "string \<Rightarrow> string \<Rightarrow> u16 \<Rightarrow> u16 \<Rightarrow> refusal + string \<times> string \<times> string" where
  "route_resize_pty_session pty_session_id generation cols rows =
     and_then (validate_pty_grid cols rows) (\<lambda>_.
       Inr (''pty_session'', pty_session_lifetime_id pty_session_id generation, ''pty_resize_requested''))"

definition route_declare_pty_template where
  "route_declare_pty_template template_name command args cwd envs cols rows =
     and_then (validate_pty_template template_name command args cwd envs cols rows) (\<lambda>_.
       Inr (''pty_session_template'', template_name, ''pty_session_template_declared''))"

definition route_start_pty_session ::
  "string \<Rightarrow> string \<Rightarrow> string \<Rightarrow> refusal + string \<times> string \<times> string" where
  "route_start_pty_session envelope_command_id template_name pty_session_id =
     and_then (guard_that (trim template_name \<noteq> []) validation) (\<lambda>_.
       Inr (''pty_session_start'', pty_session_id @ '':'' @ envelope_command_id,
            ''pty_session_start_requested''))"

definition route_record_cost_entry ::
  "string \<Rightarrow> string option \<Rightarrow> string option \<Rightarrow> string option \<Rightarrow> refusal + string \<times> string \<times> string" where
  "route_record_cost_entry cost_entry_id attempt_id engine_session_id dispatch_node_id =
     and_then (guard_that (attempt_id \<noteq> None \<or> engine_session_id \<noteq> None \<or> dispatch_node_id \<noteq> None)
       validation) (\<lambda>_. Inr (''cost_entry'', cost_entry_id, ''cost_entry_recorded''))"

definition route_write_checkpoint ::
  "orchestrator_checkpoint \<Rightarrow> refusal + string \<times> string \<times> string" where
  "route_write_checkpoint checkpoint =
     and_then (ok_or validation (oc_orchestrator_id checkpoint)) (\<lambda>orchestrator_id.
       Inr (''orchestrator_checkpoint'', orchestrator_id, ''orchestrator_checkpoint_written''))"

definition route_ingest_record :: "json command_envelope \<Rightarrow> refusal + string \<times> string \<times> string" where
  "route_ingest_record envelope =
     Inr (''ingested_record'',
          ''ingest:'' @ cmd_project_id envelope @ '':'' @ cmd_idempotency_key envelope,
          ''record_ingested'')"

definition route_arm :: "json command_envelope \<Rightarrow> kernel_command \<Rightarrow> refusal + string \<times> string \<times> string" where
  "route_arm envelope command =
     (case command of
        ActivateKernel _ _ \<Rightarrow> Inr (KERNEL_AGGREGATE, KERNEL_SINGLETON, ACTIVATION_EVENT_TYPE)
      | CreateTask i _ _ _ _ _ _ \<Rightarrow> Inr (''task'', i, ''task_created'')
      | TransitionTask i _ _ \<Rightarrow> Inr (''task'', i, ''task_transitioned'')
      | CreateAttempt i _ _ _ _ _ _ _ _ _ \<Rightarrow> Inr (''attempt'', i, ''attempt_created'')
      | TransitionAttempt i _ _ _ \<Rightarrow> Inr (''attempt'', i, ''attempt_transitioned'')
      | RecordAttemptRuntime i _ _ _ \<Rightarrow> Inr (''attempt'', i, ''attempt_runtime_recorded'')
      | RecordAttemptOutcome i _ _ _ _ _ \<Rightarrow> Inr (''attempt'', i, ''attempt_outcome_recorded'')
      | UpdateBudget i _ _ \<Rightarrow> Inr (''attempt'', i, ''budget_updated'')
      | RecordRound i _ _ \<Rightarrow> Inr (''attempt'', i, ''round_recorded'')
      | RecordFinding i _ _ _ _ \<Rightarrow> Inr (''attempt'', i, ''finding_recorded'')
      | OpenEngineSession i _ _ _ \<Rightarrow> Inr (''engine_session'', i, ''engine_session_opened'')
      | CloseEngineSession i \<Rightarrow> Inr (''engine_session'', i, ''engine_session_closed'')
      | AcquireLease i _ _ _ _ _ _ _ _ \<Rightarrow> Inr (''lease'', i, ''lease_acquired'')
      | RenewLease i _ _ \<Rightarrow> Inr (''lease'', i, ''lease_renewed'')
      | ReleaseLease i _ _ \<Rightarrow> Inr (''lease'', i, ''lease_released'')
      | ExpireLease i _ \<Rightarrow> Inr (''lease'', i, ''lease_expired'')
      | RegisterWorktree i _ _ _ _ _ \<Rightarrow> Inr (''worktree'', i, ''worktree_registered'')
      | UpdateWorktree i _ _ _ \<Rightarrow> Inr (''worktree'', i, ''worktree_updated'')
      | ReleaseWorktree i _ \<Rightarrow> Inr (''worktree'', i, ''worktree_released'')
      | CreateWorkspaceNode i k p s \<Rightarrow> route_create_workspace_node i k p s
      | MoveWorkspaceNode i p _ \<Rightarrow> route_move_workspace_node i p
      | RebindWorkspacePane i _ _ \<Rightarrow> Inr (''workspace_node'', i, ''workspace_pane_rebound'')
      | CloseWorkspaceNode i _ \<Rightarrow> Inr (''workspace_node'', i, ''workspace_node_closed'')
      | OpenWorkflowRun i r d _ _ \<Rightarrow> route_open_workflow_run i r d
      | AdvanceWorkflowRun i s _ \<Rightarrow> route_advance_workflow_run i s
      | CloseWorkflowRun i r _ \<Rightarrow> route_close_workflow_run i r
      | OpenPtySession i g _ _ \<Rightarrow> route_open_pty_session i g
      | RecordPtyAttach i _ \<Rightarrow> Inr (''pty_session'', i, ''pty_attach_recorded'')
      | RecordPtyDetach i _ \<Rightarrow> Inr (''pty_session'', i, ''pty_detach_recorded'')
      | SendPtyInput i g _ \<Rightarrow> Inr (''pty_session'', pty_session_lifetime_id i g, ''pty_input_requested'')
      | ResizePtySession i g c r \<Rightarrow> route_resize_pty_session i g c r
      | StopPtySession i g \<Rightarrow> Inr (''pty_session'', pty_session_lifetime_id i g, ''pty_stop_requested'')
      | ClosePtySession i _ \<Rightarrow> Inr (''pty_session'', i, ''pty_session_closed'')
      | DeclarePtySessionTemplate n c as w en cs rs \<Rightarrow>
          route_declare_pty_template n c as w en cs rs
      | RetirePtySessionTemplate i _ \<Rightarrow> Inr (''pty_session_template'', i, ''pty_session_template_retired'')
      | RequestPtySessionStart n i \<Rightarrow> route_start_pty_session (cmd_command_id envelope) n i
      | RegisterDispatchNode i _ _ _ _ \<Rightarrow> Inr (''dispatch_node'', i, ''dispatch_node_registered'')
      | TransitionDispatchNode i _ _ \<Rightarrow> Inr (''dispatch_node'', i, ''dispatch_node_transitioned'')
      | SendMessage i _ _ _ _ _ _ _ _ \<Rightarrow> Inr (''message'', i, ''message_sent'')
      | TransitionMessage i _ _ _ \<Rightarrow> Inr (''message'', i, ''message_transitioned'')
      | IssueCommand i _ _ _ \<Rightarrow> Inr (''command'', i, ''command_issued'')
      | TransitionCommand i _ _ \<Rightarrow> Inr (''command'', i, ''command_transitioned'')
      | RecordCommandOutcome i _ _ \<Rightarrow> Inr (''command'', i, ''command_outcome_recorded'')
      | OpenGate i _ _ _ _ _ \<Rightarrow> Inr (''gate'', i, ''gate_opened'')
      | DecideGate i _ _ _ _ \<Rightarrow> Inr (''gate'', i, ''gate_decided'')
      | RecordEvidence i _ _ _ _ \<Rightarrow> Inr (''evidence'', i, ''evidence_recorded'')
      | RecordCostEntry i a s n _ _ _ _ _ _ _ _ _ \<Rightarrow> route_record_cost_entry i a s n
      | GrantAuthority i _ _ _ _ \<Rightarrow> Inr (''authority_grant'', i, ''authority_granted'')
      | RevokeAuthority i _ \<Rightarrow> Inr (''authority_grant'', i, ''authority_revoked'')
      | RaiseAttention i _ _ _ _ _ \<Rightarrow> Inr (''attention_item'', i, ''attention_raised'')
      | ResolveAttention i _ \<Rightarrow> Inr (''attention_item'', i, ''attention_resolved'')
      | AckAttention i \<Rightarrow> Inr (''attention_item'', i, ''attention_acked'')
      | MuteAttention i _ \<Rightarrow> Inr (''attention_item'', i, ''attention_muted'')
      | UnmuteAttention i \<Rightarrow> Inr (''attention_item'', i, ''attention_unmuted'')
      | WriteOrchestratorCheckpoint c \<Rightarrow> route_write_checkpoint c
      | IngestRecord _ _ _ \<Rightarrow> route_ingest_record envelope)"

definition route_of :: "json command_envelope \<Rightarrow> kernel_command \<Rightarrow> refusal + route" where
  "route_of envelope command =
     and_then (route_arm envelope command) (\<lambda>(aty, aid, ety).
     and_then (guard_that (aid \<noteq> []) validation) (\<lambda>_.
       Inr \<lparr>rt_aggregate_type = aty, rt_aggregate_id = aid, rt_event_type = ety\<rparr>))"

section \<open>Envelope against body\<close>

definition check_routing :: "json command_envelope \<Rightarrow> route \<Rightarrow> refusal + unit" where
  "check_routing envelope route =
     and_then (guard_that (case cmd_target_aggregate_type envelope of
         None \<Rightarrow> True | Some declared \<Rightarrow> declared = rt_aggregate_type route) validation) (\<lambda>_.
     guard_that (case cmd_target_aggregate_id envelope of
         None \<Rightarrow> True | Some declared \<Rightarrow> declared = rt_aggregate_id route) validation)"

definition check_body_project :: "json command_envelope \<Rightarrow> kernel_command \<Rightarrow> refusal + unit" where
  "check_body_project envelope command =
     (case command of
        CreateTask _ _ _ _ (Some project) _ _ \<Rightarrow>
          guard_that (project = cmd_project_id envelope) validation
      | _ \<Rightarrow> Inr ())"

definition check_activation :: "json command_envelope \<Rightarrow> kernel_command \<Rightarrow> refusal + unit" where
  "check_activation envelope command =
     (case command of
        ActivateKernel cutover_id archive_manifest_sha256 \<Rightarrow>
          and_then (guard_that (cutover_id \<noteq> []) validation) (\<lambda>_.
          and_then (guard_that (is_sha256_hex archive_manifest_sha256) validation) (\<lambda>_.
          guard_that (cmd_idempotency_key envelope = activation_key cutover_id) validation))
      | _ \<Rightarrow> Inr ())"

definition is_authority_admin :: "kernel_command \<Rightarrow> bool" where
  "is_authority_admin command =
     (case command of
        GrantAuthority _ _ _ _ _ \<Rightarrow> True
      | RevokeAuthority _ _ \<Rightarrow> True
      | DeclarePtySessionTemplate _ _ _ _ _ _ _ \<Rightarrow> True
      | RetirePtySessionTemplate _ _ \<Rightarrow> True
      | _ \<Rightarrow> False)"

definition check_authority_admin :: "json command_envelope \<Rightarrow> kernel_command \<Rightarrow> refusal + unit" where
  "check_authority_admin envelope command =
     guard_that (\<not> is_authority_admin command \<or> actor_kind (cmd_actor envelope) = ''operator'')
       (refusal_new Code_Authority)"

definition receipted_pty_command :: "kernel_command \<Rightarrow> bool" where
  "receipted_pty_command command =
     (case command of
        SendPtyInput _ _ _ \<Rightarrow> True
      | ResizePtySession _ _ _ _ \<Rightarrow> True
      | StopPtySession _ _ \<Rightarrow> True
      | RequestPtySessionStart _ _ \<Rightarrow> True
      | _ \<Rightarrow> False)"

definition is_pty_input :: "kernel_command \<Rightarrow> bool" where
  "is_pty_input command = (case command of SendPtyInput _ _ _ \<Rightarrow> True | _ \<Rightarrow> False)"

definition input_preflight ::
  "json command_envelope \<Rightarrow> kernel_command \<Rightarrow> pty_input_carrier option \<Rightarrow> refusal + refusal option" where
  "input_preflight envelope command pty_input =
     (if is_pty_input command then
        Inr (case validate_pty_input_carrier command pty_input of
               Inl refusal \<Rightarrow> Some refusal
             | Inr _ \<Rightarrow> if cmd_expected_version envelope \<noteq> None then Some validation else None)
      else and_then (validate_pty_input_carrier command pty_input) (\<lambda>_. Inr None))"

definition input_binding_of ::
  "'m kernel_env_scheme \<Rightarrow> pty_input_carrier option \<Rightarrow> refusal + string option" where
  "input_binding_of env pty_input =
     (case pty_input of
        Some (Bytes bytes) \<Rightarrow>
          if se_blobs env then Inr (Some (ke_mac env (''gwk:pty-input-binding:v1'' @ [byte 0] @ bytes)))
          else Inl storage_failed
      | _ \<Rightarrow> Inr None)"

record prepared =
  pr_command :: kernel_command
  pr_refusal :: "refusal option"
  pr_route :: route
  pr_payload :: json
  pr_binding :: "string option"

definition prepare ::
  "'m kernel_env_scheme \<Rightarrow> json command_envelope \<Rightarrow> pty_input_carrier option \<Rightarrow> refusal + prepared" where
  "prepare env envelope pty_input =
     and_then (guard_that (se_permit env) (refusal_new Code_Overloaded)) (\<lambda>_.
     and_then (case accept_schema_version (cmd_schema_version envelope) ENVELOPE_SCHEMA_VERSION [] of
         Inl _ \<Rightarrow> Inl (refusal_new Code_Schema) | Inr _ \<Rightarrow> Inr ()) (\<lambda>_.
     and_then (case from_envelope (ke_decode env) envelope of
         Inl _ \<Rightarrow> Inl validation | Inr command \<Rightarrow> Inr command) (\<lambda>command.
     and_then (input_preflight envelope command pty_input) (\<lambda>refusal.
     and_then (route_of envelope command) (\<lambda>route.
     and_then (check_routing envelope route) (\<lambda>_.
     and_then (check_body_project envelope command) (\<lambda>_.
     and_then (check_activation envelope command) (\<lambda>_.
     and_then (check_authority_admin envelope command) (\<lambda>_.
     and_then (input_binding_of env pty_input) (\<lambda>binding.
       Inr \<lparr>pr_command = command, pr_refusal = refusal, pr_route = route,
            pr_payload = ke_encode env command, pr_binding = binding\<rparr>))))))))))"

end
