(* ===== verification/Gw_Submit.thy ===== *)
theory Gw_Submit
  imports Gw_Route
begin

text \<open>
  The command path (\<open>gwk-kernel/src/submit.rs\<close>): what \<open>try_submit\<close> does under the writer lock.
  \<open>decide\<close> computes the version a command expects, with the arms that read rows as definitions
  of their own. A transaction is the value \<open>Inl r\<close> when it rolls back with \<open>r\<close>, and
  \<open>Inr (outcome, db)\<close> when it commits \<open>db\<close>: a page and a receipted PTY refusal commit rows and
  still answer a refusal.
\<close>

section \<open>Receipts\<close>

definition receipt_basis :: "kernel_command \<Rightarrow> string \<Rightarrow> string" where
  "receipt_basis command basis =
     (case command of
        SendPtyInput _ _ byte_count \<Rightarrow> basis @ ''; byte_count='' @ nat_text (unat byte_count)
      | ResizePtySession _ _ cols rows \<Rightarrow>
          basis @ ''; cols='' @ nat_text (unat cols) @ ''; rows='' @ nat_text (unat rows)
      | StopPtySession _ _ \<Rightarrow> basis @ ''; stop=true''
      | RequestPtySessionStart template_name _ \<Rightarrow> basis @ ''; template='' @ template_name
      | _ \<Rightarrow> basis)"

definition receipt_id_of :: "json command_envelope \<Rightarrow> string" where
  "receipt_id_of envelope = ''receipt:'' @ cmd_project_id envelope @ '':'' @ cmd_idempotency_key envelope"

definition receipt_for ::
  "json command_envelope \<Rightarrow> route \<Rightarrow> kernel_command \<Rightarrow> string \<Rightarrow> string \<Rightarrow> receipt_row" where
  "receipt_for envelope route command action_class basis =
     \<lparr>rc_actor = cmd_actor envelope, rc_action = action_class,
      rc_subject_type = rt_aggregate_type route, rc_subject_id = rt_aggregate_id route,
      rc_from = None, rc_to = None, rc_observed_basis = Some (receipt_basis command basis),
      rc_ts = cmd_issued_at envelope\<rparr>"

section \<open>Checks under the lock\<close>

definition check_attention_dedup ::
  "'m kernel_env_scheme \<Rightarrow> kernel_command \<Rightarrow> json db \<Rightarrow> refusal + unit" where
  "check_attention_dedup env command db =
     (case command of
        RaiseAttention _ kind _ subject_ref _ _ \<Rightarrow>
          and_then (unresolved_attention env kind subject_ref db) (\<lambda>open.
            guard_that (open = None) validation)
      | _ \<Rightarrow> Inr ())"

definition admitted :: "epoch \<Rightarrow> kernel_command \<Rightarrow> bool" where
  "admitted epoch command =
     (case epoch of
        Epoch_Active \<Rightarrow> True
      | Epoch_Sealed \<Rightarrow> (case command of ActivateKernel _ _ \<Rightarrow> True | _ \<Rightarrow> False)
      | Epoch_None \<Rightarrow> False)"

definition check_second_cutover ::
  "'m kernel_env_scheme \<Rightarrow> kernel_command \<Rightarrow> epoch \<Rightarrow> json db \<Rightarrow> refusal + unit" where
  "check_second_cutover env command epoch db =
     (case command of
        ActivateKernel cutover_id _ \<Rightarrow>
          if epoch \<noteq> Epoch_Active then Inr ()
          else and_then (committed_cutover env db) (\<lambda>committed.
               and_then (ok_or storage_failed committed) (\<lambda>c.
                 Inl (with_detail (refusal_new Code_AlreadyActive)
                        (JObject [(''activated_cutover_id'', JString c)]))))
      | _ \<Rightarrow> Inr ())"

definition check_aggregate_owner ::
  "'m kernel_env_scheme \<Rightarrow> json command_envelope \<Rightarrow> route \<Rightarrow> json db \<Rightarrow> refusal + unit" where
  "check_aggregate_owner env envelope route db =
     and_then (sql env ''read aggregate owner'') (\<lambda>_.
       case sort_key aggregate_version
              (of_key (rt_aggregate_type route, rt_aggregate_id route) (pg_events db)) of
         [] \<Rightarrow> Inr ()
       | first # _ \<Rightarrow> guard_that (project_id first = cmd_project_id envelope) validation)"

definition check_expected_version :: "json command_envelope \<Rightarrow> u32 \<Rightarrow> refusal + unit" where
  "check_expected_version envelope derived =
     (case cmd_expected_version envelope of
        None \<Rightarrow> Inr ()
      | Some expected \<Rightarrow> guard_that (expected = derived) (stale_version derived expected))"

datatype prior = Prior_Unused | Prior_Replay "json event_envelope list" | Prior_Conflict

definition prior_for_key ::
  "'m kernel_env_scheme \<Rightarrow> json command_envelope \<Rightarrow> route \<Rightarrow> json \<Rightarrow> json db \<Rightarrow> refusal + prior" where
  "prior_for_key env envelope route body db =
     and_then (lift_append (events_for_key env db (cmd_project_id envelope) (rt_aggregate_type route)
                 (rt_aggregate_id route) (cmd_idempotency_key envelope))) (\<lambda>stored.
       Inr (case stored of
              [] \<Rightarrow> Prior_Unused
            | first # _ \<Rightarrow>
                if length stored = 1 \<and> project_id first = cmd_project_id envelope
                   \<and> aggregate_type first = rt_aggregate_type route
                   \<and> aggregate_id first = rt_aggregate_id route
                   \<and> actor first = cmd_actor envelope \<and> payload first = body
                then Prior_Replay stored else Prior_Conflict))"

section \<open>Deciding the expected version\<close>

definition fsm_cursor ::
  "'m kernel_env_scheme \<Rightarrow> string \<Rightarrow> 'r table \<Rightarrow> ('r \<Rightarrow> 's) \<Rightarrow> ('r \<Rightarrow> u32) \<Rightarrow> string
     \<Rightarrow> refusal + 's cursor" where
  "fsm_cursor env kind t state version i =
     and_then (sql env (''read '' @ kind)) (\<lambda>_.
     and_then (ok_or not_found (map_of t i)) (\<lambda>row.
       Inr \<lparr>cur_state = state row, cur_version = version row,
            applied_idempotency_key = None, applied_by = None\<rparr>))"

definition decide_transition ::
  "('s \<times> 's) list \<Rightarrow> 's guard \<Rightarrow> ('s \<Rightarrow> string) \<Rightarrow> 's cursor \<Rightarrow> 's \<Rightarrow> u32 \<Rightarrow> json command_envelope
     \<Rightarrow> string option \<Rightarrow> refusal + u32" where
  "decide_transition edges guard wire cursor to expected envelope receipt_id =
     (case apply_transition edges guard cursor
             \<lparr>req_to = to, req_expected_version = expected, req_actor = cmd_actor envelope,
              req_idempotency_key = None, req_receipt_id = receipt_id\<rparr> of
        Applied _ _ \<Rightarrow> Inr (cur_version cursor)
      | IllegalEdge f t \<Rightarrow> Inl (with_detail (refusal_new Code_IllegalEdge)
          (JObject [(''from'', JString (wire f)), (''to'', JString (wire t))]))
      | StaleVersion actual expected' \<Rightarrow> Inl (stale_version actual expected')
      | UnauthorizedActor _ \<Rightarrow> Inl (refusal_new Code_Authority))"

definition decide_cas ::
  "'m kernel_env_scheme \<Rightarrow> string \<Rightarrow> 'r table \<Rightarrow> ('r \<Rightarrow> u32) \<Rightarrow> string \<Rightarrow> u32 \<Rightarrow> refusal + u32" where
  "decide_cas env kind t version i expected =
     and_then (sql env (''read '' @ kind)) (\<lambda>_.
     and_then (ok_or not_found (map_of t i)) (\<lambda>row.
     and_then (guard_that (version row = expected) (stale_version (version row) expected)) (\<lambda>_.
       Inr (version row))))"

definition log_versioned ::
  "'m kernel_env_scheme \<Rightarrow> route \<Rightarrow> json db \<Rightarrow> refusal + u32" where
  "log_versioned env route db =
     lift_append (current_aggregate_version env db (rt_aggregate_type route) (rt_aggregate_id route))"

subsection \<open>Workspace nodes\<close>

definition workspace_node_kind_of ::
  "'m kernel_env_scheme \<Rightarrow> string \<Rightarrow> json db \<Rightarrow> refusal + workspace_node_kind option" where
  "workspace_node_kind_of env i db =
     and_then (sql env ''read workspace_node kind'') (\<lambda>_.
       Inr (map_option wn_kind (map_of (t_workspace_node db) i)))"

definition assert_legal_parent ::
  "'m kernel_env_scheme \<Rightarrow> workspace_node_kind \<Rightarrow> string \<Rightarrow> json db \<Rightarrow> refusal + unit" where
  "assert_legal_parent env kind parent_id db =
     and_then (workspace_node_kind_of env parent_id db) (\<lambda>found.
     and_then (ok_or validation found) (\<lambda>parent_kind.
       guard_that (case kind of
           Node_Workspace \<Rightarrow> False
         | Node_Tab \<Rightarrow> parent_kind = Node_Workspace
         | Node_Pane \<Rightarrow> parent_kind = Node_Tab \<or> parent_kind = Node_Pane) validation))"

text \<open>
  The recursive query: the rows from \<open>i\<close> upwards, searched for \<open>target\<close>. It has no cycle check of
  its own, so it is modelled with fuel, and \<open>None\<close> stands for a query that does not end.
\<close>

fun has_ancestor :: "nat \<Rightarrow> workspace_node_row table \<Rightarrow> string \<Rightarrow> string \<Rightarrow> bool option" where
  "has_ancestor 0 t i target = None"
| "has_ancestor (Suc fuel) t i target =
     (case map_of t i of
        None \<Rightarrow> Some False
      | Some row \<Rightarrow>
          if i = target then Some True
          else (case wn_parent_id row of
                  None \<Rightarrow> Some False
                | Some p \<Rightarrow> has_ancestor fuel t p target))"

definition decide_create_workspace_node where
  "decide_create_workspace_node env kind parent_id db =
     and_then (case parent_id of
         None \<Rightarrow> Inr () | Some parent \<Rightarrow> assert_legal_parent env kind parent db) (\<lambda>_. Inr (0 :: u32))"

definition decide_workspace_cas where
  "decide_workspace_cas env route expected db =
     decide_cas env ''workspace_node'' (t_workspace_node db) wn_version (rt_aggregate_id route) expected"

definition decide_move_workspace_node where
  "decide_move_workspace_node env route workspace_node_id parent_id expected db =
     and_then (workspace_node_kind_of env workspace_node_id db) (\<lambda>found.
     and_then (ok_or validation found) (\<lambda>kind.
     and_then (guard_that (kind \<noteq> Node_Workspace) validation) (\<lambda>_.
     and_then (assert_legal_parent env kind parent_id db) (\<lambda>_.
     and_then (sql env ''walk workspace ancestry'') (\<lambda>_.
     and_then (ok_or storage_failed
        (has_ancestor (Suc (length (t_workspace_node db))) (t_workspace_node db) parent_id
           workspace_node_id)) (\<lambda>cycle.
     and_then (guard_that (\<not> cycle) validation) (\<lambda>_.
       decide_workspace_cas env route expected db)))))))"

definition decide_rebind_workspace_pane where
  "decide_rebind_workspace_pane env route workspace_node_id expected db =
     and_then (workspace_node_kind_of env workspace_node_id db) (\<lambda>found.
     and_then (ok_or validation found) (\<lambda>kind.
     and_then (guard_that (kind = Node_Pane) validation) (\<lambda>_.
       decide_workspace_cas env route expected db)))"

definition decide_close_workspace_node where
  "decide_close_workspace_node env route workspace_node_id expected db =
     and_then (sql env ''check workspace children'') (\<lambda>_.
     and_then (guard_that (\<not> has_children (t_workspace_node db) workspace_node_id) validation) (\<lambda>_.
       decide_workspace_cas env route expected db))"

subsection \<open>Runs, PTY sessions and templates\<close>

definition workflow_run_state :: "'m kernel_env_scheme \<Rightarrow> string \<Rightarrow> json db \<Rightarrow> refusal + string option" where
  "workflow_run_state env i db =
     and_then (sql env ''read workflow_run state'') (\<lambda>_.
       Inr (map_option wf_state (map_of (t_workflow_run db) i)))"

definition pty_session_state :: "'m kernel_env_scheme \<Rightarrow> string \<Rightarrow> json db \<Rightarrow> refusal + string option" where
  "pty_session_state env i db =
     and_then (sql env ''read pty_session state'') (\<lambda>_.
       Inr (map_option ps_state (map_of (t_pty_session db) i)))"

definition pty_template_state :: "'m kernel_env_scheme \<Rightarrow> string \<Rightarrow> json db \<Rightarrow> refusal + string option" where
  "pty_template_state env name db =
     and_then (sql env ''read pty_session_template state'') (\<lambda>_.
       Inr (map_option pt_state (map_of (t_pty_template db) name)))"

definition pty_session_cursor ::
  "'m kernel_env_scheme \<Rightarrow> string \<Rightarrow> json db \<Rightarrow> refusal + (string \<times> string \<times> u32) option" where
  "pty_session_cursor env i db =
     and_then (sql env ''read pty_session cursor'') (\<lambda>_.
       Inr (map_option (\<lambda>r. (ps_state r, ps_generation r, ps_version r)) (map_of (t_pty_session db) i)))"

definition decide_workflow_run where
  "decide_workflow_run env route workflow_run_id expected db =
     and_then (workflow_run_state env workflow_run_id db) (\<lambda>found.
     and_then (ok_or not_found found) (\<lambda>state.
     and_then (guard_that (state = ''running'') validation) (\<lambda>_.
       decide_cas env ''workflow_run'' (t_workflow_run db) wf_version (rt_aggregate_id route) expected)))"

definition decide_pty_cas where
  "decide_pty_cas env route expected db =
     decide_cas env ''pty_session'' (t_pty_session db) ps_version (rt_aggregate_id route) expected"

definition decide_pty_attach where
  "decide_pty_attach env route pty_session_id expected db =
     and_then (pty_session_state env pty_session_id db) (\<lambda>found.
     and_then (ok_or not_found found) (\<lambda>state.
     and_then (guard_that (state = ''running'') validation) (\<lambda>_.
       decide_pty_cas env route expected db)))"

definition decide_pty_close where
  "decide_pty_close env route pty_session_id expected db =
     and_then (pty_session_state env pty_session_id db) (\<lambda>found.
     and_then (ok_or not_found found) (\<lambda>state.
     and_then (guard_that (state = ''running'' \<or> state = ''stopping'') validation) (\<lambda>_.
       decide_pty_cas env route expected db)))"

definition decide_pty_detach where
  "decide_pty_detach env route pty_session_id expected db =
     and_then (pty_session_state env pty_session_id db) (\<lambda>found.
     and_then (ok_or not_found found) (\<lambda>_.
       decide_pty_cas env route expected db))"

definition stale_generation :: "string \<Rightarrow> string \<Rightarrow> string \<Rightarrow> refusal" where
  "stale_generation presented stored state =
     with_detail (refusal_new Code_StaleVersion)
       (JObject [(''presented_generation'', JString presented),
                 (''stored_generation'', JString stored), (''state'', JString state)])"

definition decide_pty_control where
  "decide_pty_control env route generation stop db =
     and_then (pty_session_cursor env (rt_aggregate_id route) db) (\<lambda>found.
     and_then (ok_or not_found found) (\<lambda>(state, stored_generation, version).
     and_then (guard_that (stored_generation = generation
          \<and> (state = ''running'' \<or> stop \<and> state = ''stopping''))
        (stale_generation generation stored_generation state)) (\<lambda>_.
       Inr version)))"

definition decide_retire_template where
  "decide_retire_template env route template_name expected db =
     and_then (pty_template_state env template_name db) (\<lambda>found.
     and_then (ok_or not_found found) (\<lambda>state.
     and_then (guard_that (state = ''active'') validation) (\<lambda>_.
       decide_cas env ''pty_session_template'' (t_pty_template db) pt_version (rt_aggregate_id route)
         expected)))"

definition decide_start_session where
  "decide_start_session env template_name db =
     and_then (pty_template_state env template_name db) (\<lambda>found.
     and_then (ok_or not_found found) (\<lambda>state.
     and_then (guard_that (state = ''active'') validation) (\<lambda>_. Inr (0 :: u32))))"

subsection \<open>State machines and the checkpoint\<close>

definition decide_task where
  "decide_task env envelope route to expected db =
     and_then (fsm_cursor env ''task'' (t_task db) tk_state tk_version (rt_aggregate_id route)) (\<lambda>cursor.
       decide_transition task_edges default_guard task_state_str cursor to expected envelope None)"

definition decide_attempt where
  "decide_attempt env envelope route to expected receipt_id db =
     and_then (fsm_cursor env ''attempt'' (t_attempt db) at_state at_version (rt_aggregate_id route))
       (\<lambda>cursor.
       decide_transition attempt_edges attempt_guard attempt_state_str cursor to expected envelope
         receipt_id)"

definition decide_message where
  "decide_message env envelope route to expected db =
     and_then (fsm_cursor env ''message'' (t_message db) ms_state ms_version (rt_aggregate_id route))
       (\<lambda>cursor.
       decide_transition message_edges default_guard message_state_str cursor to expected envelope None)"

definition decide_command where
  "decide_command env envelope route to expected db =
     and_then (fsm_cursor env ''command'' (t_command db) cm_state cm_version (rt_aggregate_id route))
       (\<lambda>cursor.
       decide_transition command_edges default_guard command_state_str cursor to expected envelope None)"

definition decide_transition_command where
  "decide_transition_command env envelope route to expected db =
     and_then (guard_that (to \<noteq> Command_VerificationComplete) validation) (\<lambda>_.
       decide_command env envelope route to expected db)"

definition decide_attempt_cas where
  "decide_attempt_cas env route expected db =
     decide_cas env ''attempt'' (t_attempt db) at_version (rt_aggregate_id route) expected"

definition decide_lease_cas where
  "decide_lease_cas env route expected db =
     decide_cas env ''lease'' (t_lease db) le_version (rt_aggregate_id route) expected"

definition checkpoint_seq :: "'m kernel_env_scheme \<Rightarrow> string \<Rightarrow> json db \<Rightarrow> refusal + u64 option" where
  "checkpoint_seq env orchestrator_id db =
     and_then (sql env ''read checkpoint'') (\<lambda>_.
       case map_of (t_checkpoint db) orchestrator_id of
         None \<Rightarrow> Inr None
       | Some row \<Rightarrow>
           (case from_numeric_text (to_numeric_text (oc_seq (oc_body row))) of
              Inl _ \<Rightarrow> Inl storage_failed | Inr n \<Rightarrow> Inr (Some n)))"

definition stale_checkpoint :: "u64 \<Rightarrow> u64 \<Rightarrow> refusal" where
  "stale_checkpoint current presented =
     with_detail (refusal_new Code_StaleVersion)
       (JObject [(''actual'', JString (nat_text (unat current))),
                 (''presented'', JString (nat_text (unat presented)))])"

definition decide_write_checkpoint where
  "decide_write_checkpoint env route checkpoint db =
     and_then (checkpoint_seq env (rt_aggregate_id route) db) (\<lambda>found.
     and_then (case found of
         None \<Rightarrow> Inr ()
       | Some current \<Rightarrow> guard_that (current < oc_seq checkpoint)
           (stale_checkpoint current (oc_seq checkpoint))) (\<lambda>_.
       log_versioned env route db))"

definition decide ::
  "'m kernel_env_scheme \<Rightarrow> json command_envelope \<Rightarrow> kernel_command \<Rightarrow> route \<Rightarrow> json db \<Rightarrow> refusal + u32" where
  "decide env envelope command route db =
     (case command of
        ActivateKernel _ _ \<Rightarrow> Inr 1
      | CreateWorkspaceNode _ k p _ \<Rightarrow> decide_create_workspace_node env k p db
      | MoveWorkspaceNode i p x \<Rightarrow> decide_move_workspace_node env route i p x db
      | RebindWorkspacePane i _ x \<Rightarrow> decide_rebind_workspace_pane env route i x db
      | CloseWorkspaceNode i x \<Rightarrow> decide_close_workspace_node env route i x db
      | CreateTask _ _ _ _ _ _ _ \<Rightarrow> Inr 0
      | CreateAttempt _ _ _ _ _ _ _ _ _ _ \<Rightarrow> Inr 0
      | OpenEngineSession _ _ _ _ \<Rightarrow> Inr 0
      | AcquireLease _ _ _ _ _ _ _ _ _ \<Rightarrow> Inr 0
      | RegisterWorktree _ _ _ _ _ _ \<Rightarrow> Inr 0
      | RegisterDispatchNode _ _ _ _ _ \<Rightarrow> Inr 0
      | SendMessage _ _ _ _ _ _ _ _ _ \<Rightarrow> Inr 0
      | IssueCommand _ _ _ _ \<Rightarrow> Inr 0
      | OpenGate _ _ _ _ _ _ \<Rightarrow> Inr 0
      | RecordEvidence _ _ _ _ _ \<Rightarrow> Inr 0
      | RecordCostEntry _ _ _ _ _ _ _ _ _ _ _ _ _ \<Rightarrow> Inr 0
      | OpenWorkflowRun _ _ _ _ _ \<Rightarrow> Inr 0
      | OpenPtySession _ _ _ _ \<Rightarrow> Inr 0
      | DeclarePtySessionTemplate _ _ _ _ _ _ _ \<Rightarrow> Inr 0
      | GrantAuthority _ _ _ _ _ \<Rightarrow> Inr 0
      | RaiseAttention _ _ _ _ _ _ \<Rightarrow> Inr 0
      | AdvanceWorkflowRun i _ x \<Rightarrow> decide_workflow_run env route i x db
      | CloseWorkflowRun i _ x \<Rightarrow> decide_workflow_run env route i x db
      | RecordPtyAttach i x \<Rightarrow> decide_pty_attach env route i x db
      | ClosePtySession i x \<Rightarrow> decide_pty_close env route i x db
      | SendPtyInput _ g _ \<Rightarrow> decide_pty_control env route g False db
      | ResizePtySession _ g _ _ \<Rightarrow> decide_pty_control env route g False db
      | StopPtySession _ g \<Rightarrow> decide_pty_control env route g True db
      | RetirePtySessionTemplate n x \<Rightarrow> decide_retire_template env route n x db
      | RequestPtySessionStart n _ \<Rightarrow> decide_start_session env n db
      | RecordPtyDetach i x \<Rightarrow> decide_pty_detach env route i x db
      | RevokeAuthority _ _ \<Rightarrow> log_versioned env route db
      | ResolveAttention _ _ \<Rightarrow> log_versioned env route db
      | AckAttention _ \<Rightarrow> log_versioned env route db
      | MuteAttention _ _ \<Rightarrow> log_versioned env route db
      | UnmuteAttention _ \<Rightarrow> log_versioned env route db
      | TransitionTask _ to x \<Rightarrow> decide_task env envelope route to x db
      | TransitionAttempt _ to x r \<Rightarrow> decide_attempt env envelope route to x r db
      | TransitionMessage _ to x _ \<Rightarrow> decide_message env envelope route to x db
      | TransitionCommand _ to x \<Rightarrow> decide_transition_command env envelope route to x db
      | RecordCommandOutcome _ x _ \<Rightarrow>
          decide_command env envelope route Command_VerificationComplete x db
      | DecideGate _ x _ _ _ \<Rightarrow>
          decide_cas env ''gate'' (t_gate db) ga_version (rt_aggregate_id route) x
      | UpdateBudget _ x _ \<Rightarrow> decide_attempt_cas env route x db
      | RecordAttemptRuntime _ x _ _ \<Rightarrow> decide_attempt_cas env route x db
      | RecordAttemptOutcome _ x _ _ _ _ \<Rightarrow> decide_attempt_cas env route x db
      | RenewLease _ x _ \<Rightarrow> decide_lease_cas env route x db
      | ReleaseLease _ x _ \<Rightarrow> decide_lease_cas env route x db
      | ExpireLease _ x \<Rightarrow> decide_lease_cas env route x db
      | TransitionDispatchNode _ _ x \<Rightarrow>
          decide_cas env ''dispatch_node'' (t_dispatch_node db) dn_version (rt_aggregate_id route) x
      | WriteOrchestratorCheckpoint c \<Rightarrow> decide_write_checkpoint env route c db
      | CloseEngineSession _ \<Rightarrow> log_versioned env route db
      | UpdateWorktree _ _ _ _ \<Rightarrow> log_versioned env route db
      | ReleaseWorktree _ _ \<Rightarrow> log_versioned env route db
      | RecordRound _ _ _ \<Rightarrow> log_versioned env route db
      | RecordFinding _ _ _ _ _ \<Rightarrow> log_versioned env route db
      | IngestRecord _ _ _ \<Rightarrow> log_versioned env route db)"

section \<open>The event and its side rows\<close>

definition event_id_of :: "string \<Rightarrow> string \<Rightarrow> u32 \<Rightarrow> string" where
  "event_id_of aty aid v = aty @ '':'' @ aid @ '':'' @ nat_text (unat v)"

definition build_event ::
  "json command_envelope \<Rightarrow> json \<Rightarrow> route \<Rightarrow> u32 \<Rightarrow> refusal + json event_envelope" where
  "build_event envelope body route expected =
     and_then (ok_or (refusal_new Code_StaleVersion) (checked_add expected 1)) (\<lambda>v.
       Inr \<lparr>event_id = event_id_of (rt_aggregate_type route) (rt_aggregate_id route) v,
            project_id = cmd_project_id envelope,
            aggregate_type = rt_aggregate_type route,
            aggregate_id = rt_aggregate_id route,
            aggregate_version = v,
            event_type = rt_event_type route,
            schema_version = ENVELOPE_SCHEMA_VERSION,
            global_sequence = 0,
            occurred_at = cmd_issued_at envelope,
            appended_at = cmd_issued_at envelope,
            actor = cmd_actor envelope,
            origin = cmd_origin envelope,
            causation_id = cmd_causation_id envelope,
            correlation_id = cmd_correlation_id envelope,
            idempotency_key = Some (cmd_idempotency_key envelope),
            payload = body,
            payload_ref = None\<rparr>)"

fun apply_events ::
  "'m kernel_env_scheme \<Rightarrow> json event_envelope list \<Rightarrow> json db \<Rightarrow> refusal + json db" where
  "apply_events env [] db = Inr db"
| "apply_events env (e # es) db = and_then (apply_event env e db) (apply_events env es)"

definition register_delivery ::
  "'m kernel_env_scheme \<Rightarrow> json command_envelope \<Rightarrow> string option \<Rightarrow> json event_envelope list \<Rightarrow> json db
     \<Rightarrow> refusal + json db" where
  "register_delivery env envelope binding events db =
     and_then (ok_or storage_failed (case events of [] \<Rightarrow> None | e # _ \<Rightarrow> Some e)) (\<lambda>e.
     and_then (sql env ''register PTY delivery'') (\<lambda>_.
     and_then (guard_that (list_all (\<lambda>d.
          \<not> (pd_project_id d = cmd_project_id envelope
              \<and> pd_idempotency_key d = cmd_idempotency_key envelope)
          \<and> pd_command_id d \<noteq> cmd_command_id envelope \<and> pd_event_id d \<noteq> event_id e)
          (t_pty_delivery db)) storage_failed) (\<lambda>_.
       Inr (db\<lparr>t_pty_delivery := t_pty_delivery db @
              [\<lparr>pd_project_id = cmd_project_id envelope,
                pd_idempotency_key = cmd_idempotency_key envelope,
                pd_command_id = cmd_command_id envelope, pd_event_id = event_id e,
                pd_event_seq = global_sequence e, pd_input_binding = binding\<rparr>]\<rparr>))))"

section \<open>Outcomes that commit\<close>

type_synonym outcome_tx = "(refusal + json event_envelope list) \<times> json db"

definition paged ::
  "'m kernel_env_scheme \<Rightarrow> json command_envelope \<Rightarrow> kernel_command \<Rightarrow> route \<Rightarrow> string \<Rightarrow> string \<Rightarrow> json db
     \<Rightarrow> refusal + outcome_tx" where
  "paged env envelope command route action_class basis db =
     (let subject = rt_aggregate_type route @ ''/'' @ rt_aggregate_id route in
      and_then (write_receipt env (receipt_id_of envelope)
                  (receipt_for envelope route command action_class basis) db) (\<lambda>db1.
      and_then (page_attention env (''page:'' @ action_class @ '':'' @ subject)
                  (cmd_command_type envelope @ '' requires an unexpired '' @ action_class @ '' grant'')
                  subject (cmd_actor envelope) (cmd_issued_at envelope) db1) (\<lambda>db2.
      and_then (sql env ''commit'') (\<lambda>_.
        Inr (Inl (with_detail (refusal_new Code_Authority)
                    (JObject [(''action_class'', JString action_class),
                              (''subject'', JString subject)])), db2)))))"

definition receipted_pty_refusal ::
  "'m kernel_env_scheme \<Rightarrow> json command_envelope \<Rightarrow> kernel_command \<Rightarrow> route \<Rightarrow> string \<times> string \<Rightarrow> refusal
     \<Rightarrow> json db \<Rightarrow> refusal + outcome_tx" where
  "receipted_pty_refusal env envelope command route authority refusal db =
     and_then (write_receipt env (receipt_id_of envelope)
        (receipt_for envelope route command (fst authority)
           (snd authority @ ''; refused='' @ kernel_error_code_str (code refusal))) db) (\<lambda>db1.
     and_then (sql env ''commit input refusal receipt'') (\<lambda>_. Inr (Inl refusal, db1)))"

definition append_and_project ::
  "'m kernel_env_scheme \<Rightarrow> writer_state \<Rightarrow> json command_envelope \<Rightarrow> prepared \<Rightarrow> u32 \<Rightarrow> json db
     \<Rightarrow> refusal + outcome_tx" where
  "append_and_project env writer envelope p expected db =
     and_then (check_expected_version envelope expected) (\<lambda>_.
     and_then (build_event envelope (pr_payload p) (pr_route p) expected) (\<lambda>event.
     and_then (lift_append (append_locked env writer expected (ws_current_fence writer) [event] db))
       (\<lambda>(appended, db1).
     and_then (if ap_replayed appended then Inr db1
        else and_then (apply_events env (ap_events appended) db1) (\<lambda>db2.
          if receipted_pty_command (pr_command p)
          then register_delivery env envelope (pr_binding p) (ap_events appended) db2
          else Inr db2)) (\<lambda>db3.
     and_then (if ap_events appended = [] then Inr db3
        else lift_append (checkpoint_if_due env writer
               (global_sequence (last (ap_events appended))) db3)) (\<lambda>db4.
     and_then (sql env ''commit'') (\<lambda>_. Inr (Inr (ap_events appended), db4)))))))"

section \<open>The command path\<close>

definition receipt_if ::
  "'m kernel_env_scheme \<Rightarrow> json command_envelope \<Rightarrow> prepared \<Rightarrow> (string \<times> string) option \<Rightarrow> json db
     \<Rightarrow> refusal + json db" where
  "receipt_if env envelope p authority_result db =
     (case authority_result of
        None \<Rightarrow> Inr db
      | Some (action_class, basis) \<Rightarrow>
          write_receipt env (receipt_id_of envelope)
            (receipt_for envelope (pr_route p) (pr_command p) action_class basis) db)"

definition submit_decided ::
  "'m kernel_env_scheme \<Rightarrow> writer_state \<Rightarrow> json command_envelope \<Rightarrow> prepared
     \<Rightarrow> (string \<times> string) option \<Rightarrow> json db \<Rightarrow> refusal + outcome_tx" where
  "submit_decided env writer envelope p authority_result db =
     (let receipted = receipted_pty_command (pr_command p) in
      and_then (if receipted then Inr db else receipt_if env envelope p authority_result db) (\<lambda>db1.
      and_then (check_attention_dedup env (pr_command p) db1) (\<lambda>_.
      case decide env envelope (pr_command p) (pr_route p) db1 of
        Inl refusal \<Rightarrow>
          if receipted then
            and_then (ok_or storage_failed authority_result) (\<lambda>authority.
              receipted_pty_refusal env envelope (pr_command p) (pr_route p) authority refusal db1)
          else Inl refusal
      | Inr expected \<Rightarrow>
          and_then (if receipted then
              and_then (ok_or storage_failed authority_result) (\<lambda>authority.
                receipt_if env envelope p (Some authority) db1)
            else Inr db1) (\<lambda>db2.
          append_and_project env writer envelope p expected db2))))"

definition check_pty_command_id ::
  "'m kernel_env_scheme \<Rightarrow> json command_envelope \<Rightarrow> kernel_command \<Rightarrow> json db \<Rightarrow> refusal + unit" where
  "check_pty_command_id env envelope command db =
     (if receipted_pty_command command then
        and_then (sql env ''check PTY command id'') (\<lambda>_.
          guard_that (list_all (\<lambda>d. pd_command_id d \<noteq> cmd_command_id envelope) (t_pty_delivery db))
            (refusal_new Code_IdempotencyConflict))
      else Inr ())"

definition authority_subject :: "kernel_command \<Rightarrow> route \<Rightarrow> string" where
  "authority_subject command route =
     (case command of
        RequestPtySessionStart template_name _ \<Rightarrow> template_name
      | _ \<Rightarrow> rt_aggregate_id route)"

definition submit_unused ::
  "'m kernel_env_scheme \<Rightarrow> writer_state \<Rightarrow> epoch \<Rightarrow> json command_envelope \<Rightarrow> prepared \<Rightarrow> json db
     \<Rightarrow> refusal + outcome_tx" where
  "submit_unused env writer epoch envelope p db =
     and_then (check_aggregate_owner env envelope (pr_route p) db) (\<lambda>_.
     and_then (check_pty_command_id env envelope (pr_command p) db) (\<lambda>_.
     and_then (check_second_cutover env (pr_command p) epoch db) (\<lambda>_.
     and_then (evaluate env envelope
                 (classification_key (cmd_command_type envelope) (pr_command p))
                 (authority_subject (pr_command p) (pr_route p)) db) (\<lambda>decision.
     case decision of
       Page action_class basis \<Rightarrow>
         paged env envelope (pr_command p) (pr_route p) action_class basis db
     | _ \<Rightarrow> submit_decided env writer envelope p (decision_result decision) db))))"

definition check_input_binding ::
  "'m kernel_env_scheme \<Rightarrow> json command_envelope \<Rightarrow> prepared \<Rightarrow> json db \<Rightarrow> refusal + unit" where
  "check_input_binding env envelope p db =
     (if is_pty_input (pr_command p) then
        and_then (sql env ''read PTY input binding'') (\<lambda>_.
          guard_that (Option.bind (find (\<lambda>d. pd_project_id d = cmd_project_id envelope
                \<and> pd_idempotency_key d = cmd_idempotency_key envelope) (t_pty_delivery db))
              pd_input_binding = pr_binding p) (refusal_new Code_IdempotencyConflict))
      else Inr ())"

definition submit_locked ::
  "'m kernel_env_scheme \<Rightarrow> json command_envelope \<Rightarrow> prepared \<Rightarrow> json db \<Rightarrow> refusal + outcome_tx" where
  "submit_locked env envelope p db =
     and_then (sql env ''begin'') (\<lambda>_.
     and_then (lift_append (lock_writer env db)) (\<lambda>writer.
     and_then (epoch_of env db) (\<lambda>epoch.
     and_then (guard_that (admitted epoch (pr_command p)) sealed_refusal) (\<lambda>_.
     case pr_refusal p of
       Some refusal \<Rightarrow>
         receipted_pty_refusal env envelope (pr_command p) (pr_route p)
           (PTY_INPUT_ACTION_CLASS, ''request validation'') refusal db
     | None \<Rightarrow>
         and_then (prior_for_key env envelope (pr_route p) (pr_payload p) db) (\<lambda>prior.
         case prior of
           Prior_Replay events \<Rightarrow>
             and_then (check_input_binding env envelope p db) (\<lambda>_.
             and_then (sql env ''commit'') (\<lambda>_. Inr (Inr events, db)))
         | Prior_Conflict \<Rightarrow> Inl (refusal_new Code_IdempotencyConflict)
         | Prior_Unused \<Rightarrow> submit_unused env writer epoch envelope p db)))))"

record command_applied =
  ca_command_id :: string
  ca_events :: "json event_envelope list"
  ca_watermark :: u64

definition applied ::
  "'m kernel_env_scheme \<Rightarrow> json command_envelope \<Rightarrow> json event_envelope list \<Rightarrow> json db
     \<Rightarrow> refusal + command_applied" where
  "applied env envelope events db =
     and_then (lift_append (pg_watermark env db)) (\<lambda>found.
     and_then (ok_or storage_failed found) (\<lambda>watermark.
       Inr \<lparr>ca_command_id = cmd_command_id envelope, ca_events = events, ca_watermark = watermark\<rparr>))"

definition try_submit ::
  "'m kernel_env_scheme \<Rightarrow> json command_envelope \<Rightarrow> pty_input_carrier option \<Rightarrow> json db
     \<Rightarrow> (refusal + command_applied) \<times> json db" where
  "try_submit env envelope pty_input db =
     (case and_then (prepare env envelope pty_input) (\<lambda>p. submit_locked env envelope p db) of
        Inl refusal \<Rightarrow> (Inl refusal, db)
      | Inr (Inl refusal, db') \<Rightarrow> (Inl refusal, db')
      | Inr (Inr events, db') \<Rightarrow> (applied env envelope events db', db'))"

end
