(* ===== verification/Gw_Kernel.thy ===== *)
theory Gw_Kernel
  imports Gw_Submit
begin

text \<open>
  What one submission does to the database, and the states the command path can reach. A committed
  transaction either leaves rows beside the log and refuses, or answers a stored event unchanged,
  or appends one event, projects it and registers its delivery.
\<close>

section \<open>Rows written beside the log\<close>

definition receipts_grow :: "json db \<Rightarrow> json db \<Rightarrow> bool" where
  "receipts_grow db db' \<longleftrightarrow> db' = db\<lparr>t_receipt := t_receipt db'\<rparr>
     \<and> map_of (t_receipt db) \<subseteq>\<^sub>m map_of (t_receipt db')"

definition beside_log :: "json db \<Rightarrow> json db \<Rightarrow> bool" where
  "beside_log db db' \<longleftrightarrow>
     db' = db\<lparr>t_receipt := t_receipt db', t_attention_item := t_attention_item db'\<rparr>
     \<and> map_of (t_receipt db) \<subseteq>\<^sub>m map_of (t_receipt db')
     \<and> map_of (t_attention_item db) \<subseteq>\<^sub>m map_of (t_attention_item db')"

lemma sql_Inr [simp, result_simps]: "sql env c = Inr u \<longleftrightarrow> \<not> se_fails env c"
  by (simp add: sql_def result_simps)

lemma receipts_grow_refl [simp]: "receipts_grow db db"
  by (simp add: receipts_grow_def)

lemma receipts_grow_beside: "receipts_grow db db' \<Longrightarrow> beside_log db db'"
  unfolding receipts_grow_def beside_log_def
  by (cases db; cases db') simp

lemma write_receipt_Inr:
  assumes "write_receipt env i r db = Inr db'"
  shows "receipts_grow db db'"
    and "map_of (t_receipt db') i = Some (r\<lparr>rc_ts := se_timestamptz env (rc_ts r)\<rparr>)"
  using assms
  by (auto simp: write_receipt_def Let_def result_simps receipts_grow_def map_le_def
      split: option.splits)

definition page_row :: "'m kernel_env_scheme \<Rightarrow> string \<Rightarrow> string \<Rightarrow> actor \<Rightarrow> timestamp \<Rightarrow> attention_item_row" where
  "page_row env summary subject who at =
     \<lparr>an_kind = ''authority'', an_summary = summary, an_subject_ref = Some subject,
      an_raised_by = Some who, an_priority = None, an_raised_at = se_timestamptz env at,
      an_acked_at = None, an_muted_until = None, an_resolved_at = None, an_resolution = None\<rparr>"

lemma page_attention_Inr:
  "page_attention env i s subj who at db = Inr db' \<longleftrightarrow> \<not> se_fails env ''page attention''
     \<and> (if attention_dedup (t_attention_item db) ''authority'' (Some subj)
        then map_of (t_attention_item db) i = None
          \<and> db' = db\<lparr>t_attention_item := AList.update i (page_row env s subj who at) (t_attention_item db)\<rparr>
        else db' = db)"
  unfolding page_attention_def page_row_def by (simp add: result_simps) blast

lemma attention_dedup_entry:
  assumes "map_of t i = Some row" "an_kind row = k" "an_subject_ref row = Some s"
    "an_resolved_at row = None"
  shows "\<not> attention_dedup t k (Some s)"
  using map_of_SomeD [OF assms(1)] assms(2-) by (auto simp: attention_dedup_def list_all_iff)

lemma page_attention_keeps:
  assumes "page_attention env i s subj who at db = Inr db'"
  shows "db' = db\<lparr>t_attention_item := t_attention_item db'\<rparr>"
    and "map_of (t_attention_item db) \<subseteq>\<^sub>m map_of (t_attention_item db')"
    and "\<not> attention_dedup (t_attention_item db') ''authority'' (Some subj)"
proof -
  show "db' = db\<lparr>t_attention_item := t_attention_item db'\<rparr>"
    using assms by (simp add: page_attention_Inr split: if_splits)
  show "map_of (t_attention_item db) \<subseteq>\<^sub>m map_of (t_attention_item db')"
    using assms by (auto simp: page_attention_Inr map_le_def split: if_splits)
  show "\<not> attention_dedup (t_attention_item db') ''authority'' (Some subj)"
  proof (cases "attention_dedup (t_attention_item db) ''authority'' (Some subj)")
    case True
    with assms have "map_of (t_attention_item db') i = Some (page_row env s subj who at)"
      by (simp add: page_attention_Inr)
    then show ?thesis by (rule attention_dedup_entry) (simp_all add: page_row_def)
  next
    case False
    with assms show ?thesis by (simp add: page_attention_Inr)
  qed
qed

lemma paged_Inr:
  assumes "paged env envelope command route c b db = Inr (out, db')"
  shows "beside_log db db'" and "\<exists>r. out = Inl r \<and> code r = Code_Authority"
    and "map_of (t_receipt db') (receipt_id_of envelope)
           = Some ((receipt_for envelope route command c b)
               \<lparr>rc_ts := se_timestamptz env (cmd_issued_at envelope)\<rparr>)"
    and "\<not> attention_dedup (t_attention_item db') ''authority''
           (Some (rt_aggregate_type route @ ''/'' @ rt_aggregate_id route))"
proof -
  from assms obtain db1 where
    1: "write_receipt env (receipt_id_of envelope) (receipt_for envelope route command c b) db = Inr db1"
    and 2: "page_attention env (''page:'' @ c @ '':'' @ rt_aggregate_type route @ ''/'' @ rt_aggregate_id route)
        (cmd_command_type envelope @ '' requires an unexpired '' @ c @ '' grant'')
        (rt_aggregate_type route @ ''/'' @ rt_aggregate_id route) (cmd_actor envelope)
        (cmd_issued_at envelope) db1 = Inr db'"
    and 3: "out = Inl (with_detail (refusal_new Code_Authority)
          (JObject [(''action_class'', JString c),
             (''subject'', JString (rt_aggregate_type route @ ''/'' @ rt_aggregate_id route))]))"
    by (auto simp: paged_def Let_def result_simps)
  note r = write_receipt_Inr [OF 1] and p = page_attention_keeps [OF 2]
  from r(1) p(1,2) show "beside_log db db'"
    unfolding receipts_grow_def beside_log_def by (cases db; cases db1; cases db') simp
  from 3 show "\<exists>r. out = Inl r \<and> code r = Code_Authority"
    by (simp add: with_detail_def refusal_new_def)
  have "t_receipt db' = t_receipt db1" using arg_cong [OF p(1), of t_receipt] by simp
  with r(2) show "map_of (t_receipt db') (receipt_id_of envelope)
           = Some ((receipt_for envelope route command c b)
               \<lparr>rc_ts := se_timestamptz env (cmd_issued_at envelope)\<rparr>)"
    by (simp add: receipt_for_def)
  show "\<not> attention_dedup (t_attention_item db') ''authority''
      (Some (rt_aggregate_type route @ ''/'' @ rt_aggregate_id route))" by (rule p(3))
qed

lemma receipted_pty_refusal_Inr:
  assumes "receipted_pty_refusal env envelope command route a r db = Inr (out, db')"
  shows "receipts_grow db db'" and "out = Inl r"
  using assms by (auto simp: receipted_pty_refusal_def result_simps dest: write_receipt_Inr(1))

section \<open>What the projector and the decision do not look at\<close>

lemmas project_defs =
  project_create_task_def project_transition_task_def project_create_attempt_def
  update_attempt_def project_transition_attempt_def project_update_budget_def
  project_record_attempt_runtime_def project_record_attempt_outcome_def
  project_advance_attempt_def project_open_engine_session_def project_close_engine_session_def
  project_acquire_lease_def update_lease_def project_renew_lease_def project_release_lease_def
  project_expire_lease_def project_register_worktree_def project_update_worktree_def
  project_release_worktree_def project_register_dispatch_node_def
  project_transition_dispatch_node_def project_write_checkpoint_def project_send_message_def
  project_transition_message_def project_issue_command_def project_transition_command_def
  project_record_command_outcome_def project_open_gate_def project_decide_gate_def
  project_record_evidence_def project_record_cost_entry_def project_grant_authority_def
  project_revoke_authority_def project_raise_attention_def project_resolve_attention_def
  update_attention_def project_ack_attention_def project_mute_attention_def
  project_unmute_attention_def project_create_workspace_node_def project_move_workspace_node_def
  project_rebind_workspace_pane_def project_close_workspace_node_def project_open_workflow_run_def
  project_advance_workflow_run_def project_close_workflow_run_def project_open_pty_session_def
  update_pty_session_def project_record_pty_attach_def project_record_pty_detach_def
  project_send_pty_input_def project_resize_pty_session_def project_stop_pty_session_def
  project_close_pty_session_def project_declare_pty_template_def project_retire_pty_template_def
  project_ingest_record_def

lemmas decide_defs =
  fsm_cursor_def decide_transition_def decide_cas_def log_versioned_def workspace_node_kind_of_def
  assert_legal_parent_def decide_create_workspace_node_def decide_workspace_cas_def
  decide_move_workspace_node_def decide_rebind_workspace_pane_def decide_close_workspace_node_def
  workflow_run_state_def pty_session_state_def pty_template_state_def pty_session_cursor_def
  decide_workflow_run_def decide_pty_cas_def decide_pty_attach_def decide_pty_close_def
  decide_pty_detach_def decide_pty_control_def decide_retire_template_def decide_start_session_def
  decide_task_def decide_attempt_def decide_message_def decide_command_def
  decide_transition_command_def decide_attempt_cas_def decide_lease_cas_def checkpoint_seq_def
  decide_write_checkpoint_def

definition frame ::
  "json event_envelope list \<Rightarrow> writer_row option \<Rightarrow> receipt_row table \<Rightarrow> pty_delivery_row list
     \<Rightarrow> json db \<Rightarrow> json db" where
  "frame es w rs ds db = db\<lparr>pg_events := es, pg_writer := w, t_receipt := rs, t_pty_delivery := ds\<rparr>"

lemma map_sum_and_then: "map_sum id F (and_then X g) = and_then X (\<lambda>x. map_sum id F (g x))"
  by (cases X) simp_all

lemma apply_command_frame:
  "apply_command env e c (frame es w rs ds db) = map_sum id (frame es w rs ds) (apply_command env e c db)"
  by (cases c; cases db)
    (simp_all add: apply_command_def Let_def project_defs frame_def map_sum_and_then split: option.split)

lemma apply_event_frame:
  "apply_event env e (frame es w rs ds db) = map_sum id (frame es w rs ds) (apply_event env e db)"
  by (simp add: apply_event_def apply_command_frame map_sum_and_then)

lemma decide_receipts: "decide env e c r (db\<lparr>t_receipt := x\<rparr>) = decide env e c r db"
  by (cases c)
    (simp_all add: decide_def decide_defs current_aggregate_version_def cong: option.case_cong)

lemma decide_receipts_grow:
  "receipts_grow db db' \<Longrightarrow> decide env e c r db' = decide env e c r db"
  unfolding receipts_grow_def by (metis decide_receipts)

section \<open>A committed transaction\<close>

text \<open>
  The event a submission lands: its row is appended, projected, and for a PTY control registered
  for delivery.
\<close>

definition landed ::
  "'m kernel_env_scheme \<Rightarrow> json command_envelope \<Rightarrow> prepared \<Rightarrow> u32 \<Rightarrow> json event_envelope \<Rightarrow> json db
     \<Rightarrow> json db \<Rightarrow> bool" where
  "landed env envelope p v row db db' \<longleftrightarrow>
     (\<exists>event q db1 db2.
        build_event envelope (pr_payload p) (pr_route p) v = Inr event
        \<and> log_version (rt_aggregate_type (pr_route p), rt_aggregate_id (pr_route p)) (pg_events db) = v
        \<and> row = stored_row env q event \<and> event_row_allowed (pg_events db) row
        \<and> apply_event env row db = Inr db1
        \<and> (if receipted_pty_command (pr_command p)
           then register_delivery env envelope (pr_binding p) [row] db1 = Inr db2 else db2 = db1)
        \<and> db' = db2\<lparr>pg_events := pg_events db @ [row], pg_writer := pg_writer db'\<rparr>)"

lemma build_event_Inr:
  assumes "build_event envelope body route v = Inr event"
  shows "agg_key_of event = (rt_aggregate_type route, rt_aggregate_id route)"
    "aggregate_type event = rt_aggregate_type route" "aggregate_id event = rt_aggregate_id route"
    "project_id event = cmd_project_id envelope" "actor event = cmd_actor envelope"
    "idempotency_key event = Some (cmd_idempotency_key envelope)" "payload event = body"
    "event_type event = rt_event_type route"
    "event_id event = event_id_of (rt_aggregate_type route) (rt_aggregate_id route) (aggregate_version event)"
    "unat (aggregate_version event) = Suc (unat v)" "aggregate_version event = v + 1"
  using assms
  by (auto simp: build_event_def result_simps agg_key_of_def dest: checked_add_unat)
    (auto simp: checked_add_def split: if_splits)

lemma frame_self [simp]: "frame (pg_events db) (pg_writer db) (t_receipt db) (t_pty_delivery db) db = db"
  by (simp add: frame_def)

lemma frame_sel [simp]:
  "pg_events (frame es w rs ds db) = es" "pg_writer (frame es w rs ds db) = w"
  "t_receipt (frame es w rs ds db) = rs" "t_pty_delivery (frame es w rs ds db) = ds"
  by (simp_all add: frame_def)

lemma apply_event_keeps:
  assumes "apply_event env e db = Inr db'"
  shows "pg_events db' = pg_events db" "pg_writer db' = pg_writer db" "t_receipt db' = t_receipt db"
    "t_pty_delivery db' = t_pty_delivery db"
proof -
  from assms apply_event_frame [of env e "pg_events db" "pg_writer db" "t_receipt db" "t_pty_delivery db" db]
  have "db' = frame (pg_events db) (pg_writer db) (t_receipt db) (t_pty_delivery db) db'" by simp
  then show "pg_events db' = pg_events db" "pg_writer db' = pg_writer db" "t_receipt db' = t_receipt db"
    "t_pty_delivery db' = t_pty_delivery db" by (metis frame_sel)+
qed

lemma map_sum_Inr: "map_sum id F X = Inr y \<longleftrightarrow> (\<exists>x. X = Inr x \<and> y = F x)"
  by (cases X) auto

lemma append_one:
  assumes app: "append_locked env w v f [event] db = Inr (ap, db1)"
    and unused: "\<forall>e \<in> set (pg_events db). agg_key_of e = agg_key_of event
        \<longrightarrow> idempotency_key e \<noteq> idempotency_key event"
  obtains q row wr where "\<not> ap_replayed ap" "ap_events ap = [row]" "row = stored_row env q event"
    "event_row_allowed (pg_events db) row" "log_version (agg_key_of event) (pg_events db) = v"
    "db1 = db\<lparr>pg_events := pg_events db @ [row], pg_writer := wr\<rparr>"
  using app
proof (cases rule: append_locked_cases)
  case replay
  from replay_lookup_Some(1,4) [OF replay(3)] have "keyed_rows [event] (pg_events db) \<noteq> []"
    by (metis sort_key_simps(1))
  then obtain e where "e \<in> set (pg_events db)" "agg_key_of e = agg_key_of event"
      "idempotency_key e = idempotency_key event"
    by (auto simp: keyed_rows_def filter_empty_conv List.map_filter_def split: option.splits if_splits)
  with unused show thesis by blast
next
  case (fresh st1 adv)
  then obtain q row where "insert_event env q event db = Inr (row, st1)" "ap_events ap = [row]"
    by (auto simp: result_simps split: prod.splits)
  with fresh show thesis by (intro that) (auto simp: insert_event_Inr)
qed

lemma register_delivery_Inr:
  "register_delivery env envelope b es db = Inr db' \<longleftrightarrow>
     (\<exists>e more. es = e # more \<and> \<not> se_fails env ''register PTY delivery''
        \<and> (\<forall>d \<in> set (t_pty_delivery db).
            \<not> (pd_project_id d = cmd_project_id envelope
               \<and> pd_idempotency_key d = cmd_idempotency_key envelope)
            \<and> pd_command_id d \<noteq> cmd_command_id envelope \<and> pd_event_id d \<noteq> event_id e)
        \<and> db' = db\<lparr>t_pty_delivery := t_pty_delivery db @
            [\<lparr>pd_project_id = cmd_project_id envelope, pd_idempotency_key = cmd_idempotency_key envelope,
              pd_command_id = cmd_command_id envelope, pd_event_id = event_id e,
              pd_event_seq = global_sequence e, pd_input_binding = b\<rparr>]\<rparr>)"
  unfolding register_delivery_def list_all_iff
  by (cases es) (simp_all add: result_simps, blast)

lemma checkpoint_if_due_Inr:
  assumes "checkpoint_if_due env w n st = Inr st'"
  shows "st' = st\<lparr>pg_writer := pg_writer st'\<rparr>" and "pg_good st \<Longrightarrow> pg_good st'"
  using assms
  by (auto simp: checkpoint_if_due_def result_simps pg_good_def split: if_splits option.splits)

lemma pg_good_cong:
  assumes "pg_events a = pg_events b" "pg_writer a = pg_writer b"
  shows "pg_good a \<longleftrightarrow> pg_good b"
  using assms by (cases "pg_writer b") (simp_all add: pg_good_def)

lemma append_and_project_Inr:
  assumes run: "append_and_project env w envelope p v db = Inr (out, db')"
    and lock: "lock_writer env db = Inr w" and good: "pg_good db"
    and unused: "\<forall>e \<in> set (pg_events db). agg_key_of e
          = (rt_aggregate_type (pr_route p), rt_aggregate_id (pr_route p))
        \<longrightarrow> idempotency_key e \<noteq> Some (cmd_idempotency_key envelope)"
  obtains row where "out = Inr [row]" "landed env envelope p v row db db'" "pg_good db'"
    "check_expected_version envelope v = Inr ()"
proof -
  from run obtain event ap db1 db3 where
    ver: "check_expected_version envelope v = Inr ()"
    and ev: "build_event envelope (pr_payload p) (pr_route p) v = Inr event"
    and app: "append_locked env w v (ws_current_fence w) [event] db = Inr (ap, db1)"
    and proj: "(if ap_replayed ap then Inr db1
        else and_then (apply_events env (ap_events ap) db1) (\<lambda>db2.
          if receipted_pty_command (pr_command p)
          then register_delivery env envelope (pr_binding p) (ap_events ap) db2
          else Inr db2)) = Inr db3"
    and cp: "(if ap_events ap = [] then Inr db3
        else lift_append (checkpoint_if_due env w (global_sequence (last (ap_events ap))) db3)) = Inr db'"
    and out: "out = Inr (ap_events ap)"
    by (auto simp: append_and_project_def result_simps)
  from unused build_event_Inr(1,6) [OF ev]
  have "\<forall>e \<in> set (pg_events db). agg_key_of e = agg_key_of event
      \<longrightarrow> idempotency_key e \<noteq> idempotency_key event" by simp
  then obtain q row wr where fresh: "\<not> ap_replayed ap" "ap_events ap = [row]" "row = stored_row env q event"
    "event_row_allowed (pg_events db) row" "log_version (agg_key_of event) (pg_events db) = v"
    and db1: "db1 = db\<lparr>pg_events := pg_events db @ [row], pg_writer := wr\<rparr>"
    by (rule append_one [OF app])
  have good1: "pg_good db1" by (rule append_locked_good(1) [OF good lock app])
  define F where "F = frame (pg_events db @ [row]) wr (t_receipt db) (t_pty_delivery db)"
  have "db1 = F db" by (simp add: db1 F_def frame_def)
  have "and_then (apply_events env [row] (F db)) (\<lambda>db2. if receipted_pty_command (pr_command p)
          then register_delivery env envelope (pr_binding p) [row] db2 else Inr db2) = Inr db3"
    using proj fresh(1) unfolding fresh(2) \<open>db1 = F db\<close> by simp
  then obtain dbB where "apply_events env [row] (F db) = Inr dbB"
    and reg: "(if receipted_pty_command (pr_command p)
          then register_delivery env envelope (pr_binding p) [row] dbB else Inr dbB) = Inr db3"
    unfolding and_then_Inr by blast
  then have B: "apply_event env row (F db) = Inr dbB" by (simp add: and_then_Inr)
  from B obtain dbA where A: "apply_event env row db = Inr dbA" "dbB = F dbA"
    by (auto simp: F_def apply_event_frame map_sum_Inr)
  note keep = apply_event_keeps [OF A(1)]
  from cp fresh(2) have cp': "checkpoint_if_due env w (global_sequence row) db3 = Inr db'" by simp
  note c = checkpoint_if_due_Inr [OF cp']
  have good3: "pg_good db3"
  proof -
    have "pg_events db3 = pg_events db1 \<and> pg_writer db3 = pg_writer db1"
      using reg A(2) by (auto simp: F_def db1 register_delivery_Inr split: if_splits)
    with good1 show ?thesis using pg_good_cong [of db3 db1] by blast
  qed
  have "\<exists>db2. (if receipted_pty_command (pr_command p)
      then register_delivery env envelope (pr_binding p) [row] dbA = Inr db2 else db2 = dbA)
      \<and> db3 = db2\<lparr>pg_events := pg_events db @ [row], pg_writer := wr\<rparr>"
  proof (cases "receipted_pty_command (pr_command p)")
    case True
    with reg A(2) keep show ?thesis
      by (auto simp: register_delivery_Inr F_def frame_def)
  next
    case False
    with reg A(2) keep show ?thesis by (auto simp: F_def frame_def)
  qed
  then obtain db2 where db2: "if receipted_pty_command (pr_command p)
      then register_delivery env envelope (pr_binding p) [row] dbA = Inr db2 else db2 = dbA"
    and db3: "db3 = db2\<lparr>pg_events := pg_events db @ [row], pg_writer := wr\<rparr>" by blast
  from c(1) db3 have "db' = db2\<lparr>pg_events := pg_events db @ [row], pg_writer := pg_writer db'\<rparr>" by simp
  with ev fresh A(1) db2 have "landed env envelope p v row db db'"
    unfolding landed_def using build_event_Inr(1) [OF ev] by auto
  with that out fresh(2) ver c(2) [OF good3] show thesis by simp
qed

lemma receipts_grow_trans: "receipts_grow a b \<Longrightarrow> receipts_grow b c \<Longrightarrow> receipts_grow a c"
  unfolding receipts_grow_def by (cases a; cases b; cases c) (auto intro: map_le_trans)

lemma receipts_grow_fields:
  assumes "receipts_grow db db'"
  shows "pg_events db' = pg_events db" "pg_writer db' = pg_writer db"
    "t_attention_item db' = t_attention_item db" "t_pty_delivery db' = t_pty_delivery db"
proof -
  from assms have eq: "db' = db\<lparr>t_receipt := t_receipt db'\<rparr>" by (simp add: receipts_grow_def)
  show "t_pty_delivery db' = t_pty_delivery db" using arg_cong [OF eq, of t_pty_delivery] by simp
  show "pg_events db' = pg_events db" using arg_cong [OF eq, of pg_events] by simp
  show "pg_writer db' = pg_writer db" using arg_cong [OF eq, of pg_writer] by simp
  show "t_attention_item db' = t_attention_item db" using arg_cong [OF eq, of t_attention_item] by simp
qed

definition receipt_due ::
  "'m kernel_env_scheme \<Rightarrow> json command_envelope \<Rightarrow> prepared \<Rightarrow> (string \<times> string) option \<Rightarrow> json db \<Rightarrow> bool" where
  "receipt_due env envelope p ar db =
     (case ar of
        None \<Rightarrow> True
      | Some (c, b) \<Rightarrow> map_of (t_receipt db) (receipt_id_of envelope)
          = Some ((receipt_for envelope (pr_route p) (pr_command p) c b)
                    \<lparr>rc_ts := se_timestamptz env (cmd_issued_at envelope)\<rparr>))"

lemma receipt_if_Inr:
  assumes "receipt_if env envelope p ar db = Inr db'"
  shows "receipts_grow db db'" "receipt_due env envelope p ar db'"
  using assms
  by (auto simp: receipt_if_def receipt_due_def receipt_for_def dest: write_receipt_Inr
      split: option.splits prod.splits)

lemma submit_decided_Inr:
  assumes run: "submit_decided env w envelope p ar db = Inr (out, db')"
  obtains (refused) r where "out = Inl r" "receipts_grow db db'" "receipted_pty_command (pr_command p)"
    | (went) v db1 where "receipts_grow db db1" "receipt_due env envelope p ar db1"
        "decide env envelope (pr_command p) (pr_route p) db = Inr v"
        "append_and_project env w envelope p v db1 = Inr (out, db')"
proof (cases "receipted_pty_command (pr_command p)")
  case True
  show thesis
  proof (cases "decide env envelope (pr_command p) (pr_route p) db")
    case (Inl r)
    with True run obtain a where
      "receipted_pty_refusal env envelope (pr_command p) (pr_route p) a r db = Inr (out, db')"
      by (auto simp: submit_decided_def result_simps)
    with True show thesis by (intro refused) (auto dest: receipted_pty_refusal_Inr)
  next
    case (Inr v)
    with True run obtain a db1 where "ar = Some a" "receipt_if env envelope p (Some a) db = Inr db1"
      "append_and_project env w envelope p v db1 = Inr (out, db')"
      by (auto simp: submit_decided_def result_simps)
    with Inr show thesis by (intro went [of db1 v]) (auto dest: receipt_if_Inr)
  qed
next
  case False
  then have "submit_decided env w envelope p ar db = and_then (receipt_if env envelope p ar db) (\<lambda>db1.
      and_then (check_attention_dedup env (pr_command p) db1) (\<lambda>_.
      and_then (decide env envelope (pr_command p) (pr_route p) db1) (\<lambda>v.
        append_and_project env w envelope p v db1)))"
    by (simp add: submit_decided_def and_then_def cong: sum.case_cong)
  with run obtain db1 v where r: "receipt_if env envelope p ar db = Inr db1"
    and rest: "decide env envelope (pr_command p) (pr_route p) db1 = Inr v"
      "append_and_project env w envelope p v db1 = Inr (out, db')"
    by (auto simp: result_simps)
  from receipt_if_Inr [OF r] rest
  show thesis by (intro went [of db1 v]) (simp_all add: decide_receipts_grow)
qed

lemma sort_key_Nil: "sort_key f xs = [] \<longleftrightarrow> xs = []"
  by (metis set_empty set_sort)

lemma prior_unused:
  assumes "prior_for_key env envelope route body db = Inr Prior_Unused"
    and "e \<in> set (pg_events db)" and "idempotency_key e = Some (cmd_idempotency_key envelope)"
  shows "project_id e \<noteq> cmd_project_id envelope"
    and "agg_key_of e \<noteq> (rt_aggregate_type route, rt_aggregate_id route)"
proof -
  let ?P = "\<lambda>e. idempotency_key e = Some (cmd_idempotency_key envelope)
     \<and> (project_id e = cmd_project_id envelope
        \<or> agg_key_of e = (rt_aggregate_type route, rt_aggregate_id route))"
  from assms(1) have "events_for_key env db (cmd_project_id envelope) (rt_aggregate_type route)
      (rt_aggregate_id route) (cmd_idempotency_key envelope) = Inr []"
  proof (cases "events_for_key env db (cmd_project_id envelope) (rt_aggregate_type route)
      (rt_aggregate_id route) (cmd_idempotency_key envelope)")
    case (Inl x)
    with assms(1) show ?thesis by (simp add: prior_for_key_def lift_append_def)
  next
    case (Inr stored)
    with assms(1) show ?thesis
      by (cases stored) (simp_all add: prior_for_key_def lift_append_def split: if_splits)
  qed
  then have "sort_key global_sequence (filter ?P (pg_events db)) = []"
    unfolding events_for_key_def and_then_Inr by blast
  then have "filter ?P (pg_events db) = []" by (rule sort_key_Nil [THEN iffD1])
  with assms(2,3) show "project_id e \<noteq> cmd_project_id envelope"
    and "agg_key_of e \<noteq> (rt_aggregate_type route, rt_aggregate_id route)"
    by (auto simp: filter_empty_conv)
qed

lemma submit_locked_cases:
  assumes run: "submit_locked env envelope p db = Inr (out, db')" and good: "pg_good db"
  obtains (refused) r where "out = Inl r" "beside_log db db'"
    | (replayed) events where "out = Inr events" "db' = db"
        "prior_for_key env envelope (pr_route p) (pr_payload p) db = Inr (Prior_Replay events)"
    | (landed) epoch decision v row db1 where "out = Inr [row]" "pg_good db'"
        "epoch_of env db = Inr epoch" "admitted epoch (pr_command p)"
        "prior_for_key env envelope (pr_route p) (pr_payload p) db = Inr Prior_Unused"
        "check_aggregate_owner env envelope (pr_route p) db = Inr ()"
        "check_second_cutover env (pr_command p) epoch db = Inr ()"
        "evaluate env envelope (classification_key (cmd_command_type envelope) (pr_command p))
           (authority_subject (pr_command p) (pr_route p)) db = Inr decision"
        "\<forall>c b. decision \<noteq> Page c b" "receipts_grow db db1"
        "receipt_due env envelope p (decision_result decision) db1"
        "decide env envelope (pr_command p) (pr_route p) db = Inr v"
        "check_expected_version envelope v = Inr ()" "landed env envelope p v row db1 db'"
proof -
  from run obtain w epoch where lock: "lock_writer env db = Inr w" and ep: "epoch_of env db = Inr epoch"
    and adm: "admitted epoch (pr_command p)"
    and rest: "(case pr_refusal p of
       Some refusal \<Rightarrow>
         receipted_pty_refusal env envelope (pr_command p) (pr_route p)
           (PTY_INPUT_ACTION_CLASS, ''request validation'') refusal db
     | None \<Rightarrow>
         and_then (prior_for_key env envelope (pr_route p) (pr_payload p) db) (\<lambda>prior.
         case prior of
           Prior_Replay events \<Rightarrow>
             and_then (check_input_binding env envelope p db) (\<lambda>_.
             and_then (sql env ''commit'') (\<lambda>_. Inr (Inr events, db)))
         | Prior_Conflict \<Rightarrow> Inl (refusal_new Code_IdempotencyConflict)
         | Prior_Unused \<Rightarrow> submit_unused env w epoch envelope p db)) = Inr (out, db')"
    unfolding submit_locked_def by (simp add: result_simps) blast
  show thesis
  proof (cases "pr_refusal p")
    case (Some r)
    with rest have r: "receipted_pty_refusal env envelope (pr_command p) (pr_route p)
        (PTY_INPUT_ACTION_CLASS, ''request validation'') r db = Inr (out, db')" by simp
    show thesis
      by (rule refused [OF receipted_pty_refusal_Inr(2) [OF r]
            receipts_grow_beside [OF receipted_pty_refusal_Inr(1) [OF r]]])
  next
    case None
    with rest obtain prior where prior: "prior_for_key env envelope (pr_route p) (pr_payload p) db = Inr prior"
      and rest': "(case prior of
           Prior_Replay events \<Rightarrow>
             and_then (check_input_binding env envelope p db) (\<lambda>_.
             and_then (sql env ''commit'') (\<lambda>_. Inr (Inr events, db)))
         | Prior_Conflict \<Rightarrow> Inl (refusal_new Code_IdempotencyConflict)
         | Prior_Unused \<Rightarrow> submit_unused env w epoch envelope p db) = Inr (out, db')"
      by (auto simp: result_simps)
    show thesis
    proof (cases prior)
      case (Prior_Replay events)
      with rest' prior show thesis by (intro replayed) (auto simp: result_simps)
    next
      case Prior_Conflict
      with rest' show thesis by simp
    next
      case Prior_Unused
      with rest' obtain d where own: "check_aggregate_owner env envelope (pr_route p) db = Inr ()"
        and cut: "check_second_cutover env (pr_command p) epoch db = Inr ()"
        and d: "evaluate env envelope (classification_key (cmd_command_type envelope) (pr_command p))
           (authority_subject (pr_command p) (pr_route p)) db = Inr d"
        and run': "(case d of
             Page action_class basis \<Rightarrow>
               paged env envelope (pr_command p) (pr_route p) action_class basis db
           | _ \<Rightarrow> submit_decided env w envelope p (decision_result d) db) = Inr (out, db')"
        by (auto simp: submit_unused_def result_simps)
      show thesis
      proof (cases "\<exists>c b. d = Page c b")
        case True
        with run' obtain c b where "paged env envelope (pr_command p) (pr_route p) c b db = Inr (out, db')"
          by auto
        from paged_Inr(1,2) [OF this] show thesis using refused by blast
      next
        case False
        with run' have "submit_decided env w envelope p (decision_result d) db = Inr (out, db')"
          by (auto split: decision.splits)
        then show thesis
        proof (cases rule: submit_decided_Inr)
          case (refused r)
          then show thesis by (intro that(1)) (auto intro: receipts_grow_beside)
        next
          case (went v db1)
          note same = receipts_grow_fields [OF went(1)]
          have unused: "prior_for_key env envelope (pr_route p) (pr_payload p) db = Inr Prior_Unused"
            using prior Prior_Unused by simp
          have lock1: "lock_writer env db1 = Inr w"
            using lock same by (simp add: lock_writer_def)
          have good1: "pg_good db1" using good same pg_good_cong [of db1 db] by blast
          have "\<forall>e \<in> set (pg_events db1). agg_key_of e
              = (rt_aggregate_type (pr_route p), rt_aggregate_id (pr_route p))
              \<longrightarrow> idempotency_key e \<noteq> Some (cmd_idempotency_key envelope)"
            unfolding same using prior_unused(2) [OF unused] by blast
          from append_and_project_Inr [OF went(4) lock1 good1 this]
          obtain row where "out = Inr [row]" "landed env envelope p v row db1 db'" "pg_good db'"
            "check_expected_version envelope v = Inr ()" by blast
          with that(3) [OF _ _ ep adm unused own cut d] False went(1-3) show thesis by blast
        qed
      qed
    qed
  qed
qed

section \<open>One submission\<close>

text \<open>
  The body of the event is the command as \<open>serde\<close> renders it and \<open>jsonb\<close> keeps it; what the command
  path relies on is that reading it back gives the command that was submitted.
\<close>

definition wire_ok :: "'m kernel_env_scheme \<Rightarrow> json command_envelope \<Rightarrow> bool" where
  "wire_ok env envelope \<longleftrightarrow>
     (\<forall>c. from_envelope (ke_decode env) envelope = Inr c
        \<longrightarrow> ke_decode env (se_jsonb env (ke_encode env c)) = Some c)"

definition prepared_ok :: "'m kernel_env_scheme \<Rightarrow> json command_envelope \<Rightarrow> prepared \<Rightarrow> bool" where
  "prepared_ok env envelope p \<longleftrightarrow>
     from_envelope (ke_decode env) envelope = Inr (pr_command p)
     \<and> route_of envelope (pr_command p) = Inr (pr_route p)
     \<and> check_body_project envelope (pr_command p) = Inr ()
     \<and> check_activation envelope (pr_command p) = Inr ()
     \<and> check_authority_admin envelope (pr_command p) = Inr ()
     \<and> pr_payload p = ke_encode env (pr_command p)"

lemma prepare_Inr: "prepare env envelope carrier = Inr p \<Longrightarrow> prepared_ok env envelope p"
  unfolding prepare_def and_then_Inr prepared_ok_def
  by (elim exE conjE) (auto split: sum.splits)

definition projected_as ::
  "'m kernel_env_scheme \<Rightarrow> json event_envelope \<Rightarrow> kernel_command \<Rightarrow> json db \<Rightarrow> json db \<Rightarrow> bool" where
  "projected_as env row c db db' \<longleftrightarrow>
     (\<exists>dbA. apply_command env row c db = Inr dbA
        \<and> db' = frame (pg_events db @ [row]) (pg_writer db') (t_receipt db') (t_pty_delivery db') dbA)
     \<and> map_of (t_receipt db) \<subseteq>\<^sub>m map_of (t_receipt db')
     \<and> (\<exists>ds. t_pty_delivery db' = t_pty_delivery db @ ds)"

lemma receipts_growE:
  assumes "receipts_grow db db'"
  obtains rs where "db' = db\<lparr>t_receipt := rs\<rparr>" "map_of (t_receipt db) \<subseteq>\<^sub>m map_of rs"
  using assms unfolding receipts_grow_def by blast

lemma landed_projected:
  assumes land: "landed env envelope p v row db1 db'" and grow: "receipts_grow db db1"
    and prep: "prepared_ok env envelope p" and wire: "wire_ok env envelope"
  shows "projected_as env row (pr_command p) db db'"
proof -
  from land obtain event q dbB db2 where
    ev: "build_event envelope (pr_payload p) (pr_route p) v = Inr event"
    and row: "row = stored_row env q event"
    and B: "apply_event env row db1 = Inr dbB"
    and reg: "if receipted_pty_command (pr_command p)
           then register_delivery env envelope (pr_binding p) [row] dbB = Inr db2 else db2 = dbB"
    and db': "db' = db2\<lparr>pg_events := pg_events db1 @ [row], pg_writer := pg_writer db'\<rparr>"
    unfolding landed_def by blast
  have "payload row = se_jsonb env (ke_encode env (pr_command p))"
    using prep build_event_Inr(7) [OF ev] by (simp add: row stored_row_def prepared_ok_def)
  moreover have "ke_decode env (se_jsonb env (ke_encode env (pr_command p))) = Some (pr_command p)"
    using wire prep by (simp add: wire_ok_def prepared_ok_def)
  ultimately have "apply_command env row (pr_command p) db1 = Inr dbB"
    using B by (simp add: apply_event_def)
  moreover have db1: "db1 = frame (pg_events db) (pg_writer db) (t_receipt db1) (t_pty_delivery db) db"
    by (rule receipts_growE [OF grow]) (simp add: frame_def)
  ultimately have "map_sum id (frame (pg_events db) (pg_writer db) (t_receipt db1) (t_pty_delivery db))
      (apply_command env row (pr_command p) db) = Inr dbB"
    unfolding apply_command_frame [symmetric] by simp
  then obtain dbA where A: "apply_command env row (pr_command p) db = Inr dbA"
    and dbB: "dbB = frame (pg_events db) (pg_writer db) (t_receipt db1) (t_pty_delivery db) dbA"
    unfolding map_sum_Inr by blast
  have "pg_events db1 = pg_events db" by (rule receipts_grow_fields(1) [OF grow])
  have "\<exists>ds. db2 = dbB\<lparr>t_pty_delivery := t_pty_delivery dbB @ ds\<rparr>"
  proof (cases "receipted_pty_command (pr_command p)")
    case True
    with reg show ?thesis by (auto simp: register_delivery_Inr)
  next
    case False
    with reg show ?thesis by (intro exI [of _ "[]"]) simp
  qed
  then obtain ds where db2: "db2 = dbB\<lparr>t_pty_delivery := t_pty_delivery dbB @ ds\<rparr>" ..
  have eq: "db' = dbA\<lparr>pg_events := pg_events db @ [row], pg_writer := pg_writer db',
      t_receipt := t_receipt db1, t_pty_delivery := t_pty_delivery db @ ds\<rparr>"
    using db' unfolding db2 dbB frame_def \<open>pg_events db1 = pg_events db\<close> by (cases dbA) simp
  have "t_receipt db' = t_receipt db1" using arg_cong [OF eq, of t_receipt] by simp
  moreover have "t_pty_delivery db' = t_pty_delivery db @ ds"
    using arg_cong [OF eq, of t_pty_delivery] by simp
  moreover have "map_of (t_receipt db) \<subseteq>\<^sub>m map_of (t_receipt db1)"
    using grow by (simp add: receipts_grow_def)
  ultimately show ?thesis
    unfolding projected_as_def using A eq by (auto simp: frame_def)
qed

lemma landed_receipts:
  assumes "landed env envelope p v row db db'"
  shows "t_receipt db' = t_receipt db"
proof -
  from assms obtain dbB db2 where B: "apply_event env row db = Inr dbB"
    and reg: "if receipted_pty_command (pr_command p)
           then register_delivery env envelope (pr_binding p) [row] dbB = Inr db2 else db2 = dbB"
    and db': "db' = db2\<lparr>pg_events := pg_events db @ [row], pg_writer := pg_writer db'\<rparr>"
    unfolding landed_def by blast
  have "t_receipt db' = t_receipt db2" using arg_cong [OF db', of t_receipt] by simp
  also have "\<dots> = t_receipt dbB" using reg by (auto simp: register_delivery_Inr split: if_splits)
  also have "\<dots> = t_receipt db" by (rule apply_event_keeps(3) [OF B])
  finally show ?thesis .
qed

definition delivered ::
  "json command_envelope \<Rightarrow> prepared \<Rightarrow> json event_envelope \<Rightarrow> json db \<Rightarrow> json db \<Rightarrow> bool" where
  "delivered envelope p row db db' \<longleftrightarrow>
     t_pty_delivery db' = t_pty_delivery db @
       (if receipted_pty_command (pr_command p)
        then [\<lparr>pd_project_id = cmd_project_id envelope, pd_idempotency_key = cmd_idempotency_key envelope,
               pd_command_id = cmd_command_id envelope, pd_event_id = event_id row,
               pd_event_seq = global_sequence row, pd_input_binding = pr_binding p\<rparr>]
        else [])
     \<and> (receipted_pty_command (pr_command p) \<longrightarrow> (\<forall>d \<in> set (t_pty_delivery db).
          pd_project_id d = cmd_project_id envelope \<longrightarrow> pd_idempotency_key d \<noteq> cmd_idempotency_key envelope))"

lemma landed_delivery:
  assumes "landed env envelope p v row db1 db'" and "receipts_grow db db1"
  shows "delivered envelope p row db db'"
proof -
  from assms(1) obtain dbB db2 where B: "apply_event env row db1 = Inr dbB"
    and reg: "if receipted_pty_command (pr_command p)
           then register_delivery env envelope (pr_binding p) [row] dbB = Inr db2 else db2 = dbB"
    and db': "db' = db2\<lparr>pg_events := pg_events db1 @ [row], pg_writer := pg_writer db'\<rparr>"
    unfolding landed_def by blast
  have "t_pty_delivery db' = t_pty_delivery db2" using arg_cong [OF db', of t_pty_delivery] by simp
  moreover have "t_pty_delivery dbB = t_pty_delivery db"
    using apply_event_keeps(4) [OF B] receipts_grow_fields(4) [OF assms(2)] by simp
  ultimately show ?thesis
    using reg by (auto simp: register_delivery_def delivered_def list_all_iff result_simps split: if_splits)
qed

lemma beside_log_refl [simp]: "beside_log db db"
  by (simp add: beside_log_def)

lemma try_submit_cases:
  assumes run: "try_submit env envelope carrier db = (r, db')" and good: "pg_good db"
    and wire: "wire_ok env envelope"
  obtains (quiet) "beside_log db db'"
    | (landed) p epoch decision v row q event where "prepare env envelope carrier = Inr p"
        "prepared_ok env envelope p"
        "pg_good db'" "epoch_of env db = Inr epoch" "admitted epoch (pr_command p)"
        "prior_for_key env envelope (pr_route p) (pr_payload p) db = Inr Prior_Unused"
        "check_aggregate_owner env envelope (pr_route p) db = Inr ()"
        "check_second_cutover env (pr_command p) epoch db = Inr ()"
        "evaluate env envelope (classification_key (cmd_command_type envelope) (pr_command p))
           (authority_subject (pr_command p) (pr_route p)) db = Inr decision"
        "\<forall>c b. decision \<noteq> Page c b"
        "receipt_due env envelope p (decision_result decision) db'"
        "decide env envelope (pr_command p) (pr_route p) db = Inr v"
        "check_expected_version envelope v = Inr ()"
        "agg_key_of row = (rt_aggregate_type (pr_route p), rt_aggregate_id (pr_route p))"
        "log_version (agg_key_of row) (pg_events db) = v" "aggregate_version row = v + 1"
        "unat (aggregate_version row) = Suc (unat v)"
        "project_id row = cmd_project_id envelope" "event_type row = rt_event_type (pr_route p)"
        "idempotency_key row = Some (cmd_idempotency_key envelope)"
        "pg_events db' = pg_events db @ [row]"
        "projected_as env row (pr_command p) db db'" "r = applied env envelope [row] db'"
        "delivered envelope p row db db'"
        "build_event envelope (pr_payload p) (pr_route p) v = Inr event" "row = stored_row env q event"
proof (cases "prepare env envelope carrier")
  case (Inl e)
  with run show thesis by (intro quiet) (simp add: try_submit_def)
next
  case (Inr p)
  note prep = prepare_Inr [OF Inr]
  show thesis
  proof (cases "submit_locked env envelope p db")
    case (Inl e)
    with run \<open>prepare env envelope carrier = Inr p\<close> show thesis
      by (intro quiet) (simp add: try_submit_def)
  next
    case (Inr res)
    obtain out db2 where res: "res = (out, db2)" by (cases res)
    with Inr have sub: "submit_locked env envelope p db = Inr (out, db2)" by simp
    from run \<open>prepare env envelope carrier = Inr p\<close> sub have db2: "db2 = db'"
      by (cases out) (simp_all add: try_submit_def)
    from sub good show thesis
    proof (cases rule: submit_locked_cases)
      case (refused e)
      with db2 show thesis by (intro quiet) simp
    next
      case (replayed events)
      with db2 show thesis by (intro quiet) simp
    next
      case (landed epoch decision v row db1)
      have proj: "projected_as env row (pr_command p) db db'"
        by (rule landed_projected [OF _ landed(10) prep wire]) (use landed db2 in simp)
      from landed(14) obtain event q where ev: "build_event envelope (pr_payload p) (pr_route p) v = Inr event"
        and row: "row = stored_row env q event"
        and ver: "log_version (rt_aggregate_type (pr_route p), rt_aggregate_id (pr_route p)) (pg_events db1) = v"
        unfolding landed_def by blast
      have log: "pg_events db' = pg_events db @ [row]"
        using proj unfolding projected_as_def by (metis frame_sel(1))
      have rc: "t_receipt db' = t_receipt db1"
        using landed_receipts [OF landed(14)] db2 by simp
      show thesis
      proof (rule that(2) [OF \<open>prepare env envelope carrier = Inr p\<close> prep _ landed(3-9) _ landed(12,13)])
        show "pg_good db'" using landed(2) db2 by simp
        show "receipt_due env envelope p (decision_result decision) db'"
          using landed(11) rc by (auto simp: receipt_due_def split: option.splits)
        show "agg_key_of row = (rt_aggregate_type (pr_route p), rt_aggregate_id (pr_route p))"
          using build_event_Inr(1) [OF ev] row by simp
        then show "log_version (agg_key_of row) (pg_events db) = v"
          using ver receipts_grow_fields(1) [OF landed(10)] by simp
        show "aggregate_version row = v + 1" "unat (aggregate_version row) = Suc (unat v)"
          "project_id row = cmd_project_id envelope" "event_type row = rt_event_type (pr_route p)"
          "idempotency_key row = Some (cmd_idempotency_key envelope)"
          using build_event_Inr [OF ev] row by simp_all
        show "pg_events db' = pg_events db @ [row]" by (rule log)
        show "projected_as env row (pr_command p) db db'" by (rule proj)
        show "delivered envelope p row db db'"
          using landed_delivery [OF landed(14,10)] db2 by simp
        show "r = applied env envelope [row] db'"
          using run \<open>prepare env envelope carrier = Inr p\<close> sub landed(1) db2
          by (simp add: try_submit_def)
      qed (rule ev row)+
    qed
  qed
qed

end
