(* ===== verification/Gw_Reach.thy ===== *)
theory Gw_Reach
  imports Gw_Kernel
begin

text \<open>
  The states the kernel can reach from an empty database: any number of processes boot, append
  genesis, grant fences and submit commands, in surroundings of their own. The locale
  \<open>kernel_law\<close> is the interface between the command path and an invariant: what it has to survive,
  one assumption per kind of step, gives it in every reachable state. Interpretations follow for
  the ownership of aggregates, the epoch, and the versions of the projection rows.
\<close>

section \<open>Steps and reachable states\<close>

definition fresh_db :: "json db" where
  "fresh_db =
     \<lparr>pg_events = [],
      pg_writer = Some \<lparr>w_epoch = 0, w_fence_token = None, w_next_seq = 1, w_checkpoint_seq = 0\<rparr>,
      t_task = [], t_attempt = [], t_engine_session = [], t_message = [], t_command = [], t_gate = [],
      t_authority_grant = [], t_receipt = [], t_evidence = [], t_cost_entry = [],
      t_attention_item = [], t_worktree = [], t_workspace_node = [], t_workflow_run = [],
      t_pty_session = [], t_pty_template = [], t_lease = [], t_dispatch_node = [], t_checkpoint = [],
      t_ingested_record = [], t_pty_delivery = []\<rparr>"

text \<open>Every process reads commands and timestamps the same way; everything else may differ.\<close>

definition speaks :: "kernel_env \<Rightarrow> kernel_env \<Rightarrow> bool" where
  "speaks k env \<longleftrightarrow> ke_decode env = ke_decode k \<and> se_timestamptz env = se_timestamptz k"

inductive kernel_run :: "kernel_env \<Rightarrow> json db \<Rightarrow> json db \<Rightarrow> bool" for k :: kernel_env and db0 :: "json db" where
  initial: "kernel_run k db0 db0"
| submit: "kernel_run k db0 db \<Longrightarrow> wire_ok env envelope \<Longrightarrow> speaks k env
    \<Longrightarrow> try_submit env envelope carrier db = (r, db') \<Longrightarrow> kernel_run k db0 db'"
| genesis: "kernel_run k db0 db \<Longrightarrow> ensure_genesis (env :: kernel_env) revision db = (r2, db')
    \<Longrightarrow> kernel_run k db0 db'"
| boot: "kernel_run k db0 db \<Longrightarrow> claim_epoch (env :: kernel_env) db = (r3, db') \<Longrightarrow> kernel_run k db0 db'"
| fence: "kernel_run k db0 db \<Longrightarrow> pg_grant_fence (env :: kernel_env) db = (r4, db')
    \<Longrightarrow> kernel_run k db0 db'"

abbreviation kernel_reachable :: "kernel_env \<Rightarrow> json db \<Rightarrow> bool" where
  "kernel_reachable k db \<equiv> kernel_run k fresh_db db"

lemma kernel_run_trans: "kernel_run k b c \<Longrightarrow> kernel_run k a b \<Longrightarrow> kernel_run k a c"
  by (induction rule: kernel_run.induct) (auto intro: kernel_run.intros)

text \<open>Everything a landed command establishes about the states before and after it.\<close>

definition landing ::
  "kernel_env \<Rightarrow> json command_envelope \<Rightarrow> prepared \<Rightarrow> epoch \<Rightarrow> decision \<Rightarrow> json event_envelope
     \<Rightarrow> json db \<Rightarrow> json db \<Rightarrow> bool" where
  "landing env envelope p epoch decision row db db' \<longleftrightarrow>
     prepared_ok env envelope p \<and> epoch_of env db = Inr epoch \<and> admitted epoch (pr_command p)
     \<and> prior_for_key env envelope (pr_route p) (pr_payload p) db = Inr Prior_Unused
     \<and> check_aggregate_owner env envelope (pr_route p) db = Inr ()
     \<and> check_second_cutover env (pr_command p) epoch db = Inr ()
     \<and> evaluate env envelope (classification_key (cmd_command_type envelope) (pr_command p))
         (authority_subject (pr_command p) (pr_route p)) db = Inr decision
     \<and> (\<forall>c b. decision \<noteq> Page c b)
     \<and> receipt_due env envelope p (decision_result decision) db'
     \<and> decide env envelope (pr_command p) (pr_route p) db
         = Inr (log_version (agg_key_of row) (pg_events db))
     \<and> agg_key_of row = (rt_aggregate_type (pr_route p), rt_aggregate_id (pr_route p))
     \<and> aggregate_version row = log_version (agg_key_of row) (pg_events db) + 1
     \<and> unat (aggregate_version row) = Suc (unat (log_version (agg_key_of row) (pg_events db)))
     \<and> project_id row = cmd_project_id envelope \<and> event_type row = rt_event_type (pr_route p)
     \<and> idempotency_key row = Some (cmd_idempotency_key envelope)
     \<and> pg_events db' = pg_events db @ [row]
     \<and> projected_as env row (pr_command p) db db' \<and> delivered envelope p row db db'
     \<and> ke_decode env (payload row) = Some (pr_command p)
     \<and> (\<exists>v event q. build_event envelope (pr_payload p) (pr_route p) v = Inr event
          \<and> row = stored_row env q event)"

definition genesis_step :: "json db \<Rightarrow> json db \<Rightarrow> bool" where
  "genesis_step db db' \<longleftrightarrow>
     (\<exists>row. log_version (KERNEL_AGGREGATE, KERNEL_SINGLETON) (pg_events db) = 0
        \<and> agg_key_of row = (KERNEL_AGGREGATE, KERNEL_SINGLETON) \<and> aggregate_version row = 1
        \<and> project_id row = SYSTEM_PROJECT \<and> event_type row = GENESIS_EVENT_TYPE
        \<and> idempotency_key row = Some GENESIS_KEY
        \<and> db' = db\<lparr>pg_events := pg_events db @ [row], pg_writer := pg_writer db'\<rparr>)"

lemma submit_step:
  assumes "try_submit env envelope carrier db = (r, db')" and "pg_good db" and "wire_ok env envelope"
  shows "beside_log db db' \<or> pg_good db' \<and> (\<exists>p epoch decision row.
    landing env envelope p epoch decision row db db')"
  using assms
proof (cases rule: try_submit_cases)
  case quiet
  then show ?thesis ..
next
  case (landed p epoch decision v row q event)
  have "payload row = se_jsonb env (ke_encode env (pr_command p))"
    using landed(2,26) build_event_Inr(7) [OF landed(25)]
    by (simp add: prepared_ok_def stored_row_def)
  then have "ke_decode env (payload row) = Some (pr_command p)"
    using assms(3) landed(2) by (simp add: wire_ok_def prepared_ok_def)
  with landed show ?thesis unfolding landing_def by metis
qed

lemma log_version_zero:
  assumes "pg_good db" and "log_version k (pg_events db) = 0"
  shows "of_key k (pg_events db) = []"
  using log_version_length [of "pg_events db" k] assms by (simp add: pg_good_def)

lemma log_version_empty: "log_version k [] = 0"
  by (simp add: log_version_def)

lemma genesis_cases:
  assumes run: "ensure_genesis (env :: kernel_env) revision db = (r, db')" and good: "pg_good (db :: json db)"
  shows "db' = db \<or> genesis_step db db' \<and> pg_good db'"
proof (cases r)
  case (Inl e)
  with run show ?thesis by (auto simp: ensure_genesis_def transact_def split: sum.splits prod.splits)
next
  case (Inr u)
  with run consider "db' = db" | w ap where "epoch_of env db = Inr Epoch_None"
      "lock_writer env db = Inr w"
      "append_locked env w 0 (ws_current_fence w) [genesis_event revision (se_now env)] db = Inr (ap, db')"
    by (auto simp: ensure_genesis_def transact_def result_simps split: sum.splits prod.splits if_splits)
  then show ?thesis
  proof cases
    case 1
    then show ?thesis ..
  next
    case (2 w ap)
    have v0: "log_version (KERNEL_AGGREGATE, KERNEL_SINGLETON) (pg_events db) = 0"
      using 2(1) by (auto simp: epoch_of_def of_version_def current_aggregate_version_def result_simps
          split: if_splits)
    have "of_key (KERNEL_AGGREGATE, KERNEL_SINGLETON) (pg_events db) = []"
      by (rule log_version_zero [OF good v0])
    then have none: "\<forall>e \<in> set (pg_events db). agg_key_of e \<noteq> (KERNEL_AGGREGATE, KERNEL_SINGLETON)"
      by (auto simp: of_key_def filter_empty_conv)
    have "agg_key_of (genesis_event revision (se_now env)) = (KERNEL_AGGREGATE, KERNEL_SINGLETON)"
      by (simp add: genesis_event_def agg_key_of_def)
    with none obtain q row wr where row: "row = stored_row env q (genesis_event revision (se_now env))"
      and db': "db' = db\<lparr>pg_events := pg_events db @ [row], pg_writer := wr\<rparr>"
      using append_one [OF 2(3)] by metis
    have "genesis_step db db'"
      unfolding genesis_step_def db' row using v0
      by (intro exI [of _ "stored_row env q (genesis_event revision (se_now env))"])
        (simp add: genesis_event_def agg_key_of_def)
    moreover have "pg_good db'" by (rule append_locked_good(1) [OF good 2(2,3)])
    ultimately show ?thesis by blast
  qed
qed

section \<open>What an invariant has to survive\<close>

locale kernel_law =
  fixes k :: kernel_env and inv :: "json db \<Rightarrow> bool"
  assumes fresh: "inv fresh_db"
    and beside: "inv db \<Longrightarrow> beside_log db db' \<Longrightarrow> inv db'"
    and started: "inv db \<Longrightarrow> pg_good db \<Longrightarrow> genesis_step db db' \<Longrightarrow> pg_good db' \<Longrightarrow> inv db'"
    and writer: "inv db \<Longrightarrow> inv (db\<lparr>pg_writer := w\<rparr>)"
    and land: "inv db \<Longrightarrow> pg_good db \<Longrightarrow> pg_good db' \<Longrightarrow> speaks k env \<Longrightarrow>
      landing env envelope p epoch decision row db db' \<Longrightarrow> inv db'"
begin

lemma submitted:
  assumes "inv db" "pg_good db" "wire_ok env envelope" "speaks k env"
    and "try_submit env envelope carrier db = (r, db')"
  shows "inv db'"
  using submit_step [OF assms(5,2,3)] beside [OF assms(1)] land [OF assms(1,2) _ assms(4)] by blast

end

lemma beside_log_fields:
  assumes "beside_log db db'"
  shows "pg_events db' = pg_events db" "pg_writer db' = pg_writer db"
proof -
  from assms have eq: "db' = db\<lparr>t_receipt := t_receipt db', t_attention_item := t_attention_item db'\<rparr>"
    by (simp add: beside_log_def)
  show "pg_events db' = pg_events db" using arg_cong [OF eq, of pg_events] by simp
  show "pg_writer db' = pg_writer db" using arg_cong [OF eq, of pg_writer] by simp
qed

lemma claim_epoch_state:
  assumes "claim_epoch env db = (r, db')" and "pg_good db"
  shows "(\<exists>w. db' = db\<lparr>pg_writer := w\<rparr>) \<and> pg_good db'"
proof (cases r)
  case (Inl e)
  with assms have "db' = db"
    by (auto simp: claim_epoch_def transact_def split: sum.splits prod.splits)
  moreover have "db = db\<lparr>pg_writer := pg_writer db\<rparr>" by simp
  ultimately show ?thesis using assms(2) by blast
next
  case (Inr n)
  with assms(1) obtain w where "pg_writer db = Some w" "db' = db\<lparr>pg_writer := Some (w\<lparr>w_epoch := w_epoch w + 1\<rparr>)\<rparr>"
    by (auto simp: claim_epoch_def transact_def result_simps split: sum.splits prod.splits)
  with assms(2) show ?thesis by (auto intro: pg_good_writer)
qed

lemma grant_fence_state:
  assumes "pg_grant_fence env db = (r, db')" and "pg_good db"
  shows "(\<exists>w. db' = db\<lparr>pg_writer := w\<rparr>) \<and> pg_good db'"
proof (cases r)
  case (Inl e)
  with assms have "db' = db"
    by (auto simp: pg_grant_fence_def transact_def split: sum.splits prod.splits)
  moreover have "db = db\<lparr>pg_writer := pg_writer db\<rparr>" by simp
  ultimately show ?thesis using assms(2) by blast
next
  case (Inr n)
  with assms(1) obtain w where "pg_writer db = Some w"
      "db' = db\<lparr>pg_writer := Some (w\<lparr>w_fence_token := Some n\<rparr>)\<rparr>"
    by (auto simp: pg_grant_fence_def transact_def result_simps split: sum.splits prod.splits)
  with assms(2) show ?thesis by (auto intro: pg_good_writer)
qed

lemma run_good: "kernel_run k db0 db \<Longrightarrow> pg_good db0 \<Longrightarrow> pg_good db"
proof (induction rule: kernel_run.induct)
  case (submit db env envelope carrier r db')
  from submit_step [OF submit(4) submit.IH [OF submit.prems] submit(2)] show ?case
    using submit.IH [OF submit.prems] beside_log_fields [of db db'] pg_good_cong [of db' db] by blast
next
  case (genesis db env revision r db')
  then show ?case using genesis_cases by blast
next
  case (boot db env r db')
  then show ?case using claim_epoch_state by blast
next
  case (fence db env r db')
  then show ?case using grant_fence_state by blast
qed

lemma fresh_good: "pg_good fresh_db"
  by (simp add: fresh_db_def pg_good_def ordered_log_def)

lemma reachable_good: "kernel_reachable k db \<Longrightarrow> pg_good db"
  using run_good fresh_good by blast

context kernel_law
begin

lemma run: "kernel_run k db0 db \<Longrightarrow> pg_good db0 \<Longrightarrow> inv db0 \<Longrightarrow> inv db"
proof (induction rule: kernel_run.induct)
  case (submit db env envelope carrier r db')
  then show ?case using submitted run_good by blast
next
  case (genesis db env revision r db')
  then show ?case using genesis_cases run_good started by blast
next
  case (boot db env r db')
  then show ?case using claim_epoch_state run_good writer by blast
next
  case (fence db env r db')
  then show ?case using grant_fence_state run_good writer by blast
qed

lemma reachable: "kernel_reachable k db \<Longrightarrow> inv db"
  using run fresh_good fresh by blast

end

text \<open>
  A law of two states: what any run keeps or only ever adds to, given an invariant. It is reflexive
  and transitive, so that it holds from any reachable state to any later one.
\<close>

locale kernel_progress = kernel_law k inv for k :: kernel_env and inv :: "json db \<Rightarrow> bool" +
  fixes rel :: "json db \<Rightarrow> json db \<Rightarrow> bool"
  assumes rel_refl: "rel db db"
    and rel_trans: "rel db db1 \<Longrightarrow> rel db1 db2 \<Longrightarrow> rel db db2"
    and rel_beside: "beside_log db db' \<Longrightarrow> rel db db'"
    and rel_started: "genesis_step db db' \<Longrightarrow> rel db db'"
    and rel_writer: "rel db (db\<lparr>pg_writer := w\<rparr>)"
    and rel_land: "inv db \<Longrightarrow> pg_good db \<Longrightarrow> pg_good db' \<Longrightarrow> speaks k env \<Longrightarrow>
      landing env envelope p epoch decision row db db' \<Longrightarrow> rel db db'"
begin

lemma submit_rel:
  assumes "inv db" "pg_good db" "wire_ok env envelope" "speaks k env"
    and "try_submit env envelope carrier db = (r, db')"
  shows "rel db db'"
  using submit_step [OF assms(5,2,3)] rel_beside rel_land [OF assms(1,2) _ assms(4)] by blast

lemma run_rel: "kernel_run k db0 db \<Longrightarrow> pg_good db0 \<Longrightarrow> inv db0 \<Longrightarrow> rel db0 db"
proof (induction rule: kernel_run.induct)
  case initial
  show ?case by (rule rel_refl)
next
  case (submit db env envelope carrier r db')
  have "rel db db'"
    by (rule submit_rel [OF run [OF submit(1) submit.prems] run_good [OF submit(1) submit.prems(1)] submit(2-4)])
  then show ?case using rel_trans submit.IH [OF submit.prems] by blast
next
  case (genesis db env revision r db')
  then have "rel db db'" using genesis_cases run_good rel_started rel_refl by blast
  then show ?case using rel_trans genesis.IH [OF genesis.prems] by blast
next
  case (boot db env r db')
  then have "rel db db'" using claim_epoch_state run_good rel_writer by blast
  then show ?case using rel_trans boot.IH [OF boot.prems] by blast
next
  case (fence db env r db')
  then have "rel db db'" using grant_fence_state run_good rel_writer by blast
  then show ?case using rel_trans fence.IH [OF fence.prems] by blast
qed

lemma from_reachable: "kernel_reachable k db \<Longrightarrow> kernel_run k db db' \<Longrightarrow> rel db db'"
  using run_rel reachable reachable_good by blast

end

section \<open>Ownership and epoch\<close>

lemmas route_arm_defs = route_arm_def route_create_workspace_node_def route_move_workspace_node_def
  route_open_workflow_run_def route_advance_workflow_run_def route_close_workflow_run_def
  route_open_pty_session_def route_resize_pty_session_def route_declare_pty_template_def
  route_start_pty_session_def route_record_cost_entry_def route_write_checkpoint_def
  route_ingest_record_def

lemma route_of_Inr:
  "route_of envelope c = Inr route \<longleftrightarrow>
     route_arm envelope c = Inr (rt_aggregate_type route, rt_aggregate_id route, rt_event_type route)
     \<and> rt_aggregate_id route \<noteq> []"
  unfolding route_of_def and_then_Inr by (auto simp: result_simps split: prod.splits)

lemma route_types:
  assumes "route_arm envelope c = Inr (aty, aid, ety)"
  shows "aty = KERNEL_AGGREGATE \<longleftrightarrow> (\<exists>x y. c = ActivateKernel x y)"
    and "aty = KERNEL_AGGREGATE \<Longrightarrow> aid = KERNEL_SINGLETON \<and> ety = ACTIVATION_EVENT_TYPE"
  using assms by (cases c; auto simp: route_arm_defs kernel_names and_then_Inr)+

lemma route_not_context:
  assumes "route_arm envelope c = Inr (aty, aid, ety)"
  shows "aty \<noteq> ''context_manifest'' \<and> aty \<noteq> ''context_run'' \<and> aty \<noteq> ''context_optimization''"
  using assms by (cases c) (auto simp: route_arm_defs kernel_names and_then_Inr)

definition one_owner :: "json db \<Rightarrow> bool" where
  "one_owner db \<longleftrightarrow> (\<forall>e \<in> set (pg_events db). \<forall>e' \<in> set (pg_events db).
     agg_key_of e = agg_key_of e' \<longrightarrow> project_id e = project_id e')"

lemma one_owner_log: "pg_events db' = pg_events db \<Longrightarrow> one_owner db' \<longleftrightarrow> one_owner db"
  by (simp only: one_owner_def)

lemma one_owner_snoc:
  assumes "one_owner db" and "pg_events db' = pg_events db @ [row]"
    and "\<And>e. e \<in> set (pg_events db) \<Longrightarrow> agg_key_of e = agg_key_of row \<Longrightarrow> project_id e = project_id row"
  shows "one_owner db'"
  unfolding one_owner_def
proof (intro ballI impI)
  fix e e' assume "e \<in> set (pg_events db')" "e' \<in> set (pg_events db')" "agg_key_of e = agg_key_of e'"
  then consider "e \<in> set (pg_events db)" "e' \<in> set (pg_events db)" | "e = row" "e' = row"
    | "e = row" "e' \<in> set (pg_events db)" | "e \<in> set (pg_events db)" "e' = row"
    unfolding assms(2) by auto
  then show "project_id e = project_id e'"
    by cases (use assms(1,3) \<open>agg_key_of e = agg_key_of e'\<close> in \<open>unfold one_owner_def, metis+\<close>)
qed

lemma check_aggregate_owner_Inr:
  assumes "check_aggregate_owner env envelope route db = Inr ()" and "one_owner db"
    and "e \<in> set (pg_events db)" and "agg_key_of e = (rt_aggregate_type route, rt_aggregate_id route)"
  shows "project_id e = cmd_project_id envelope"
proof -
  let ?s = "sort_key aggregate_version (of_key (rt_aggregate_type route, rt_aggregate_id route) (pg_events db))"
  have mem: "set ?s = set (of_key (rt_aggregate_type route, rt_aggregate_id route) (pg_events db))" by simp
  show ?thesis
  proof (cases ?s)
    case Nil
    then have "of_key (rt_aggregate_type route, rt_aggregate_id route) (pg_events db) = []"
      by (rule sort_key_Nil [THEN iffD1])
    moreover have "e \<in> set (of_key (rt_aggregate_type route, rt_aggregate_id route) (pg_events db))"
      using assms(3,4) by (simp add: in_of_key)
    ultimately show ?thesis by simp
  next
    case (Cons first rest)
    have "first \<in> set (of_key (rt_aggregate_type route, rt_aggregate_id route) (pg_events db))"
      unfolding mem [symmetric] Cons by simp
    then have "first \<in> set (pg_events db)" "agg_key_of first = agg_key_of e"
      using assms(4) by (simp_all add: in_of_key)
    then have "project_id e = project_id first"
      using assms(2) [unfolded one_owner_def, rule_format, OF assms(3), of first] by simp
    moreover have "project_id first = cmd_project_id envelope"
      using assms(1) Cons by (auto simp: check_aggregate_owner_def result_simps)
    ultimately show ?thesis by simp
  qed
qed

interpretation owner_law: kernel_law k one_owner for k
proof
  show "one_owner fresh_db" by (simp add: one_owner_def fresh_db_def)
  show "one_owner db'" if "one_owner db" "beside_log db db'" for db db'
    using one_owner_log [OF beside_log_fields(1) [OF that(2)]] that(1) by blast
  show "one_owner (db\<lparr>pg_writer := w\<rparr>)" if "one_owner db" for db w
    using one_owner_log [of "db\<lparr>pg_writer := w\<rparr>" db] that by simp
  show "one_owner db'" if o: "one_owner db" and good: "pg_good db" and g: "genesis_step db db'" for db db'
  proof -
    from g obtain row where v0: "log_version (KERNEL_AGGREGATE, KERNEL_SINGLETON) (pg_events db) = 0"
      and key: "agg_key_of row = (KERNEL_AGGREGATE, KERNEL_SINGLETON)"
      and db': "db' = db\<lparr>pg_events := pg_events db @ [row], pg_writer := pg_writer db'\<rparr>"
      unfolding genesis_step_def by blast
    have "agg_key_of e \<noteq> agg_key_of row" if "e \<in> set (pg_events db)" for e
      using log_version_zero [OF good v0] that key by (auto simp: of_key_def filter_empty_conv)
    moreover have "pg_events db' = pg_events db @ [row]"
      using arg_cong [OF db', of pg_events] by simp
    ultimately show ?thesis by (intro one_owner_snoc [OF o]) blast+
  qed
  show "one_owner db'" if o: "one_owner db" and l: "landing env envelope p epoch decision row db db'"
    for db db' env envelope p epoch decision row
  proof -
    from l have own: "check_aggregate_owner env envelope (pr_route p) db = Inr ()"
      and key: "agg_key_of row = (rt_aggregate_type (pr_route p), rt_aggregate_id (pr_route p))"
      and pr: "project_id row = cmd_project_id envelope" and log: "pg_events db' = pg_events db @ [row]"
      by (simp_all add: landing_def)
    have "project_id e = project_id row" if "e \<in> set (pg_events db)" "agg_key_of e = agg_key_of row" for e
      using check_aggregate_owner_Inr [OF own o that(1)] that(2) key pr by simp
    then show ?thesis by (rule one_owner_snoc [OF o log])
  qed
qed

definition is_kernel_event :: "json event_envelope \<Rightarrow> bool" where
  "is_kernel_event e \<longleftrightarrow> agg_key_of e = (KERNEL_AGGREGATE, KERNEL_SINGLETON)"

definition is_activation :: "json event_envelope \<Rightarrow> bool" where
  "is_activation e \<longleftrightarrow> is_kernel_event e \<and> event_type e = ACTIVATION_EVENT_TYPE"

definition epoch_ordered :: "json db \<Rightarrow> bool" where
  "epoch_ordered db \<longleftrightarrow>
     (\<forall>xs e ys. pg_events db = xs @ e # ys \<and> \<not> is_kernel_event e \<longrightarrow> (\<exists>a \<in> set xs. is_activation a))
     \<and> map event_type (of_key (KERNEL_AGGREGATE, KERNEL_SINGLETON) (pg_events db))
         \<in> {[], [GENESIS_EVENT_TYPE], [GENESIS_EVENT_TYPE, ACTIVATION_EVENT_TYPE]}"

lemma epoch_ordered_cong: "pg_events db' = pg_events db \<Longrightarrow> epoch_ordered db' = epoch_ordered db"
  by (simp add: epoch_ordered_def)

lemma epoch_ordered_snoc:
  assumes "epoch_ordered db" and "pg_events db' = pg_events db @ [row]"
    and "\<not> is_kernel_event row \<Longrightarrow> \<exists>a \<in> set (pg_events db). is_activation a"
    and "is_kernel_event row \<Longrightarrow>
      map event_type (of_key (KERNEL_AGGREGATE, KERNEL_SINGLETON) (pg_events db)) @ [event_type row]
         \<in> {[], [GENESIS_EVENT_TYPE], [GENESIS_EVENT_TYPE, ACTIVATION_EVENT_TYPE]}"
  shows "epoch_ordered db'"
  unfolding epoch_ordered_def
proof (intro conjI allI impI)
  fix xs e ys assume split: "pg_events db' = xs @ e # ys \<and> \<not> is_kernel_event e"
  show "\<exists>a \<in> set xs. is_activation a"
  proof (cases ys rule: rev_cases)
    case Nil
    with split assms(2,3) show ?thesis by auto
  next
    case (snoc zs z)
    with split assms(2) have "pg_events db = xs @ e # zs" by simp
    with assms(1) split show ?thesis unfolding epoch_ordered_def by blast
  qed
next
  show "map event_type (of_key (KERNEL_AGGREGATE, KERNEL_SINGLETON) (pg_events db'))
         \<in> {[], [GENESIS_EVENT_TYPE], [GENESIS_EVENT_TYPE, ACTIVATION_EVENT_TYPE]}"
    using assms(1,2,4) unfolding epoch_ordered_def is_kernel_event_def by (cases "is_kernel_event row") auto
qed

lemma epoch_ordered_version:
  assumes "pg_good db" and "epoch_ordered db"
  shows "\<not> unat (log_version (KERNEL_AGGREGATE, KERNEL_SINGLETON) (pg_events db)) > 2"
    and "1 < unat (log_version (KERNEL_AGGREGATE, KERNEL_SINGLETON) (pg_events db))
      \<Longrightarrow> \<exists>a \<in> set (pg_events db). is_activation a"
    and "unat (log_version (KERNEL_AGGREGATE, KERNEL_SINGLETON) (pg_events db)) = 1
      \<Longrightarrow> map event_type (of_key (KERNEL_AGGREGATE, KERNEL_SINGLETON) (pg_events db)) = [GENESIS_EVENT_TYPE]"
proof -
  let ?ks = "of_key (KERNEL_AGGREGATE, KERNEL_SINGLETON) (pg_events db)"
  have len: "unat (log_version (KERNEL_AGGREGATE, KERNEL_SINGLETON) (pg_events db)) = length (map event_type ?ks)"
    using assms(1) by (simp add: pg_good_def log_version_length)
  have shape: "map event_type ?ks
      \<in> {[], [GENESIS_EVENT_TYPE], [GENESIS_EVENT_TYPE, ACTIVATION_EVENT_TYPE]}"
    using assms(2) unfolding epoch_ordered_def by (rule conjunct2)
  show "\<not> unat (log_version (KERNEL_AGGREGATE, KERNEL_SINGLETON) (pg_events db)) > 2"
    unfolding len using shape by auto
  show "map event_type ?ks = [GENESIS_EVENT_TYPE]"
    if "unat (log_version (KERNEL_AGGREGATE, KERNEL_SINGLETON) (pg_events db)) = 1"
    using that shape unfolding len by auto
  assume "1 < unat (log_version (KERNEL_AGGREGATE, KERNEL_SINGLETON) (pg_events db))"
  with shape have "ACTIVATION_EVENT_TYPE \<in> set (map event_type ?ks)" unfolding len by auto
  then show "\<exists>a \<in> set (pg_events db). is_activation a"
    unfolding is_activation_def is_kernel_event_def by (auto simp: in_of_key)
qed

lemma epoch_of_Inr:
  "epoch_of env db = Inr ep \<Longrightarrow>
     ep = of_version (log_version (KERNEL_AGGREGATE, KERNEL_SINGLETON) (pg_events db))"
  by (auto simp: epoch_of_def current_aggregate_version_def result_simps)

lemma of_version_Active: "of_version v = Epoch_Active \<longleftrightarrow> 1 < unat v"
proof -
  have "v = 0 \<longleftrightarrow> unat v = 0" "v = 1 \<longleftrightarrow> unat v = 1" by (simp_all add: word_unat_eq_iff)
  then show ?thesis by (auto simp: of_version_def)
qed

lemma of_version_Sealed: "of_version v = Epoch_Sealed \<longleftrightarrow> unat v = 1"
proof -
  have "v = 0 \<longleftrightarrow> unat v = 0" "v = 1 \<longleftrightarrow> unat v = 1" by (simp_all add: word_unat_eq_iff)
  then show ?thesis by (auto simp: of_version_def)
qed

lemma second_cutover_refused:
  "check_second_cutover env (ActivateKernel x y) Epoch_Active db \<noteq> Inr ()"
  by (simp add: check_second_cutover_def result_simps)

lemma landing_epoch:
  assumes l: "landing env envelope p epoch decision row db db'" and good: "pg_good db"
    and inv: "epoch_ordered db"
  shows "is_kernel_event row \<Longrightarrow> event_type row = ACTIVATION_EVENT_TYPE
      \<and> map event_type (of_key (KERNEL_AGGREGATE, KERNEL_SINGLETON) (pg_events db)) = [GENESIS_EVENT_TYPE]"
    and "\<not> is_kernel_event row \<Longrightarrow> \<exists>a \<in> set (pg_events db). is_activation a"
proof -
  from l have ep: "epoch = of_version (log_version (KERNEL_AGGREGATE, KERNEL_SINGLETON) (pg_events db))"
    and adm: "admitted epoch (pr_command p)"
    and cut: "check_second_cutover env (pr_command p) epoch db = Inr ()"
    and key: "agg_key_of row = (rt_aggregate_type (pr_route p), rt_aggregate_id (pr_route p))"
    and ty: "event_type row = rt_event_type (pr_route p)"
    and route: "route_arm envelope (pr_command p)
      = Inr (rt_aggregate_type (pr_route p), rt_aggregate_id (pr_route p), rt_event_type (pr_route p))"
    by (auto simp: landing_def prepared_ok_def route_of_Inr dest: epoch_of_Inr)
  show "event_type row = ACTIVATION_EVENT_TYPE
      \<and> map event_type (of_key (KERNEL_AGGREGATE, KERNEL_SINGLETON) (pg_events db)) = [GENESIS_EVENT_TYPE]"
    if "is_kernel_event row"
  proof -
    from that key have "rt_aggregate_type (pr_route p) = KERNEL_AGGREGATE" by (simp add: is_kernel_event_def)
    with route_types [OF route] obtain x y where c: "pr_command p = ActivateKernel x y"
      and e: "rt_event_type (pr_route p) = ACTIVATION_EVENT_TYPE" by blast
    from cut c have "epoch \<noteq> Epoch_Active" using second_cutover_refused by auto
    moreover from adm have "epoch \<noteq> Epoch_None" by (auto simp: admitted_def)
    ultimately have "epoch = Epoch_Sealed" by (cases epoch) auto
    with ep epoch_ordered_version(3) [OF good inv] e ty show ?thesis
      by (metis of_version_Sealed)
  qed
  show "\<exists>a \<in> set (pg_events db). is_activation a" if "\<not> is_kernel_event row"
  proof -
    have "\<not> (\<exists>x y. pr_command p = ActivateKernel x y)"
      using that key route_types [OF route] by (auto simp: is_kernel_event_def)
    with adm have "epoch = Epoch_Active"
      by (auto simp: admitted_def split: epoch.splits kernel_command.splits)
    with ep show ?thesis using epoch_ordered_version(2) [OF good inv] by (metis of_version_Active)
  qed
qed

interpretation epoch_law: kernel_law k epoch_ordered for k
proof
  show "epoch_ordered fresh_db" by (simp add: epoch_ordered_def fresh_db_def)
  show "epoch_ordered db'" if "epoch_ordered db" "beside_log db db'" for db db'
    using that epoch_ordered_cong [OF beside_log_fields(1) [OF that(2)]] by simp
  show "epoch_ordered (db\<lparr>pg_writer := w\<rparr>)" if "epoch_ordered db" for db w
    using that by (rule epoch_ordered_cong [THEN iffD2, rotated]) simp
  show "epoch_ordered db'" if o: "epoch_ordered db" and good: "pg_good db" and g: "genesis_step db db'" for db db'
  proof -
    from g obtain row where v0: "log_version (KERNEL_AGGREGATE, KERNEL_SINGLETON) (pg_events db) = 0"
      and key: "agg_key_of row = (KERNEL_AGGREGATE, KERNEL_SINGLETON)" "event_type row = GENESIS_EVENT_TYPE"
      and db': "db' = db\<lparr>pg_events := pg_events db @ [row], pg_writer := pg_writer db'\<rparr>"
      unfolding genesis_step_def by blast
    have "pg_events db' = pg_events db @ [row]"
      using arg_cong [OF db', of pg_events] by simp
    then show ?thesis
      by (rule epoch_ordered_snoc [OF o])
        (use key log_version_zero [OF good v0] in \<open>simp_all add: is_kernel_event_def\<close>)
  qed
  show "epoch_ordered db'" if o: "epoch_ordered db" and good: "pg_good db"
    and l: "landing env envelope p epoch decision row db db'"
    for db db' env envelope p epoch decision row
    by (rule epoch_ordered_snoc [OF o, where row = row])
      (use l landing_epoch [OF l good o] in \<open>auto simp: landing_def\<close>)
qed

end
