(* ===== verification/Gw_Rows.thy ===== *)
theory Gw_Rows
  imports Gw_Reach
begin

text \<open>
  The projection rows against the log. \<open>projection_law\<close> is the contract of an invariant of the
  projected tables: it has to survive an event of the kernel aggregate and one call of the
  projector. Every row of a versioned table carries the version its aggregate has in the log.
\<close>

section \<open>Invariants of the projected tables\<close>

locale projection_law =
  fixes k :: kernel_env and inv :: "json db \<Rightarrow> bool"
  assumes empty: "inv fresh_db"
    and side: "inv db \<Longrightarrow>
      inv (db\<lparr>pg_writer := w, t_receipt := rs, t_attention_item := ats, t_pty_delivery := ds\<rparr>)"
    and kernel_event: "inv db \<Longrightarrow> agg_key_of row = (KERNEL_AGGREGATE, KERNEL_SINGLETON) \<Longrightarrow>
      ordered_log (pg_events db @ [row]) \<Longrightarrow> inv (db\<lparr>pg_events := pg_events db @ [row]\<rparr>)"
    and projected: "inv db \<Longrightarrow> pg_good db \<Longrightarrow> pg_good db' \<Longrightarrow> speaks k env \<Longrightarrow>
      landing env envelope p epoch decision row db db' \<Longrightarrow>
      route_arm envelope (pr_command p) = Inr (fst (agg_key_of row), snd (agg_key_of row), ety) \<Longrightarrow>
      apply_command env row (pr_command p) db = Inr dbA \<Longrightarrow>
      inv (dbA\<lparr>pg_events := pg_events db @ [row]\<rparr>)"

sublocale projection_law \<subseteq> kernel_law k inv
proof
  show "inv fresh_db" by (rule empty)
  show "inv db'" if "inv db" "beside_log db db'" for db db'
  proof -
    from that(2) have "db' = db\<lparr>t_receipt := t_receipt db', t_attention_item := t_attention_item db'\<rparr>"
      by (simp add: beside_log_def)
    also have "\<dots> = db\<lparr>pg_writer := pg_writer db, t_receipt := t_receipt db',
        t_attention_item := t_attention_item db', t_pty_delivery := t_pty_delivery db\<rparr>" by simp
    finally show ?thesis using side [OF that(1)] by metis
  qed
  show w: "inv (db\<lparr>pg_writer := w\<rparr>)" if "inv db" for db w
  proof -
    have "db\<lparr>pg_writer := w\<rparr> = db\<lparr>pg_writer := w, t_receipt := t_receipt db,
        t_attention_item := t_attention_item db, t_pty_delivery := t_pty_delivery db\<rparr>" by simp
    then show ?thesis using side [OF that] by metis
  qed
  show "inv db'" if i: "inv db" and g: "genesis_step db db'" and good: "pg_good db'" for db db'
  proof -
    from g obtain row where "agg_key_of row = (KERNEL_AGGREGATE, KERNEL_SINGLETON)"
      and db': "db' = db\<lparr>pg_events := pg_events db @ [row], pg_writer := pg_writer db'\<rparr>"
      unfolding genesis_step_def by blast
    moreover have "ordered_log (pg_events db @ [row])"
      using good arg_cong [OF db', of pg_events] by (simp add: pg_good_def)
    ultimately have "inv (db\<lparr>pg_events := pg_events db @ [row]\<rparr>)" using kernel_event [OF i] by blast
    from w [OF this, of "pg_writer db'"] show ?thesis using db' by simp
  qed
  show "inv db'" if i: "inv db" and good: "pg_good db" "pg_good db'" "speaks k env"
    and l: "landing env envelope p epoch decision row db db'"
    for db db' env envelope p epoch decision row
  proof -
    from l have "projected_as env row (pr_command p) db db'" by (simp add: landing_def)
    then obtain dbA where A: "apply_command env row (pr_command p) db = Inr dbA"
      and db': "db' = frame (pg_events db @ [row]) (pg_writer db') (t_receipt db') (t_pty_delivery db') dbA"
      unfolding projected_as_def by blast
    from l have "route_arm envelope (pr_command p)
        = Inr (fst (agg_key_of row), snd (agg_key_of row), rt_event_type (pr_route p))"
      by (auto simp: landing_def prepared_ok_def route_of_Inr)
    from side [OF projected [OF i good l this A], where w = "pg_writer db'" and rs = "t_receipt db'"
        and ats = "t_attention_item dbA" and ds = "t_pty_delivery db'"]
    have "inv (frame (pg_events db @ [row]) (pg_writer db') (t_receipt db') (t_pty_delivery db') dbA)"
      by (simp add: frame_def)
    then show ?thesis using db' by metis
  qed
qed

section \<open>Row versions\<close>

definition tracks :: "string \<Rightarrow> ('r \<Rightarrow> u32) \<Rightarrow> 'r table \<Rightarrow> json event_envelope list \<Rightarrow> bool" where
  "tracks ty ver t log \<longleftrightarrow> (\<forall>i r. map_of t i = Some r \<longrightarrow> ver r = log_version (ty, i) log)"

definition versions_agree :: "json db \<Rightarrow> bool" where
  "versions_agree db \<longleftrightarrow>
     tracks ''task'' tk_version (t_task db) (pg_events db)
     \<and> tracks ''attempt'' at_version (t_attempt db) (pg_events db)
     \<and> tracks ''message'' ms_version (t_message db) (pg_events db)
     \<and> tracks ''command'' cm_version (t_command db) (pg_events db)
     \<and> tracks ''gate'' ga_version (t_gate db) (pg_events db)
     \<and> tracks ''lease'' le_version (t_lease db) (pg_events db)
     \<and> tracks ''dispatch_node'' dn_version (t_dispatch_node db) (pg_events db)
     \<and> tracks ''workspace_node'' wn_version (t_workspace_node db) (pg_events db)
     \<and> tracks ''workflow_run'' wf_version (t_workflow_run db) (pg_events db)
     \<and> tracks ''pty_session'' ps_version (t_pty_session db) (pg_events db)
     \<and> tracks ''pty_session_template'' pt_version (t_pty_template db) (pg_events db)"

definition moves :: "agg_key \<Rightarrow> u32 \<Rightarrow> string \<Rightarrow> ('r \<Rightarrow> u32) \<Rightarrow> 'r table \<Rightarrow> 'r table \<Rightarrow> bool" where
  "moves key v ty ver t t' \<longleftrightarrow>
     (\<forall>i r. map_of t' i = Some r \<longrightarrow> (if (ty, i) = key then ver r = v else map_of t i = Some r))"

lemma moves_self: "fst key \<noteq> ty \<Longrightarrow> moves key v ty ver t t"
  by (auto simp: moves_def)

lemma moves_update: "ver r = v \<Longrightarrow> moves (ty, i) v ty ver t (AList.update i r t)"
  by (auto simp: moves_def)

lemma moves_delete: "moves (ty, i) v ty ver t (AList.delete i t)"
  by (auto simp: moves_def delete_conv')

definition versions_move :: "agg_key \<Rightarrow> u32 \<Rightarrow> json db \<Rightarrow> json db \<Rightarrow> bool" where
  "versions_move key v db db' \<longleftrightarrow>
     moves key v ''task'' tk_version (t_task db) (t_task db')
     \<and> moves key v ''attempt'' at_version (t_attempt db) (t_attempt db')
     \<and> moves key v ''message'' ms_version (t_message db) (t_message db')
     \<and> moves key v ''command'' cm_version (t_command db) (t_command db')
     \<and> moves key v ''gate'' ga_version (t_gate db) (t_gate db')
     \<and> moves key v ''lease'' le_version (t_lease db) (t_lease db')
     \<and> moves key v ''dispatch_node'' dn_version (t_dispatch_node db) (t_dispatch_node db')
     \<and> moves key v ''workspace_node'' wn_version (t_workspace_node db) (t_workspace_node db')
     \<and> moves key v ''workflow_run'' wf_version (t_workflow_run db) (t_workflow_run db')
     \<and> moves key v ''pty_session'' ps_version (t_pty_session db) (t_pty_session db')
     \<and> moves key v ''pty_session_template'' pt_version (t_pty_template db) (t_pty_template db')"

lemma versions_move_row:
  "tk_version k = v \<Longrightarrow> versions_move (''task'', i) v db (db\<lparr>t_task := AList.update i k (t_task db)\<rparr>)"
  "at_version a = v \<Longrightarrow> versions_move (''attempt'', i) v db (db\<lparr>t_attempt := AList.update i a (t_attempt db)\<rparr>)"
  "ms_version m = v \<Longrightarrow> versions_move (''message'', i) v db (db\<lparr>t_message := AList.update i m (t_message db)\<rparr>)"
  "cm_version c = v \<Longrightarrow> versions_move (''command'', i) v db (db\<lparr>t_command := AList.update i c (t_command db)\<rparr>)"
  "ga_version g = v \<Longrightarrow> versions_move (''gate'', i) v db (db\<lparr>t_gate := AList.update i g (t_gate db)\<rparr>)"
  "le_version l = v \<Longrightarrow> versions_move (''lease'', i) v db (db\<lparr>t_lease := AList.update i l (t_lease db)\<rparr>)"
  "dn_version n = v \<Longrightarrow>
     versions_move (''dispatch_node'', i) v db (db\<lparr>t_dispatch_node := AList.update i n (t_dispatch_node db)\<rparr>)"
  "wn_version w = v \<Longrightarrow>
     versions_move (''workspace_node'', i) v db (db\<lparr>t_workspace_node := AList.update i w (t_workspace_node db)\<rparr>)"
  "versions_move (''workspace_node'', i) v db (db\<lparr>t_workspace_node := AList.delete i (t_workspace_node db)\<rparr>)"
  "wf_version f = v \<Longrightarrow>
     versions_move (''workflow_run'', i) v db (db\<lparr>t_workflow_run := AList.update i f (t_workflow_run db)\<rparr>)"
  "ps_version s = v \<Longrightarrow>
     versions_move (''pty_session'', i) v db (db\<lparr>t_pty_session := AList.update i s (t_pty_session db)\<rparr>)"
  "pt_version p = v \<Longrightarrow>
     versions_move (''pty_session_template'', i) v db (db\<lparr>t_pty_template := AList.update i p (t_pty_template db)\<rparr>)"
  by (simp_all add: versions_move_def moves_self moves_update moves_delete)

lemma versions_move_other:
  "versions_move (''kernel'', i) v db db"
  "versions_move (''pty_session_start'', i) v db db"
  "versions_move (''engine_session'', i) v db (db\<lparr>t_engine_session := x1\<rparr>)"
  "versions_move (''worktree'', i) v db (db\<lparr>t_worktree := x2\<rparr>)"
  "versions_move (''evidence'', i) v db (db\<lparr>t_evidence := x3\<rparr>)"
  "versions_move (''cost_entry'', i) v db (db\<lparr>t_cost_entry := x4\<rparr>)"
  "versions_move (''authority_grant'', i) v db (db\<lparr>t_authority_grant := x5\<rparr>)"
  "versions_move (''attention_item'', i) v db (db\<lparr>t_attention_item := x6\<rparr>)"
  "versions_move (''orchestrator_checkpoint'', i) v db (db\<lparr>t_checkpoint := x7\<rparr>)"
  "versions_move (''ingested_record'', i) v db (db\<lparr>t_ingested_record := x8\<rparr>)"
  by (simp_all add: versions_move_def moves_self)

lemma apply_command_versions:
  assumes "apply_command env row c db = Inr db'" and "route_arm envelope c = Inr (aty, aid, ety)"
  shows "versions_move (aty, aid) (aggregate_version row) db db'"
  using assms
  by (cases c) (auto simp: apply_command_def Let_def project_defs statement_simps result_simps
      route_arm_defs kernel_names versions_move_row versions_move_other split: option.splits if_splits)

lemma log_version_snoc:
  assumes "ordered_log (log @ [row])"
  shows "log_version k (log @ [row]) = (if agg_key_of row = k then aggregate_version row else log_version k log)"
proof (cases "agg_key_of row = k")
  case True
  then have "of_key k (log @ [row]) = of_key k log @ [row]" by simp
  with ordered_log_versions [OF assms, of k] log_version_length [OF assms, of k]
  have "last (map (\<lambda>e. unat (aggregate_version e)) (of_key k log @ [row])) = unat (log_version k (log @ [row]))"
    by (simp del: map_append)
  with True show ?thesis by (simp add: word_unat_eq_iff)
next
  case False
  then show ?thesis by (simp add: log_version_def)
qed

lemma tracks_snoc:
  assumes "tracks ty ver t log" and "moves (agg_key_of row) (aggregate_version row) ty ver t t'"
    and "ordered_log (log @ [row])"
  shows "tracks ty ver t' (log @ [row])"
  using assms by (auto simp: tracks_def moves_def log_version_snoc split: if_splits)

lemma versions_agree_snoc:
  assumes "versions_agree db" and "versions_move (agg_key_of row) (aggregate_version row) db dbA"
    and "ordered_log (pg_events db @ [row])"
  shows "versions_agree (dbA\<lparr>pg_events := pg_events db @ [row]\<rparr>)"
  using assms(1,2) by (auto simp: versions_agree_def versions_move_def intro: tracks_snoc [OF _ _ assms(3)])

interpretation version_law: projection_law k versions_agree for k
proof
  show "versions_agree fresh_db" by (simp add: versions_agree_def fresh_db_def tracks_def)
  show "versions_agree (db\<lparr>pg_writer := w, t_receipt := rs, t_attention_item := ats, t_pty_delivery := ds\<rparr>)"
    if "versions_agree db" for db w rs ats ds
    using that by (simp add: versions_agree_def)
  show "versions_agree (db\<lparr>pg_events := pg_events db @ [row]\<rparr>)"
    if "versions_agree db" and "agg_key_of row = (KERNEL_AGGREGATE, KERNEL_SINGLETON)"
      and "ordered_log (pg_events db @ [row])" for db row
    using that versions_agree_snoc [of db row db] by (simp add: versions_move_other kernel_names)
  show "versions_agree (dbA\<lparr>pg_events := pg_events db @ [row]\<rparr>)"
    if v: "versions_agree db" and good: "pg_good db'" and l: "landing env envelope p epoch decision row db db'"
      and r: "route_arm envelope (pr_command p) = Inr (fst (agg_key_of row), snd (agg_key_of row), ety)"
      and A: "apply_command env row (pr_command p) db = Inr dbA"
    for db db' env envelope p epoch decision row ety dbA
  proof -
    from l good have "ordered_log (pg_events db @ [row])" by (simp add: landing_def pg_good_def)
    moreover have "versions_move (agg_key_of row) (aggregate_version row) db dbA"
      using apply_command_versions [OF A r] by simp
    ultimately show ?thesis by (intro versions_agree_snoc [OF v])
  qed
qed
end
