(* ===== verification/Gw_Life.thy ===== *)
theory Gw_Life
  imports Gw_Rows
begin

text \<open>
  The life of the four kinds of rows with a state machine. The transition table the database
  checks is the edge lists of \<open>fsm.rs\<close>; hence, whatever is submitted, a row only ever moves along
  its machine, starts in its initial state, is never lost, and stays in a terminal state for good.
\<close>

section \<open>The transition table and the edge lists\<close>

lemma transition_rows_task:
  "(''task'', task_state_str f, task_state_str t) \<in> set transition_rows \<longleftrightarrow> (f, t) \<in> set task_edges"
  by (cases f; cases t) (simp_all add: transition_rows_def task_edges_def)

lemma transition_rows_attempt:
  "(''attempt'', attempt_state_str f, attempt_state_str t) \<in> set transition_rows
     \<longleftrightarrow> (f, t) \<in> set attempt_edges"
  by (cases f; cases t) (simp_all add: transition_rows_def attempt_edges_def)

lemma transition_rows_message:
  "(''message'', message_state_str f, message_state_str t) \<in> set transition_rows
     \<longleftrightarrow> (f, t) \<in> set message_edges"
  by (cases f; cases t) (simp_all add: transition_rows_def message_edges_def)

lemma transition_rows_command:
  "(''command'', command_state_str f, command_state_str t) \<in> set transition_rows
     \<longleftrightarrow> (f, t) \<in> set command_edges"
  by (cases f; cases t) (simp_all add: transition_rows_def command_edges_def)

lemma task_state_str_inj: "task_state_str a = task_state_str b \<longleftrightarrow> a = b"
  by (cases a; cases b) simp_all

lemma attempt_state_str_inj: "attempt_state_str a = attempt_state_str b \<longleftrightarrow> a = b"
  by (cases a; cases b) simp_all

lemma message_state_str_inj: "message_state_str a = message_state_str b \<longleftrightarrow> a = b"
  by (cases a; cases b) simp_all

lemma command_state_str_inj: "command_state_str a = command_state_str b \<longleftrightarrow> a = b"
  by (cases a; cases b) simp_all

lemmas state_str_inj = task_state_str_inj attempt_state_str_inj message_state_str_inj command_state_str_inj

lemma guards_follow_edges:
  "task_guard k k' \<Longrightarrow> (tk_state k, tk_state k') \<in> (set task_edges)\<^sup>="
  "attempt_row_guard a a' \<Longrightarrow> (at_state a, at_state a') \<in> (set attempt_edges)\<^sup>="
  "message_guard m m' \<Longrightarrow> (ms_state m, ms_state m') \<in> (set message_edges)\<^sup>="
  "command_guard c c' \<Longrightarrow> (cm_state c, cm_state c') \<in> (set command_edges)\<^sup>="
  by (auto simp: task_guard_def attempt_row_guard_def message_guard_def command_guard_def
      assert_transition_def state_str_inj transition_rows_task transition_rows_attempt
      transition_rows_message transition_rows_command)

section \<open>Rows move along their machines\<close>

definition lives_on :: "('s \<times> 's) list \<Rightarrow> 's \<Rightarrow> ('r \<Rightarrow> 's) \<Rightarrow> 'r table \<Rightarrow> 'r table \<Rightarrow> bool" where
  "lives_on edges start st t t' \<longleftrightarrow>
     (\<forall>i r'. map_of t' i = Some r' \<longrightarrow>
        ((case map_of t i of None \<Rightarrow> start | Some r \<Rightarrow> st r), st r') \<in> (set edges)\<^sup>*)
     \<and> (\<forall>i. map_of t' i = None \<longrightarrow> map_of t i = None)"

lemma lives_on_refl [simp]: "lives_on edges start st t t"
  by (simp add: lives_on_def)

lemma lives_on_trans:
  assumes "lives_on edges start st t t1" and "lives_on edges start st t1 t2"
  shows "lives_on edges start st t t2"
  unfolding lives_on_def
proof (intro conjI allI impI)
  fix i r' assume r': "map_of t2 i = Some r'"
  then have b: "((case map_of t1 i of None \<Rightarrow> start | Some r \<Rightarrow> st r), st r') \<in> (set edges)\<^sup>*"
    using assms(2) unfolding lives_on_def by blast
  show "((case map_of t i of None \<Rightarrow> start | Some r \<Rightarrow> st r), st r') \<in> (set edges)\<^sup>*"
  proof (cases "map_of t1 i")
    case None
    with assms(1) have "map_of t i = None" unfolding lives_on_def by blast
    with b None show ?thesis by simp
  next
    case (Some r1)
    with assms(1) have "((case map_of t i of None \<Rightarrow> start | Some r \<Rightarrow> st r), st r1) \<in> (set edges)\<^sup>*"
      unfolding lives_on_def by blast
    with b Some show ?thesis by (auto intro: rtrancl_trans)
  qed
next
  fix i assume "map_of t2 i = None"
  then show "map_of t i = None" using assms unfolding lives_on_def by blast
qed

lemma lives_on_insert: "map_of t i = None \<Longrightarrow> st r = start \<Longrightarrow> lives_on edges start st t (AList.update i r t)"
  by (auto simp: lives_on_def split: option.split)

lemma lives_on_update:
  "map_of t i = Some r \<Longrightarrow> (st r, st r') \<in> (set edges)\<^sup>= \<Longrightarrow> lives_on edges start st t (AList.update i r' t)"
  by (auto simp: lives_on_def split: option.split)

definition rows_live_on :: "json db \<Rightarrow> json db \<Rightarrow> bool" where
  "rows_live_on db db' \<longleftrightarrow>
     lives_on task_edges Task_Submitted tk_state (t_task db) (t_task db')
     \<and> lives_on attempt_edges Attempt_Queued at_state (t_attempt db) (t_attempt db')
     \<and> lives_on message_edges Message_Accepted ms_state (t_message db) (t_message db')
     \<and> lives_on command_edges Command_Issued cm_state (t_command db) (t_command db')"

lemma rows_live_on_insert:
  "map_of (t_task db) i = None \<Longrightarrow> tk_state k = Task_Submitted \<Longrightarrow>
     rows_live_on db (db\<lparr>t_task := AList.update i k (t_task db)\<rparr>)"
  "map_of (t_attempt db) i = None \<Longrightarrow> at_state a = Attempt_Queued \<Longrightarrow>
     rows_live_on db (db\<lparr>t_attempt := AList.update i a (t_attempt db)\<rparr>)"
  "map_of (t_message db) i = None \<Longrightarrow> ms_state m = Message_Accepted \<Longrightarrow>
     rows_live_on db (db\<lparr>t_message := AList.update i m (t_message db)\<rparr>)"
  "map_of (t_command db) i = None \<Longrightarrow> cm_state c = Command_Issued \<Longrightarrow>
     rows_live_on db (db\<lparr>t_command := AList.update i c (t_command db)\<rparr>)"
  by (simp_all add: rows_live_on_def lives_on_insert)

lemma rows_live_on_update:
  "map_of (t_task db) i = Some k \<Longrightarrow> task_guard k k' \<Longrightarrow>
     rows_live_on db (db\<lparr>t_task := AList.update i k' (t_task db)\<rparr>)"
  "map_of (t_attempt db) i = Some a \<Longrightarrow> attempt_row_guard a a' \<Longrightarrow>
     rows_live_on db (db\<lparr>t_attempt := AList.update i a' (t_attempt db)\<rparr>)"
  "map_of (t_message db) i = Some m \<Longrightarrow> message_guard m m' \<Longrightarrow>
     rows_live_on db (db\<lparr>t_message := AList.update i m' (t_message db)\<rparr>)"
  "map_of (t_command db) i = Some c \<Longrightarrow> command_guard c c' \<Longrightarrow>
     rows_live_on db (db\<lparr>t_command := AList.update i c' (t_command db)\<rparr>)"
  by (simp_all add: rows_live_on_def lives_on_update guards_follow_edges [simplified])

lemma rows_live_on_other:
  "rows_live_on db db"
  "rows_live_on db (db\<lparr>t_engine_session := x1\<rparr>)" "rows_live_on db (db\<lparr>t_gate := x2\<rparr>)"
  "rows_live_on db (db\<lparr>t_authority_grant := x3\<rparr>)" "rows_live_on db (db\<lparr>t_evidence := x4\<rparr>)"
  "rows_live_on db (db\<lparr>t_cost_entry := x5\<rparr>)" "rows_live_on db (db\<lparr>t_attention_item := x6\<rparr>)"
  "rows_live_on db (db\<lparr>t_worktree := x7\<rparr>)" "rows_live_on db (db\<lparr>t_workspace_node := x8\<rparr>)"
  "rows_live_on db (db\<lparr>t_workflow_run := x9\<rparr>)" "rows_live_on db (db\<lparr>t_pty_session := x10\<rparr>)"
  "rows_live_on db (db\<lparr>t_pty_template := x11\<rparr>)" "rows_live_on db (db\<lparr>t_lease := x12\<rparr>)"
  "rows_live_on db (db\<lparr>t_dispatch_node := x13\<rparr>)" "rows_live_on db (db\<lparr>t_checkpoint := x14\<rparr>)"
  "rows_live_on db (db\<lparr>t_ingested_record := x15\<rparr>)"
  by (simp_all add: rows_live_on_def)

lemma apply_command_lives_on:
  assumes "apply_command env row c db = Inr db'"
  shows "rows_live_on db db'"
  using assms
  by (cases c) (auto simp: apply_command_def Let_def project_defs statement_simps result_simps
      rows_live_on_insert rows_live_on_update rows_live_on_other split: option.splits if_splits)

interpretation life_law: kernel_progress k "\<lambda>_. True" rows_live_on for k
proof
  show "rows_live_on db db" for db by (simp add: rows_live_on_def)
  show "rows_live_on db db2" if "rows_live_on db db1" "rows_live_on db1 db2" for db db1 db2
    using that unfolding rows_live_on_def by (blast intro: lives_on_trans)
  show "rows_live_on db db'" if "beside_log db db'" for db db'
  proof -
    from that have "db' = db\<lparr>t_receipt := t_receipt db', t_attention_item := t_attention_item db'\<rparr>"
      by (simp add: beside_log_def)
    then obtain rs ats where "db' = db\<lparr>t_receipt := rs, t_attention_item := ats\<rparr>" by blast
    then show ?thesis by (simp add: rows_live_on_def)
  qed
  show "rows_live_on db db'" if "genesis_step db db'" for db db'
  proof -
    from that obtain row w where "db' = db\<lparr>pg_events := pg_events db @ [row], pg_writer := w\<rparr>"
      unfolding genesis_step_def by blast
    then show ?thesis by (simp add: rows_live_on_def)
  qed
  show "rows_live_on db (db\<lparr>pg_writer := w\<rparr>)" for db w by (simp add: rows_live_on_def)
  show "rows_live_on db db'" if "landing env envelope p epoch decision row db db'"
    for db db' env envelope p epoch decision row
  proof -
    from that have "projected_as env row (pr_command p) db db'" by (simp add: landing_def)
    then obtain dbA es w rs ds where "apply_command env row (pr_command p) db = Inr dbA"
      and "db' = frame es w rs ds dbA"
      unfolding projected_as_def by blast
    then show ?thesis using apply_command_lives_on [of env row "pr_command p" db dbA]
      by (simp add: rows_live_on_def frame_def)
  qed
qed simp_all

end
