(* ===== verification/Gw_Tree.thy ===== *)
theory Gw_Tree
  imports Gw_Rows
begin

text \<open>
  The workspace tree. In every reachable state each node has a path of parents up to a workspace,
  kinds alternate the way \<open>assert_legal_parent\<close> wants them, and the recursive ancestor query of
  \<open>submit.rs\<close>, which has no cycle check, ends within one round per row.
\<close>

section \<open>Paths to a root\<close>

inductive root_path :: "workspace_node_row table \<Rightarrow> string \<Rightarrow> string list \<Rightarrow> bool"
  for t :: "workspace_node_row table" where
  root: "map_of t i = Some r \<Longrightarrow> wn_parent_id r = None \<Longrightarrow> root_path t i [i]"
| child: "map_of t i = Some r \<Longrightarrow> wn_parent_id r = Some p \<Longrightarrow> root_path t p xs \<Longrightarrow> root_path t i (i # xs)"

inductive_cases root_pathE: "root_path t i xs"

lemma root_path_unique: "root_path t i xs \<Longrightarrow> root_path t i ys \<Longrightarrow> xs = ys"
  by (induction arbitrary: ys rule: root_path.induct) (erule root_pathE; auto)+

lemma root_path_dom: "root_path t i xs \<Longrightarrow> set xs \<subseteq> dom (map_of t) \<and> i \<in> set xs"
  by (induction rule: root_path.induct) auto

lemma root_path_suffix:
  "root_path t i xs \<Longrightarrow> j \<in> set xs \<Longrightarrow> \<exists>ys. root_path t j ys \<and> length ys \<le> length xs"
proof (induction rule: root_path.induct)
  case (root i r)
  then show ?case using root_path.root [OF root(1,2)] by auto
next
  case (child i r p xs)
  show ?case
  proof (cases "j = i")
    case True
    then show ?thesis using root_path.child [OF child(1,2,3)] by blast
  next
    case False
    with child.IH child.prems obtain ys where "root_path t j ys" "length ys \<le> length xs" by auto
    then show ?thesis by (intro exI [of _ ys]) simp
  qed
qed

lemma root_path_distinct: "root_path t i xs \<Longrightarrow> distinct xs"
proof (induction rule: root_path.induct)
  case (child i r p xs)
  have "i \<notin> set xs"
  proof
    assume "i \<in> set xs"
    then obtain ys where "root_path t i ys" "length ys \<le> length xs"
      using root_path_suffix [OF child(3)] by blast
    with root_path_unique [OF _ root_path.child [OF child(1-3)]] show False by force
  qed
  with child.IH show ?case by simp
qed simp

lemma root_path_length:
  assumes "root_path t i xs" shows "length xs \<le> length t"
proof -
  have "length xs = card (set xs)" using root_path_distinct [OF assms] by (simp add: distinct_card)
  also have "\<dots> \<le> card (dom (map_of t))"
    using root_path_dom [OF assms] by (intro card_mono) (auto simp: finite_dom_map_of)
  also have "\<dots> \<le> length t"
    by (simp add: dom_map_of_conv_image_fst) (metis card_image_le card_length finite_set le_trans)
  finally show ?thesis .
qed

lemma has_ancestor_path:
  "root_path t i xs \<Longrightarrow> length xs \<le> fuel \<Longrightarrow> has_ancestor fuel t i target = Some (target \<in> set xs)"
proof (induction arbitrary: fuel rule: root_path.induct)
  case (root i r)
  then show ?case by (cases fuel) auto
next
  case (child i r p xs)
  then show ?case by (cases fuel) auto
qed

section \<open>The forest invariant\<close>

definition kind_under :: "workspace_node_kind \<Rightarrow> workspace_node_kind option \<Rightarrow> bool" where
  "kind_under kind parent =
     (case parent of
        None \<Rightarrow> kind = Node_Workspace
      | Some p \<Rightarrow> kind = Node_Tab \<and> p = Node_Workspace \<or> kind = Node_Pane \<and> p \<noteq> Node_Workspace)"

definition forest :: "workspace_node_row table \<Rightarrow> bool" where
  "forest t \<longleftrightarrow> distinct (map fst t)
     \<and> (\<forall>i \<in> dom (map_of t). \<exists>xs. root_path t i xs)
     \<and> (\<forall>i r. map_of t i = Some r \<longrightarrow>
          kind_under (wn_kind r) (Option.bind (wn_parent_id r) (\<lambda>p. map_option wn_kind (map_of t p))))"

lemma root_path_keep:
  assumes "root_path t j xs" and "\<And>k. k \<in> set xs \<Longrightarrow> map_option wn_parent_id (map_of t' k) = map_option wn_parent_id (map_of t k)"
  shows "root_path t' j xs"
  using assms
proof (induction rule: root_path.induct)
  case (root i r)
  then show ?case by (auto intro: root_path.root)
next
  case (child i r p xs)
  from child.prems [of i] child(1,2) obtain r' where "map_of t' i = Some r'" "wn_parent_id r' = Some p"
    by auto
  with child show ?case by (auto intro: root_path.child)
qed

lemma forest_path:
  assumes "forest t" and "map_of t i = Some r" obtains xs where "root_path t i xs"
  using assms unfolding forest_def by blast

lemma forest_kind:
  "forest t \<Longrightarrow> map_of t i = Some r \<Longrightarrow>
     kind_under (wn_kind r) (Option.bind (wn_parent_id r) (\<lambda>p. map_option wn_kind (map_of t p)))"
  unfolding forest_def by blast

lemma forest_parent:
  assumes "forest t" and "map_of t i = Some r" and "wn_parent_id r = Some p"
  shows "\<exists>parent. map_of t p = Some parent"
proof -
  obtain xs where "root_path t i xs" using forest_path [OF assms(1,2)] .
  then show ?thesis using assms(2,3) by (cases rule: root_path.cases) (auto dest: root_path_dom)
qed

lemma parent_kind:
  assumes "assert_workspace_parentage t i r"
    and "\<And>p. wn_parent_id r = Some p \<Longrightarrow> \<exists>parent. map_of t p = Some parent"
  shows "kind_under (wn_kind r) (Option.bind (wn_parent_id r) (\<lambda>p. map_option wn_kind (map_of t p)))"
proof (cases "wn_parent_id r")
  case None
  with assms(1) show ?thesis by (simp add: assert_workspace_parentage_def kind_under_def)
next
  case (Some p)
  with assms(2) obtain parent where "map_of t p = Some parent" by blast
  with assms(1) Some show ?thesis
    by (cases "wn_kind r") (auto simp: assert_workspace_parentage_def kind_under_def)
qed

lemma forest_insert:
  assumes f: "forest t" and new: "map_of t i = None" and par: "assert_workspace_parentage t i r"
    and known: "\<And>p. wn_parent_id r = Some p \<Longrightarrow> p \<noteq> i \<and> (\<exists>parent. map_of t p = Some parent)"
  shows "forest (AList.update i r t)"
proof -
  let ?t = "AList.update i r t"
  have keep: "root_path ?t j xs" if "root_path t j xs" for j xs
    using that by (rule root_path_keep) (use new root_path_dom [OF that] in auto)
  have here: "\<exists>xs. root_path ?t i xs"
  proof (cases "wn_parent_id r")
    case None
    then have "root_path ?t i [i]" by (intro root_path.root) auto
    then show ?thesis ..
  next
    case (Some p)
    with known obtain parent where "map_of t p = Some parent" by blast
    with forest_path [OF f] obtain xs where "root_path t p xs" by blast
    then have "root_path ?t i (i # xs)" using Some keep by (intro root_path.child) auto
    then show ?thesis ..
  qed
  have kinds: "map_option wn_kind (map_of ?t p) = map_option wn_kind (map_of t p)" if "p \<noteq> i" for p
    using that by simp
  show ?thesis
    unfolding forest_def
  proof (intro conjI ballI allI impI)
    show "distinct (map fst ?t)" using f by (simp add: forest_def distinct_update)
    show "\<exists>xs. root_path ?t j xs" if "j \<in> dom (map_of ?t)" for j
    proof (cases "j = i")
      case True
      then show ?thesis using here by simp
    next
      case False
      with that have "j \<in> dom (map_of t)" by auto
      with f obtain xs where "root_path t j xs" unfolding forest_def by blast
      then show ?thesis using keep by blast
    qed
    fix j s assume s: "map_of ?t j = Some s"
    show "kind_under (wn_kind s) (Option.bind (wn_parent_id s) (\<lambda>p. map_option wn_kind (map_of ?t p)))"
    proof (cases "j = i")
      case True
      with s have "s = r" by simp
      with parent_kind [OF par] known kinds show ?thesis by (cases "wn_parent_id r") auto
    next
      case False
      with s have js: "map_of t j = Some s" by simp
      have "wn_parent_id s \<noteq> Some i"
        using forest_parent [OF f js, of i] new by auto
      with forest_kind [OF f js] kinds show ?thesis by (cases "wn_parent_id s") auto
    qed
  qed
qed

lemma forest_change:
  assumes f: "forest t" and old: "map_of t i = Some old" and kind: "wn_kind r = wn_kind old"
    and par: "assert_workspace_parentage t i r"
    and known: "\<And>p. wn_parent_id r = Some p \<Longrightarrow> \<exists>xs. root_path t p xs \<and> i \<notin> set xs"
  shows "forest (AList.update i r t)"
proof -
  let ?t = "AList.update i r t"
  have avoid: "root_path ?t j xs" if "root_path t j xs" "i \<notin> set xs" for j xs
    using that(1) by (rule root_path_keep) (use that(2) in auto)
  have here: "\<exists>xs. root_path ?t i xs"
  proof (cases "wn_parent_id r")
    case None
    then have "root_path ?t i [i]" by (intro root_path.root) auto
    then show ?thesis ..
  next
    case (Some p)
    with known obtain xs where "root_path t p xs" "i \<notin> set xs" by blast
    then have "root_path ?t i (i # xs)" using Some avoid by (intro root_path.child) auto
    then show ?thesis ..
  qed
  have up: "\<exists>ys. root_path ?t j ys" if "root_path t j xs" for j xs
    using that
  proof (induction rule: root_path.induct)
    case (root j s)
    then show ?case using here root_path.root [of ?t j s] by (cases "j = i") auto
  next
    case (child j s p xs)
    then show ?case using here root_path.child [of ?t j s p] by (cases "j = i") auto
  qed
  have kinds: "map_option wn_kind (map_of ?t p) = map_option wn_kind (map_of t p)" for p
    using old kind by simp
  show ?thesis
    unfolding forest_def
  proof (intro conjI ballI allI impI)
    show "distinct (map fst ?t)" using f by (simp add: forest_def distinct_update)
    show "\<exists>xs. root_path ?t j xs" if "j \<in> dom (map_of ?t)" for j
    proof (cases "j = i")
      case True
      then show ?thesis using here by simp
    next
      case False
      with that have "j \<in> dom (map_of t)" by auto
      with f obtain xs where "root_path t j xs" unfolding forest_def by blast
      then show ?thesis by (rule up)
    qed
    fix j s assume s: "map_of ?t j = Some s"
    show "kind_under (wn_kind s) (Option.bind (wn_parent_id s) (\<lambda>p. map_option wn_kind (map_of ?t p)))"
    proof (cases "j = i")
      case True
      with s have "s = r" by simp
      moreover have "\<exists>parent. map_of t p = Some parent" if "wn_parent_id r = Some p" for p
        using known [OF that] root_path_dom by blast
      ultimately show ?thesis using parent_kind [OF par] kinds by simp
    next
      case False
      with s have js: "map_of t j = Some s" by simp
      with forest_kind [OF f js] kinds show ?thesis by simp
    qed
  qed
qed

lemma forest_delete:
  assumes f: "forest t" and leaf: "\<not> has_children (AList.delete i t) i"
  shows "forest (AList.delete i t)"
proof -
  let ?t = "AList.delete i t"
  have leaf': "wn_parent_id s \<noteq> Some i" if "map_of t j = Some s" "j \<noteq> i" for j s
  proof -
    have "map_of ?t j = Some s" using that by (simp add: delete_conv')
    then have "(j, s) \<in> set ?t" by (rule map_of_SomeD)
    with leaf show ?thesis by (auto simp: has_children_def list_ex_iff)
  qed
  have avoid: "i \<notin> set xs" if "root_path t j xs" "j \<noteq> i" for j xs
    using that
  proof (induction rule: root_path.induct)
    case (child j s p xs)
    with leaf' [OF child(1)] show ?case by auto
  qed simp
  have keep: "root_path ?t j xs" if "root_path t j xs" "j \<noteq> i" for j xs
    using that(1) by (rule root_path_keep) (use avoid [OF that] in \<open>auto simp: delete_conv'\<close>)
  show ?thesis
    unfolding forest_def
  proof (intro conjI ballI allI impI)
    show "distinct (map fst ?t)" using f by (simp add: forest_def distinct_delete)
    show "\<exists>xs. root_path ?t j xs" if "j \<in> dom (map_of ?t)" for j
    proof -
      from that have "j \<noteq> i" "j \<in> dom (map_of t)" by (auto simp: delete_conv' split: if_splits)
      then show ?thesis using f keep unfolding forest_def by blast
    qed
    fix j s assume "map_of ?t j = Some s"
    then have ji: "j \<noteq> i" and js: "map_of t j = Some s" by (auto simp: delete_conv' split: if_splits)
    then show "kind_under (wn_kind s) (Option.bind (wn_parent_id s) (\<lambda>p. map_option wn_kind (map_of ?t p)))"
      using forest_kind [OF f js] leaf' [OF js ji] by (cases "wn_parent_id s") (auto simp: delete_conv')
  qed
qed

section \<open>The projector keeps the forest\<close>

definition workspace_command :: "kernel_command \<Rightarrow> bool" where
  "workspace_command c =
     (case c of
        CreateWorkspaceNode _ _ _ _ \<Rightarrow> True
      | MoveWorkspaceNode _ _ _ \<Rightarrow> True
      | RebindWorkspacePane _ _ _ \<Rightarrow> True
      | CloseWorkspaceNode _ _ \<Rightarrow> True
      | _ \<Rightarrow> False)"

lemma workspace_commandE:
  assumes "workspace_command c"
  obtains i k p s where "c = CreateWorkspaceNode i k p s" | i p x where "c = MoveWorkspaceNode i p x"
    | i s x where "c = RebindWorkspacePane i s x" | i x where "c = CloseWorkspaceNode i x"
  using assms by (cases c) (auto simp: workspace_command_def)

lemma apply_command_workspace:
  assumes "apply_command env row c db = Inr db'" and "\<not> workspace_command c"
  shows "t_workspace_node db' = t_workspace_node db"
  using assms
  by (cases c) (auto simp: apply_command_def Let_def project_defs statement_simps result_simps
      workspace_command_def split: option.splits if_splits)

lemma decide_move_Inr:
  assumes "decide_move_workspace_node env route i p x db = Inr v" and "forest (t_workspace_node db)"
  shows "\<exists>xs. root_path (t_workspace_node db) p xs \<and> i \<notin> set xs"
proof -
  from assms(1) obtain r where "map_of (t_workspace_node db) p = Some r"
    and walk: "has_ancestor (Suc (length (t_workspace_node db))) (t_workspace_node db) p i = Some False"
    by (auto simp: decide_move_workspace_node_def assert_legal_parent_def workspace_node_kind_of_def result_simps)
  then obtain xs where xs: "root_path (t_workspace_node db) p xs" using forest_path [OF assms(2)] by blast
  with walk has_ancestor_path [OF xs, of "Suc (length (t_workspace_node db))" i] root_path_length [OF xs]
  show ?thesis by auto
qed

lemma own_path_above:
  assumes "forest t" and "map_of t i = Some r" and "wn_parent_id r = Some p"
  shows "\<exists>xs. root_path t p xs \<and> i \<notin> set xs"
proof -
  obtain ys where ys: "root_path t i ys" using forest_path [OF assms(1,2)] .
  then obtain xs where "ys = i # xs" "root_path t p xs"
    using assms(2,3) by (cases rule: root_path.cases) auto
  with root_path_distinct [OF ys] show ?thesis by auto
qed

lemma project_workspace_forest:
  assumes f: "forest (t_workspace_node db)" and c: "workspace_command c"
    and A: "apply_command env row c db = Inr dbA" and d: "decide env' envelope c route db = Inr v"
  shows "forest (t_workspace_node dbA)"
  using c
proof (cases rule: workspace_commandE)
  case (1 i k p s)
  with A show ?thesis
    by (auto simp: apply_command_def project_create_workspace_node_def Let_def statement_simps
        result_simps references_def assert_workspace_parentage_def split: option.splits
        intro!: forest_insert [OF f])
next
  case (2 i p x)
  from d 2 have "\<exists>xs. root_path (t_workspace_node db) p xs \<and> i \<notin> set xs"
    using decide_move_Inr [OF _ f] by (simp add: decide_def)
  moreover from A 2 obtain old where old: "map_of (t_workspace_node db) i = Some old"
    and "workspace_node_guard (t_workspace_node db) i old (old\<lparr>wn_parent_id := Some p,
      wn_version := aggregate_version row, wn_updated_at := appended_at row\<rparr>)"
    and "t_workspace_node dbA = AList.update i (old\<lparr>wn_parent_id := Some p,
      wn_version := aggregate_version row, wn_updated_at := appended_at row\<rparr>) (t_workspace_node db)"
    by (auto simp: apply_command_def project_move_workspace_node_def Let_def statement_simps result_simps)
  ultimately show ?thesis
    by (auto simp: workspace_node_guard_def intro!: forest_change [OF f old])
next
  case (3 i s x)
  from A 3 obtain old where old: "map_of (t_workspace_node db) i = Some old"
    and "workspace_node_guard (t_workspace_node db) i old (old\<lparr>wn_session_id := Some s,
      wn_version := aggregate_version row, wn_updated_at := appended_at row\<rparr>)"
    and "t_workspace_node dbA = AList.update i (old\<lparr>wn_session_id := Some s,
      wn_version := aggregate_version row, wn_updated_at := appended_at row\<rparr>) (t_workspace_node db)"
    by (auto simp: apply_command_def project_rebind_workspace_pane_def Let_def statement_simps result_simps)
  then show ?thesis
    using own_path_above [OF f old]
    by (auto simp: workspace_node_guard_def intro!: forest_change [OF f old])
next
  case (4 i x)
  with A show ?thesis
    by (auto simp: apply_command_def project_close_workspace_node_def Let_def result_simps
        intro: forest_delete [OF f])
qed

interpretation forest_law: projection_law k "\<lambda>db. forest (t_workspace_node db)" for k
proof
  show "forest (t_workspace_node fresh_db)" by (simp add: forest_def fresh_db_def)
  show "forest (t_workspace_node (dbA\<lparr>pg_events := pg_events db @ [row]\<rparr>))"
    if "forest (t_workspace_node db)" and "landing env envelope p epoch decision row db db'"
      and "apply_command env row (pr_command p) db = Inr dbA"
    for db db' env envelope p epoch decision row dbA
    using that project_workspace_forest [of db "pr_command p" env row dbA env envelope "pr_route p"]
      apply_command_workspace [of env row "pr_command p" db dbA]
    by (cases "workspace_command (pr_command p)") (auto simp: landing_def)
qed simp_all

end
