(* ===== verification/Gw_Demo.thy ===== *)
theory Gw_Demo imports Gw_Reach begin

text \<open>
  A concrete kernel: a codec over a short table of commands, surroundings in which no statement
  fails, and the first commands of its life, evaluated through \<open>try_submit\<close>. The properties of
  the command path are applied to it.
\<close>

definition demo_table :: "(json \<times> kernel_command) list" where
  "demo_table =
     [(JObject [(''type'', JString ''activate_kernel''), (''cutover_id'', JString ''cut-1'')],
       ActivateKernel ''cut-1'' (replicate 64 (CHR ''a''))),
      (JObject [(''type'', JString ''create_task'')], CreateTask ''t-1'' None None None None None None),
      (JObject [(''type'', JString ''transition_task'')], TransitionTask ''t-1'' Task_Working 1),
      (JObject [(''type'', JString ''issue_command'')], IssueCommand ''c-1'' ''stop'' [''a-1''] None),
      (JObject [(''type'', JString ''resolve_attention'')],
       ResolveAttention ''page:stop:command/c-1'' None),
      (JObject [(''type'', JString ''grant_authority'')],
       GrantAuthority ''g-1'' \<lparr>actor_kind = ''orchestrator'', actor_id = None\<rparr> ''stop'' None None),
      (JObject [(''type'', JString ''create_workspace_node''), (''id'', JString ''w'')],
       CreateWorkspaceNode ''w'' Node_Workspace None None),
      (JObject [(''type'', JString ''create_workspace_node''), (''id'', JString ''a'')],
       CreateWorkspaceNode ''a'' Node_Tab (Some ''w'') None),
      (JObject [(''type'', JString ''raise_attention'')], RaiseAttention ''a-1'' ''review'' ''look'' None None None)]"

definition demo_encode :: "kernel_command \<Rightarrow> json" where
  "demo_encode c = (case find (\<lambda>(_, d). d = c) demo_table of None \<Rightarrow> JNull | Some (j, _) \<Rightarrow> j)"

definition demo_kernel :: kernel_env where
  "demo_kernel =
     \<lparr>se_fails = (\<lambda>_. False), se_payload_len = (\<lambda>_. 2), se_jsonb = (\<lambda>j. j),
      se_timestamptz = (\<lambda>t. t), se_now = ''2026-01-02'', se_boot_epoch = 0, se_permit = True,
      se_overdue = False, se_blobs = False, ke_encode = demo_encode, ke_decode = map_of demo_table,
      ke_print = (\<lambda>_. []), ke_later = (\<lambda>_ _. True), ke_clock = ''2026-01-02'', ke_mac = id\<rparr>"

lemma find_value: "(j, c) \<in> set xs \<Longrightarrow> \<exists>i. find (\<lambda>(_, d). d = c) xs = Some (i, c) \<and> (i, c) \<in> set xs"
  by (induction xs) auto

lemma demo_codec:
  assumes "map_of demo_table j = Some c"
  shows "map_of demo_table (demo_encode c) = Some c"
proof -
  obtain i where "find (\<lambda>(_, d). d = c) demo_table = Some (i, c)" and i: "(i, c) \<in> set demo_table"
    using find_value [OF map_of_SomeD [OF assms]] by blast
  then have "demo_encode c = i" by (simp add: demo_encode_def)
  moreover have "distinct (map fst demo_table)" by (simp add: demo_table_def)
  ultimately show ?thesis using i by (simp add: map_of_is_SomeI)
qed

lemma demo_wire: "wire_ok demo_kernel envelope"
  using demo_codec
  by (auto simp: wire_ok_def from_envelope_def demo_kernel_def result_simps split: option.splits if_splits)

definition demo_envelope :: "string \<Rightarrow> string \<Rightarrow> string \<Rightarrow> json \<Rightarrow> json command_envelope" where
  "demo_envelope kind key ctype body =
     \<lparr>cmd_command_id = key, cmd_project_id = ''p'', cmd_command_type = ctype,
      cmd_schema_version = 1, cmd_issued_at = ''2026-01-01'',
      cmd_actor = \<lparr>actor_kind = kind, actor_id = None\<rparr>,
      cmd_origin = \<lparr>origin_system = ''cli'', origin_ref = None\<rparr>,
      cmd_target_aggregate_type = None, cmd_target_aggregate_id = None, cmd_expected_version = None,
      cmd_idempotency_key = key, cmd_causation_id = None, cmd_correlation_id = None,
      cmd_payload = body\<rparr>"

definition demo_event_of :: "json command_envelope \<Rightarrow> json \<Rightarrow> string \<Rightarrow> string \<Rightarrow> string \<Rightarrow> u32 \<Rightarrow> u64
    \<Rightarrow> json event_envelope" where
  "demo_event_of envelope body aty aid ety v seq =
     \<lparr>event_id = event_id_of aty aid v, project_id = cmd_project_id envelope, aggregate_type = aty,
      aggregate_id = aid, aggregate_version = v, event_type = ety, schema_version = 1,
      global_sequence = seq, occurred_at = ''2026-01-01'', appended_at = ''2026-01-02'',
      actor = cmd_actor envelope, origin = cmd_origin envelope, causation_id = None,
      correlation_id = None, idempotency_key = Some (cmd_idempotency_key envelope), payload = body,
      payload_ref = None\<rparr>"

definition demo_writer_at :: "u64 \<Rightarrow> writer_row option" where
  "demo_writer_at seq = Some \<lparr>w_epoch = 0, w_fence_token = None, w_next_seq = seq, w_checkpoint_seq = 0\<rparr>"

definition demo_revision :: string where
  "demo_revision = replicate 40 (CHR ''a'')"

definition demo_genesis :: "json event_envelope" where
  "demo_genesis = (genesis_event demo_revision ''2026-01-02'')\<lparr>global_sequence := 1\<rparr>"

definition demo_sealed :: "json db" where
  "demo_sealed = fresh_db\<lparr>pg_events := [demo_genesis], pg_writer := demo_writer_at 2\<rparr>"

lemmas run_defs = transact_def epoch_of_def current_aggregate_version_def log_version_def
  sql_def lock_writer_def query_def append_locked_def validate_batch_def inline_too_large_def
  INLINE_PAYLOAD_MAX_BYTES_def agg_key_of_def check_fence_def replay_lookup_def
  of_version_def insert_event_def Let_def stored_row_def lift_append_def
  event_row_allowed_def row_to_envelope_def checked_add_def advance_writer_def
  ENVELOPE_SCHEMA_VERSION_def genesis_event_def kernel_names List.map_filter_simps

lemma demo_surroundings:
  "se_fails demo_kernel c = False" "se_payload_len demo_kernel j = 2" "se_jsonb demo_kernel j = j"
  "se_timestamptz demo_kernel at = at" "se_now demo_kernel = ''2026-01-02''"
  "se_boot_epoch demo_kernel = 0" "se_permit demo_kernel" "se_overdue demo_kernel = False"
  "se_blobs demo_kernel = False" "ke_encode demo_kernel = demo_encode"
  "ke_decode demo_kernel = map_of demo_table" "ke_print demo_kernel j = []"
  "ke_later demo_kernel at at'" "ke_clock demo_kernel = ''2026-01-02''"
  by (simp_all add: demo_kernel_def)

lemmas demo_states = demo_surroundings fresh_db_def demo_revision_def demo_genesis_def demo_sealed_def
  demo_writer_at_def demo_event_of_def demo_envelope_def

lemma list_all_replicate: "list_all P (replicate n x) \<longleftrightarrow> n = 0 \<or> P x"
  by (induction n) auto

lemma demo_genesis_run: "ensure_genesis demo_kernel demo_revision fresh_db = (Inr (), demo_sealed)"
  by (simp add: ensure_genesis_def is_public_revision_def REVISION_HEX_LEN_def is_lower_hex_def
      list_all_replicate demo_states run_defs)

definition demo_activate :: "json command_envelope" where
  "demo_activate = (demo_envelope ''operator'' ''kernel_activated:cut-1'' ''activate_kernel''
     (fst (demo_table ! 0)))\<lparr>cmd_project_id := SYSTEM_PROJECT\<rparr>"

definition demo_active :: "json db" where
  "demo_active = demo_sealed\<lparr>pg_events := [demo_genesis,
     demo_event_of demo_activate (cmd_payload demo_activate) ''kernel'' ''singleton'' ''kernel_activated'' 2 2],
     pg_writer := demo_writer_at 3\<rparr>"

lemmas prepare_defs = prepare_def accept_schema_version_def from_envelope_def command_type_def
  input_preflight_def is_pty_input_def validate_pty_input_carrier_def route_of_def route_arm_def
  check_routing_def check_body_project_def check_activation_def check_authority_admin_def
  is_authority_admin_def input_binding_of_def activation_key_def is_sha256_hex_def
  SHA256_HEX_LEN_def   is_lower_hex_def list_all_replicate

lemmas submit_defs = submit_locked_def admitted_def prior_for_key_def events_for_key_def submit_unused_def
  insert_row_def update_row_def references_def apply_transition_def default_guard_def
  can_transition_def is_retry_def task_edges_def assert_initial_state_def assert_transition_def
  task_guard_def transition_rows_def
  check_aggregate_owner_def check_pty_command_id_def check_second_cutover_def evaluate_def
  class_of_def RISK_CLASS_def action_classes classification_key_def is_pty_action_def
  submit_decided_def receipted_pty_command_def receipt_if_def check_attention_dedup_def decide_def
  append_and_project_def check_expected_version_def build_event_def apply_event_def apply_command_def 
  checkpoint_if_due_def checkpoint_due_def CHECKPOINT_EVENT_INTERVAL_def applied_def pg_watermark_def

lemma small_numerals: "nat_text 1 = ''1''" "nat_text (Suc 0) = ''1''" "nat_text 2 = ''2''" "nat_text 3 = ''3''"
  by code_simp+

definition demo_create :: "json command_envelope" where
  "demo_create = demo_envelope ''operator'' ''k-1'' ''create_task'' (fst (demo_table ! 1))"

definition demo_created :: "json event_envelope" where
  "demo_created = demo_event_of demo_create (cmd_payload demo_create) ''task'' ''t-1'' ''task_created'' 1 3"

definition demo_task :: "json db" where
  "demo_task = demo_active\<lparr>pg_events := pg_events demo_active @ [demo_created],
     pg_writer := demo_writer_at 4,
     t_task := [(''t-1'', \<lparr>tk_version = 1, tk_state = Task_Submitted, tk_kind = None, tk_title = None,
       tk_spec_ref = None, tk_project = None, tk_priority = None, tk_tracker_ref = None,
       tk_created_at = ''2026-01-02'', tk_updated_at = ''2026-01-02''\<rparr>)]\<rparr>"

definition demo_begin :: "json command_envelope" where
  "demo_begin = demo_envelope ''operator'' ''k-2'' ''transition_task'' (fst (demo_table ! 2))"

definition demo_begun :: "json event_envelope" where
  "demo_begun = demo_event_of demo_begin (cmd_payload demo_begin) ''task'' ''t-1'' ''task_transitioned'' 2 4"

definition demo_working :: "json db" where
  "demo_working = demo_task\<lparr>pg_events := pg_events demo_task @ [demo_begun],
     pg_writer := demo_writer_at 5,
     t_task := [(''t-1'', \<lparr>tk_version = 2, tk_state = Task_Working, tk_kind = None, tk_title = None,
       tk_spec_ref = None, tk_project = None, tk_priority = None, tk_tracker_ref = None,
       tk_created_at = ''2026-01-02'', tk_updated_at = ''2026-01-02''\<rparr>)]\<rparr>"

lemmas demo_commands = demo_activate_def demo_active_def demo_create_def demo_created_def demo_task_def
  demo_begin_def demo_begun_def demo_working_def demo_table_def demo_encode_def event_id_of_def
  small_numerals

lemma demo_activate_run: "try_submit demo_kernel demo_activate None demo_sealed
   = (Inr \<lparr>ca_command_id = ''kernel_activated:cut-1'', ca_events = [last (pg_events demo_active)],
           ca_watermark = 2\<rparr>, demo_active)"
  by (simp add: try_submit_def prepare_defs submit_defs demo_states demo_commands run_defs)

lemma demo_create_run: "try_submit demo_kernel demo_create None demo_active
   = (Inr \<lparr>ca_command_id = ''k-1'', ca_events = [demo_created], ca_watermark = 3\<rparr>, demo_task)"
  by (simp add: try_submit_def prepare_defs submit_defs demo_states demo_commands run_defs project_defs)

lemma demo_begin_run: "try_submit demo_kernel demo_begin None demo_task
   = (Inr \<lparr>ca_command_id = ''k-2'', ca_events = [demo_begun], ca_watermark = 4\<rparr>, demo_working)"
  by (simp add: try_submit_def prepare_defs submit_defs demo_states demo_commands run_defs project_defs decide_defs)

definition demo_stop :: "json command_envelope" where
  "demo_stop = demo_envelope ''orchestrator'' ''k-3'' ''issue_command'' (fst (demo_table ! 3))"

definition demo_paged :: "json db" where
  "demo_paged = demo_active\<lparr>
     t_receipt := [(''receipt:p:k-3'', \<lparr>rc_actor = cmd_actor demo_stop, rc_action = ''stop'',
       rc_subject_type = ''command'', rc_subject_id = ''c-1'', rc_from = None, rc_to = None,
       rc_observed_basis = Some UNGRANTED_BASIS, rc_ts = ''2026-01-01''\<rparr>)],
     t_attention_item := [(''page:stop:command/c-1'', \<lparr>an_kind = ''authority'',
       an_summary = ''issue_command requires an unexpired stop grant'',
       an_subject_ref = Some ''command/c-1'', an_raised_by = Some (cmd_actor demo_stop),
       an_priority = None, an_raised_at = ''2026-01-01'', an_acked_at = None, an_muted_until = None,
       an_resolved_at = None, an_resolution = None\<rparr>)]\<rparr>"

definition demo_resolve :: "json command_envelope" where
  "demo_resolve = demo_envelope ''operator'' ''k-4'' ''resolve_attention'' (fst (demo_table ! 4))"

definition demo_resolution :: "json event_envelope" where
  "demo_resolution = demo_event_of demo_resolve (cmd_payload demo_resolve) ''attention_item''
     ''page:stop:command/c-1'' ''attention_resolved'' 1 3"

definition demo_resolved :: "json db" where
  "demo_resolved = demo_paged\<lparr>pg_events := pg_events demo_active @ [demo_resolution],
     pg_writer := demo_writer_at 4,
     t_attention_item := map (\<lambda>(i, a). (i, a\<lparr>an_resolved_at := Some ''2026-01-02''\<rparr>))
       (t_attention_item demo_paged)\<rparr>"

definition demo_stop_again :: "json command_envelope" where
  "demo_stop_again = demo_stop\<lparr>cmd_idempotency_key := ''k-5'', cmd_command_id := ''k-5''\<rparr>"

lemmas demo_pages = demo_stop_def demo_paged_def demo_resolve_def demo_resolution_def demo_resolved_def
  demo_stop_again_def matching_grant_def paged_def write_receipt_def page_attention_def
  attention_dedup_def receipt_for_def receipt_basis_def receipt_id_of_def UNGRANTED_BASIS_def

lemma demo_stop_run: "try_submit demo_kernel demo_stop None demo_active
   = (Inl (with_detail (refusal_new Code_Authority) (JObject [(''action_class'', JString ''stop''),
        (''subject'', JString ''command/c-1'')])), demo_paged)"
  by (simp add: try_submit_def prepare_defs submit_defs demo_states demo_commands run_defs demo_pages)

lemma demo_resolve_run: "try_submit demo_kernel demo_resolve None demo_paged
   = (Inr \<lparr>ca_command_id = ''k-4'', ca_events = [demo_resolution], ca_watermark = 3\<rparr>, demo_resolved)"
  by (simp add: try_submit_def prepare_defs submit_defs demo_states demo_commands run_defs demo_pages
      log_versioned_def project_defs coalesce_def)

lemma demo_stop_again_run: "try_submit demo_kernel demo_stop_again None demo_resolved
   = (Inl storage_failed, demo_resolved)"
  by (simp add: try_submit_def prepare_defs submit_defs demo_states demo_commands run_defs demo_pages)

text \<open>A grant, and the command it covers.\<close>

definition demo_grant :: "json command_envelope" where
  "demo_grant = demo_envelope ''operator'' ''k-6'' ''grant_authority'' (fst (demo_table ! 5))"

definition demo_granted :: "json db" where
  "demo_granted = demo_active\<lparr>pg_events := pg_events demo_active
       @ [demo_event_of demo_grant (cmd_payload demo_grant) ''authority_grant'' ''g-1'' ''authority_granted'' 1 3],
     pg_writer := demo_writer_at 4,
     t_authority_grant := [(''g-1'', \<lparr>au_grantee = \<lparr>actor_kind = ''orchestrator'', actor_id = None\<rparr>,
       au_action_class = ''stop'', au_scope = None, au_granted_at = ''2026-01-02'', au_expires_at = None,
       au_revoked_at = None, au_revoke_reason = None, au_receipt_id = None\<rparr>)]\<rparr>"

definition demo_stopped :: "json db" where
  "demo_stopped = demo_granted\<lparr>pg_events := pg_events demo_granted
       @ [demo_event_of demo_stop (cmd_payload demo_stop) ''command'' ''c-1'' ''command_issued'' 1 4],
     pg_writer := demo_writer_at 5,
     t_receipt := [(''receipt:p:k-3'', \<lparr>rc_actor = cmd_actor demo_stop, rc_action = ''stop'',
       rc_subject_type = ''command'', rc_subject_id = ''c-1'', rc_from = None, rc_to = None,
       rc_observed_basis = Some MATCHING_GRANT_BASIS, rc_ts = ''2026-01-01''\<rparr>)],
     t_command := [(''c-1'', \<lparr>cm_version = 1, cm_state = Command_Issued, cm_kind = ''stop'',
       cm_target = Some ''a-1'', cm_actor = None, cm_idempotency_key = Some ''k-3'', cm_outcome = None,
       cm_created_at = ''2026-01-02'', cm_updated_at = ''2026-01-02''\<rparr>)]\<rparr>"

lemmas demo_grants = demo_grant_def demo_granted_def demo_stopped_def demo_stop_def matching_grant_def
  grant_live_def MATCHING_GRANT_BASIS_def

lemma demo_grant_run: "try_submit demo_kernel demo_grant None demo_active
   = (Inr \<lparr>ca_command_id = ''k-6'', ca_events = [last (pg_events demo_granted)], ca_watermark = 3\<rparr>, demo_granted)"
  by (simp add: try_submit_def prepare_defs submit_defs demo_states demo_commands run_defs project_defs demo_grants)

lemma demo_stopped_run: "try_submit demo_kernel demo_stop None demo_granted
   = (Inr \<lparr>ca_command_id = ''k-3'', ca_events = [last (pg_events demo_stopped)], ca_watermark = 4\<rparr>, demo_stopped)"
  by (simp add: try_submit_def prepare_defs submit_defs demo_states demo_commands run_defs project_defs demo_grants
     receipt_for_def receipt_basis_def receipt_id_of_def write_receipt_def
     command_row_check_def)

text \<open>A workspace with a tab.\<close>

definition demo_node :: "nat \<Rightarrow> string \<Rightarrow> json command_envelope" where
  "demo_node n key = demo_envelope ''operator'' key ''create_workspace_node'' (fst (demo_table ! n))"

definition demo_tree :: "nat \<Rightarrow> json db" where
  "demo_tree n = demo_active\<lparr>pg_events := pg_events demo_active @ take n
       [demo_event_of (demo_node 6 ''k-7'') (cmd_payload (demo_node 6 ''k-7'')) ''workspace_node'' ''w''
          ''workspace_node_created'' 1 3,
        demo_event_of (demo_node 7 ''k-8'') (cmd_payload (demo_node 7 ''k-8'')) ''workspace_node'' ''a''
          ''workspace_node_created'' 1 4],
     pg_writer := demo_writer_at (3 + of_nat n),
     t_workspace_node := take n
       [(''w'', \<lparr>wn_version = 1, wn_kind = Node_Workspace, wn_parent_id = None, wn_session_id = None,
          wn_created_at = ''2026-01-02'', wn_updated_at = ''2026-01-02''\<rparr>),
        (''a'', \<lparr>wn_version = 1, wn_kind = Node_Tab, wn_parent_id = Some ''w'', wn_session_id = None,
          wn_created_at = ''2026-01-02'', wn_updated_at = ''2026-01-02''\<rparr>)]\<rparr>"

lemmas demo_nodes = demo_node_def demo_tree_def route_create_workspace_node_def decide_create_workspace_node_def
  assert_legal_parent_def workspace_node_kind_of_def assert_workspace_parentage_def workspace_node_check_def

lemma demo_node_run: "try_submit demo_kernel (demo_node 6 ''k-7'') None demo_active
   = (Inr \<lparr>ca_command_id = ''k-7'', ca_events = [last (pg_events (demo_tree 1))], ca_watermark = 3\<rparr>, demo_tree 1)"
  by (simp add: try_submit_def prepare_defs submit_defs demo_states demo_commands run_defs project_defs demo_nodes)

lemma demo_tab_run: "try_submit demo_kernel (demo_node 7 ''k-8'') None (demo_tree 1)
   = (Inr \<lparr>ca_command_id = ''k-8'', ca_events = [last (pg_events (demo_tree 2))], ca_watermark = 4\<rparr>, demo_tree 2)"
  by (simp add: try_submit_def prepare_defs submit_defs demo_states demo_commands run_defs project_defs demo_nodes)

text \<open>An attention item raised by a command.\<close>

definition demo_raise :: "json command_envelope" where
  "demo_raise = demo_envelope ''operator'' ''k-9'' ''raise_attention'' (fst (demo_table ! 8))"

definition demo_raised :: "json db" where
  "demo_raised = demo_active\<lparr>pg_events := pg_events demo_active
       @ [demo_event_of demo_raise (cmd_payload demo_raise) ''attention_item'' ''a-1'' ''attention_raised'' 1 3],
     pg_writer := demo_writer_at 4,
     t_attention_item := [(''a-1'', \<lparr>an_kind = ''review'', an_summary = ''look'', an_subject_ref = None,
       an_raised_by = None, an_priority = None, an_raised_at = ''2026-01-02'', an_acked_at = None,
       an_muted_until = None, an_resolved_at = None, an_resolution = None\<rparr>)]\<rparr>"

lemma demo_raise_run: "try_submit demo_kernel demo_raise None demo_active
   = (Inr \<lparr>ca_command_id = ''k-9'', ca_events = [last (pg_events demo_raised)], ca_watermark = 3\<rparr>, demo_raised)"
  by (simp add: try_submit_def prepare_defs submit_defs demo_states demo_commands run_defs project_defs demo_raise_def
      demo_raised_def attention_dedup_def unresolved_attention_def log_versioned_def)

lemma demo_speaks: "speaks demo_kernel demo_kernel"
  by (simp add: speaks_def)

lemma demo_reachable_states:
  "kernel_reachable demo_kernel demo_sealed" "kernel_reachable demo_kernel demo_active"
  "kernel_reachable demo_kernel demo_task" "kernel_reachable demo_kernel demo_working"
  "kernel_reachable demo_kernel demo_paged" "kernel_reachable demo_kernel demo_resolved"
  "kernel_reachable demo_kernel demo_granted" "kernel_reachable demo_kernel demo_stopped"
  "kernel_reachable demo_kernel (demo_tree 2)" "kernel_reachable demo_kernel demo_raised"
proof -
  note step = kernel_run.submit [OF _ demo_wire demo_speaks]
  show s: "kernel_reachable demo_kernel demo_sealed"
    by (rule kernel_run.genesis [OF kernel_run.initial demo_genesis_run])
  show a: "kernel_reachable demo_kernel demo_active" by (rule step [OF s demo_activate_run])
  show t: "kernel_reachable demo_kernel demo_task" by (rule step [OF a demo_create_run])
  show "kernel_reachable demo_kernel demo_working" by (rule step [OF t demo_begin_run])
  show p: "kernel_reachable demo_kernel demo_paged" by (rule step [OF a demo_stop_run])
  show "kernel_reachable demo_kernel demo_resolved" by (rule step [OF p demo_resolve_run])
  show g: "kernel_reachable demo_kernel demo_granted" by (rule step [OF a demo_grant_run])
  show "kernel_reachable demo_kernel demo_stopped" by (rule step [OF g demo_stopped_run])
  show "kernel_reachable demo_kernel (demo_tree 2)"
    by (rule step [OF step [OF a demo_node_run] demo_tab_run])
  show "kernel_reachable demo_kernel demo_raised" by (rule step [OF a demo_raise_run])
qed

end
