(* ===== verification/Gw_Safety.thy ===== *)
theory Gw_Safety
  imports Gw_Life Gw_Tree Gw_Demo
begin

text \<open>
  Properties of the command path as a whole, over every run of the kernel: what is written stays
  written, what a refusal may leave behind, who may change what, and when. Each is an instance of a
  law of \<open>kernel_law\<close> or \<open>kernel_progress\<close> on the model's own steps.
\<close>

section \<open>What is written stays written\<close>

definition history_grows :: "json db \<Rightarrow> json db \<Rightarrow> bool" where
  "history_grows db db' \<longleftrightarrow>
     (\<exists>es. pg_events db' = pg_events db @ es)
     \<and> map_of (t_receipt db) \<subseteq>\<^sub>m map_of (t_receipt db')
     \<and> (\<exists>ds. t_pty_delivery db' = t_pty_delivery db @ ds)"

interpretation history_law: kernel_progress k "\<lambda>_. True" history_grows for k
proof
  show "history_grows db db" for db by (simp add: history_grows_def)
  show "history_grows db db2" if "history_grows db db1" "history_grows db1 db2" for db db1 db2
    using that unfolding history_grows_def by (auto intro: map_le_trans)
  show "history_grows db db'" if "beside_log db db'" for db db'
  proof -
    from that obtain rs ats where "db' = db\<lparr>t_receipt := rs, t_attention_item := ats\<rparr>"
      and "map_of (t_receipt db) \<subseteq>\<^sub>m map_of (t_receipt db')"
      unfolding beside_log_def by blast
    then show ?thesis by (simp add: history_grows_def)
  qed
  show "history_grows db db'" if "genesis_step db db'" for db db'
  proof -
    from that obtain row w where "db' = db\<lparr>pg_events := pg_events db @ [row], pg_writer := w\<rparr>"
      unfolding genesis_step_def by blast
    then show ?thesis by (simp add: history_grows_def)
  qed
  show "history_grows db (db\<lparr>pg_writer := w\<rparr>)" for db w by (simp add: history_grows_def)
  show "history_grows db db'" if "landing env envelope p epoch decision row db db'"
    for db db' env envelope p epoch decision row
    using that unfolding landing_def projected_as_def history_grows_def by blast
qed



section \<open>A command lands once\<close>

definition same_reading :: "kernel_env \<Rightarrow> kernel_env \<Rightarrow> bool" where
  "same_reading env env2 \<longleftrightarrow> ke_decode env2 = ke_decode env \<and> ke_encode env2 = ke_encode env
     \<and> ke_mac env2 = ke_mac env \<and> se_blobs env2 = se_blobs env"

lemma prepare_again:
  assumes "prepare env envelope carrier = Inr p" and "same_reading env env2" and "se_permit env2"
  shows "prepare env2 envelope carrier = Inr p"
proof -
  have "input_binding_of env2 carrier = input_binding_of env carrier"
    using assms(2) by (cases carrier rule: option.exhaust; cases "the carrier")
      (simp_all add: input_binding_of_def same_reading_def)
  moreover have "se_permit env" using assms(1) by (simp add: prepare_def result_simps)
  ultimately have "prepare env2 envelope carrier = prepare env envelope carrier"
    using assms(2,3) by (simp add: prepare_def same_reading_def)
  with assms(1) show ?thesis by simp
qed

lemma admitted_later:
  assumes "epoch_of env db = Inr epoch" and "admitted epoch c"
    and "pg_good db" and "pg_good db2" and "pg_events db2 = pg_events db @ es" and "\<not> se_fails env2 ''read aggregate version''"
  shows "\<exists>epoch2. epoch_of env2 db2 = Inr epoch2 \<and> admitted epoch2 c"
proof -
  let ?k = "(KERNEL_AGGREGATE, KERNEL_SINGLETON)"
  let ?v = "log_version ?k (pg_events db)" and ?v2 = "log_version ?k (pg_events db2)"
  have "epoch_of env2 db2 = Inr (of_version ?v2)"
    using assms(6) by (simp add: epoch_of_def current_aggregate_version_def query_def lift_append_def)
  moreover have "unat ?v \<le> unat ?v2"
    using assms(3-5) by (simp add: pg_good_def log_version_length)
  moreover have "epoch = of_version ?v" by (rule epoch_of_Inr [OF assms(1)])
  ultimately show ?thesis
    using assms(2) of_version_Active [of ?v] of_version_Active [of ?v2] of_version_Sealed [of ?v]
      of_version_Sealed [of ?v2]
    by (cases "of_version ?v"; cases "of_version ?v2") (auto simp: admitted_def)
qed

lemma events_for_key_one:
  assumes good: "pg_good db" and row: "row \<in> set (pg_events db)" and key: "idempotency_key row = Some key"
    and "project_id row = project" and "agg_key_of row = (aty, aid)" and "\<not> se_fails env ''idempotency lookup''"
  shows "events_for_key env db project aty aid key = Inr [row]"
proof -
  let ?P = "\<lambda>e. idempotency_key e = Some key \<and> (project_id e = project \<or> agg_key_of e = (aty, aid))"
  have "filter ?P (pg_events db) = [row]"
  proof -
    from row obtain xs ys where split: "pg_events db = xs @ row # ys" by (auto dest: split_list)
    have "sorted_wrt rows_distinct (xs @ row # ys)" using good split by (simp add: pg_good_def)
    then have "\<forall>e \<in> set xs. rows_distinct e row" "\<forall>e \<in> set ys. rows_distinct row e"
      by (auto simp: sorted_wrt_append)
    then have "filter ?P xs = []" "filter ?P ys = []"
      using assms(3-5) by (auto simp: filter_empty_conv rows_distinct_def)
    with assms(3-5) show ?thesis by (simp add: split)
  qed
  then show ?thesis using assms(6) by (simp add: events_for_key_def query_def)
qed

lemma find_append_new:
  "find P (xs @ d # ys) = Some d" if "P d" and "\<forall>x \<in> set xs. \<not> P x"
  using that by (induction xs) auto

lemma landed_unrefused:
  assumes "prepare env envelope carrier = Inr p" and "try_submit env envelope carrier db = (Inr a, db')"
  shows "pr_refusal p = None"
  using assms
  by (cases "pr_refusal p")
    (auto simp: try_submit_def submit_locked_def receipted_pty_refusal_def result_simps
      split: sum.splits prod.splits)

lemma applied_calm:
  assumes "\<not> se_fails env ''watermark''" and "pg_events db \<noteq> []"
  shows "\<exists>b. applied env envelope events db = Inr b \<and> ca_events b = events
    \<and> ca_command_id b = cmd_command_id envelope"
  using assms by (simp add: applied_def pg_watermark_def query_def lift_append_def)

text \<open>
  What a second submission of a landed command sees: the key is taken by the one event the first
  submission appended, and for PTY input the registered binding is the one of the same bytes.
\<close>

lemma replayed_answer:
  assumes prep: "prepare env2 envelope carrier = Inr p" and refusal: "pr_refusal p = None"
    and calm: "\<forall>c. \<not> se_fails env2 c" and lock: "lock_writer env2 db2 = Inr w"
    and epoch: "epoch_of env2 db2 = Inr epoch" "admitted epoch (pr_command p)"
    and prior: "prior_for_key env2 envelope (pr_route p) (pr_payload p) db2 = Inr (Prior_Replay [row])"
    and binding: "check_input_binding env2 envelope p db2 = Inr ()" and some: "pg_events db2 \<noteq> []"
  shows "\<exists>b. try_submit env2 envelope carrier db2 = (Inr b, db2) \<and> ca_events b = [row]
    \<and> ca_command_id b = cmd_command_id envelope"
proof -
  have "submit_locked env2 envelope p db2 = Inr (Inr [row], db2)"
    using refusal calm lock epoch prior binding
    by (simp add: submit_locked_def sql_def lift_append_def)
  then have "try_submit env2 envelope carrier db2 = (applied env2 envelope [row] db2, db2)"
    using prep by (simp add: try_submit_def)
  with applied_calm [of env2 db2 envelope "[row]"] calm some show ?thesis by auto
qed

lemma delivery_found:
  assumes "delivered envelope p row db db1" and "t_pty_delivery db2 = t_pty_delivery db1 @ ds"
    and "\<not> se_fails env2 ''read PTY input binding''"
  shows "check_input_binding env2 envelope p db2 = Inr ()"
proof (cases "is_pty_input (pr_command p)")
  case True
  then have "receipted_pty_command (pr_command p)"
    by (auto simp: is_pty_input_def receipted_pty_command_def split: kernel_command.splits)
  with assms(1,2) have "find (\<lambda>d. pd_project_id d = cmd_project_id envelope
      \<and> pd_idempotency_key d = cmd_idempotency_key envelope) (t_pty_delivery db2)
    = Some \<lparr>pd_project_id = cmd_project_id envelope, pd_idempotency_key = cmd_idempotency_key envelope,
            pd_command_id = cmd_command_id envelope, pd_event_id = event_id row,
            pd_event_seq = global_sequence row, pd_input_binding = pr_binding p\<rparr>"
    by (auto simp: delivered_def intro!: find_append_new)
  with assms(3) show ?thesis by (simp add: check_input_binding_def sql_def)
next
  case False
  then show ?thesis by (simp add: check_input_binding_def)
qed

text \<open>
  C1: Exactly once. When a submission lands, then at any later time, after any number of other
  commands, boots and fences, submitting the same envelope again (with the same bytes, for PTY
  input) to a process that holds the writer epoch and whose statements succeed changes nothing and
  answers the event of the first submission.
\<close>

theorem resubmission_changes_nothing:
  assumes reach: "kernel_reachable k db" and wire: "wire_ok env envelope" and speaks: "speaks k env"
    and first: "try_submit env envelope carrier db = (Inr a, db1)" and lands: "pg_events db1 \<noteq> pg_events db"
    and exact: "\<forall>c. from_envelope (ke_decode env) envelope = Inr c \<longrightarrow>
      se_jsonb env (ke_encode env c) = ke_encode env c"
    and later: "kernel_run k db1 db2"
    and again: "same_reading env env2" "se_permit env2" "\<forall>c. \<not> se_fails env2 c" "lock_writer env2 db2 = Inr w"
  shows "\<exists>b. try_submit env2 envelope carrier db2 = (Inr b, db2) \<and> ca_events b = ca_events a
    \<and> ca_command_id b = ca_command_id a"
proof -
  note good = reachable_good [OF reach]
  from first good wire show ?thesis
  proof (cases rule: try_submit_cases)
    case quiet
    with lands beside_log_fields(1) show ?thesis by blast
  next
    case (landed p epoch decision v row q event)
    have reach1: "kernel_reachable k db1" by (rule kernel_run.submit [OF reach wire speaks first])
    have good2: "pg_good db2" by (rule run_good [OF later landed(3)])
    from history_law.from_reachable [OF reach1 later] obtain es ds
      where es: "pg_events db2 = pg_events db1 @ es" and ds: "t_pty_delivery db2 = t_pty_delivery db1 @ ds"
      unfolding history_grows_def by blast
    from landed(4,5) good good2 obtain epoch2 where "epoch_of env2 db2 = Inr epoch2"
      and "admitted epoch2 (pr_command p)"
      using admitted_later [of env db epoch "pr_command p" db2 "[row] @ es" env2] es landed(21) again(3)
      by auto
    moreover have "events_for_key env2 db2 (cmd_project_id envelope) (rt_aggregate_type (pr_route p))
        (rt_aggregate_id (pr_route p)) (cmd_idempotency_key envelope) = Inr [row]"
      by (rule events_for_key_one [OF good2]) (use es landed(14,18,20,21) again(3) in auto)
    moreover have "payload row = pr_payload p" and "actor row = cmd_actor envelope"
      and "aggregate_type row = rt_aggregate_type (pr_route p)"
      and "aggregate_id row = rt_aggregate_id (pr_route p)"
      using landed(2,26) build_event_Inr [OF landed(25)] exact
      by (simp_all add: stored_row_def prepared_ok_def)
    ultimately have "\<exists>b. try_submit env2 envelope carrier db2 = (Inr b, db2) \<and> ca_events b = [row]
        \<and> ca_command_id b = cmd_command_id envelope"
      using delivery_found [OF landed(24) ds] again(3,4) es landed(18,21)
      by (intro replayed_answer [OF prepare_again [OF landed(1) again(1,2)] landed_unrefused [OF landed(1) first]])
        (auto simp: prior_for_key_def lift_append_def)
    moreover have "ca_events a = [row]" "ca_command_id a = cmd_command_id envelope"
      using landed(23) [symmetric] by (auto simp: applied_def result_simps)
    ultimately show ?thesis by simp
  qed
qed

theorem resubmission_changes_nothing_witness:
  "\<exists>b. try_submit demo_kernel demo_create None demo_working = (Inr b, demo_working)
     \<and> ca_events b = [demo_created] \<and> ca_command_id b = ''k-1''"
proof -
  have later: "kernel_run demo_kernel demo_task demo_working"
    by (rule kernel_run.submit [OF kernel_run.initial demo_wire demo_speaks demo_begin_run])
  have lands: "pg_events demo_task \<noteq> pg_events demo_active" by (simp add: demo_task_def)
  have lock: "lock_writer demo_kernel demo_working
      = Inr \<lparr>ws_next_seq = 5, ws_current_fence = None, ws_checkpoint_seq = 0, ws_checkpoint_overdue = False\<rparr>"
    by (simp add: lock_writer_def query_def demo_states demo_working_def)
  show ?thesis
    using resubmission_changes_nothing [OF demo_reachable_states(2) demo_wire demo_speaks demo_create_run
        lands _ later _ _ _ lock]
    by (simp add: same_reading_def demo_surroundings)
qed

section \<open>Who may change what\<close>

text \<open>
  C2: A gated command reaches the log only with authority. When a command whose classification key
  is in the risk table appends an event, its actor is the operator of a PTY action, or holds a grant
  of the action class, for the subject or unscoped, not revoked and not expired; and the receipt of
  the decision is stored, naming the actor, the action class and the aggregate.
\<close>

theorem gated_commands_need_authority:
  assumes "kernel_reachable k db" and "wire_ok (env :: kernel_env) envelope"
    and "try_submit env envelope carrier db = (r, db')" and "pg_events db' \<noteq> pg_events db"
    and "from_envelope (ke_decode env) envelope = Inr c"
    and "class_of (classification_key (cmd_command_type envelope) c) = Some cls"
  shows "\<exists>route. route_of envelope c = Inr route
    \<and> (is_pty_action cls \<and> actor_kind (cmd_actor envelope) = ''operator''
       \<or> covered env envelope cls (authority_subject c route) db)
    \<and> (\<exists>rc. map_of (t_receipt db') (receipt_id_of envelope) = Some rc \<and> rc_actor rc = cmd_actor envelope
         \<and> rc_action rc = cls \<and> rc_subject_type rc = rt_aggregate_type route
         \<and> rc_subject_id rc = rt_aggregate_id route)"
proof -
  obtain p epoch decision row where l: "landing env envelope p epoch decision row db db'"
    using submit_step [OF assms(3) reachable_good [OF assms(1)] assms(2)] assms(4)
      beside_log_fields(1) by blast
  then have c: "pr_command p = c" and route: "route_of envelope c = Inr (pr_route p)"
    and ev: "evaluate env envelope (classification_key (cmd_command_type envelope) c)
           (authority_subject c (pr_route p)) db = Inr decision"
    and "\<forall>c b. decision \<noteq> Page c b" and due: "receipt_due env envelope p (decision_result decision) db'"
    using assms(5) by (auto simp: landing_def prepared_ok_def)
  with assms(6) obtain basis where d: "decision = Allow cls basis"
    by (cases decision) (auto simp: evaluate_Unclassified dest: evaluate_Allow)
  show ?thesis
    using route evaluate_Allow [OF ev [unfolded d]] due c
    by (intro exI [of _ "pr_route p"]) (auto simp: d receipt_due_def receipt_for_def)
qed

theorem gated_commands_need_authority_witness:
  "covered demo_kernel demo_stop ''stop'' ''c-1'' demo_granted
   \<and> (\<exists>rc. map_of (t_receipt demo_stopped) ''receipt:p:k-3'' = Some rc \<and> rc_action rc = ''stop'')"
proof -
  let ?c = "IssueCommand ''c-1'' ''stop'' [''a-1''] None"
  have "pg_events demo_stopped \<noteq> pg_events demo_granted" by (simp add: demo_stopped_def)
  moreover have "from_envelope (ke_decode demo_kernel) demo_stop = Inr ?c"
    by (simp add: from_envelope_def demo_stop_def demo_states demo_table_def command_type_def)
  moreover have "class_of (classification_key (cmd_command_type demo_stop) ?c) = Some ''stop''"
    by (simp add: class_of_def RISK_CLASS_def classification_key_def demo_stop_def demo_envelope_def)
  ultimately show ?thesis
    using gated_commands_need_authority [OF demo_reachable_states(7) demo_wire demo_stopped_run]
    by (fastforce simp: is_pty_action_def action_classes authority_subject_def receipt_id_of_def
        demo_stop_def demo_envelope_def route_of_def route_arm_def)
qed

text \<open>
  C7: An aggregate belongs to one project: in every reachable state all events of an aggregate
  carry the same project, although aggregate ids are global.
\<close>

theorem aggregates_have_one_owner:
  assumes "kernel_reachable k db" and "e \<in> set (pg_events db)" and "e' \<in> set (pg_events db)"
    and "agg_key_of e = agg_key_of e'"
  shows "project_id e = project_id e'"
  using owner_law.reachable [OF assms(1)] assms(2-4) unfolding one_owner_def by blast

theorem aggregates_have_one_owner_witness:
  "demo_created \<in> set (pg_events demo_working) \<and> demo_begun \<in> set (pg_events demo_working)
   \<and> project_id demo_created = project_id demo_begun"
proof -
  have "demo_created \<in> set (pg_events demo_working)" "demo_begun \<in> set (pg_events demo_working)"
    "agg_key_of demo_created = agg_key_of demo_begun"
    by (simp_all add: demo_working_def demo_task_def demo_created_def demo_begun_def demo_event_of_def
        agg_key_of_def)
  with aggregates_have_one_owner [OF demo_reachable_states(4)] show ?thesis by blast
qed

text \<open>
  C6: Nothing happens before the cutover. In every reachable state an event of any aggregate other
  than the kernel's own comes after an activation event, the kernel's first event is its genesis,
  and there is at most one activation.
\<close>

theorem nothing_before_activation:
  assumes "kernel_reachable k db" and "pg_events db = xs @ e # ys"
    and "agg_key_of e \<noteq> (KERNEL_AGGREGATE, KERNEL_SINGLETON)"
  shows "\<exists>a \<in> set xs. agg_key_of a = (KERNEL_AGGREGATE, KERNEL_SINGLETON)
      \<and> event_type a = ACTIVATION_EVENT_TYPE
      \<and> map event_type (of_key (KERNEL_AGGREGATE, KERNEL_SINGLETON) (pg_events db))
          = [GENESIS_EVENT_TYPE, ACTIVATION_EVENT_TYPE]"
proof -
  note o = epoch_law.reachable [OF assms(1)]
  from o assms(2,3) obtain a where a: "a \<in> set xs" "is_activation a"
    unfolding epoch_ordered_def is_kernel_event_def by blast
  then have "a \<in> set (of_key (KERNEL_AGGREGATE, KERNEL_SINGLETON) (pg_events db))"
    unfolding in_of_key assms(2) by (simp add: is_activation_def is_kernel_event_def)
  then have "event_type a \<in> set (map event_type (of_key (KERNEL_AGGREGATE, KERNEL_SINGLETON) (pg_events db)))"
    by simp
  with a(2) have "ACTIVATION_EVENT_TYPE
      \<in> set (map event_type (of_key (KERNEL_AGGREGATE, KERNEL_SINGLETON) (pg_events db)))"
    by (simp only: is_activation_def)
  with o have "map event_type (of_key (KERNEL_AGGREGATE, KERNEL_SINGLETON) (pg_events db))
      = [GENESIS_EVENT_TYPE, ACTIVATION_EVENT_TYPE]"
    unfolding epoch_ordered_def by (auto simp: kernel_names)
  with a show ?thesis by (auto simp: is_activation_def is_kernel_event_def)
qed

theorem nothing_before_activation_witness:
  "\<exists>a \<in> set (pg_events demo_active). event_type a = ACTIVATION_EVENT_TYPE"
  using nothing_before_activation [OF demo_reachable_states(3), of "pg_events demo_active" demo_created "[]"]
  by (auto simp: demo_task_def demo_created_def demo_event_of_def agg_key_of_def kernel_names)

section \<open>Rows and their aggregates\<close>

text \<open>
  C3: Every row of a versioned projection carries the version its aggregate has in the log, in all
  eleven versioned tables: the version a client reads is the one the next append compares.
\<close>

theorem row_versions_are_log_versions:
  assumes "kernel_reachable k db"
  shows "versions_agree db"
  by (rule version_law.reachable [OF assms])

theorem row_versions_are_log_versions_witness:
  "\<exists>r. map_of (t_task demo_working) ''t-1'' = Some r
     \<and> tk_version r = log_version (''task'', ''t-1'') (pg_events demo_working)"
proof -
  obtain r where "map_of (t_task demo_working) ''t-1'' = Some r" by (simp add: demo_working_def)
  moreover have "tracks ''task'' tk_version (t_task demo_working) (pg_events demo_working)"
    using row_versions_are_log_versions [OF demo_reachable_states(4)] by (simp only: versions_agree_def)
  ultimately show ?thesis by (simp only: tracks_def) simp
qed

lemma lives_on_later:
  assumes "lives_on edges start st t t'" and "map_of t i = Some r"
  obtains r' where "map_of t' i = Some r'" and "(st r, st r') \<in> (set edges)\<^sup>*"
    and "is_terminal edges (st r) \<Longrightarrow> st r' = st r"
proof -
  from assms obtain r' where r': "map_of t' i = Some r'" "(st r, st r') \<in> (set edges)\<^sup>*"
    unfolding lives_on_def by (metis (no_types, lifting) not_None_eq option.simps(5))
  moreover have "st r' = st r" if "is_terminal edges (st r)"
    using r'(2) that by (cases rule: converse_rtranclE) (auto simp: is_terminal_def list_ex_iff)
  ultimately show thesis by (rule that)
qed

text \<open>
  C4: A task, attempt, message or command row is never lost and only moves along the edges of its
  machine, whatever happens after it was written; one whose state has no edge out keeps that state
  for good.
\<close>

theorem rows_follow_their_machines:
  assumes "kernel_reachable k db" and "kernel_run k db db'"
  shows "(\<forall>i r. map_of (t_task db) i = Some r \<longrightarrow> (\<exists>r'. map_of (t_task db') i = Some r'
        \<and> (tk_state r, tk_state r') \<in> (set task_edges)\<^sup>*
        \<and> (is_terminal task_edges (tk_state r) \<longrightarrow> tk_state r' = tk_state r)))
    \<and> (\<forall>i r. map_of (t_attempt db) i = Some r \<longrightarrow> (\<exists>r'. map_of (t_attempt db') i = Some r'
        \<and> (at_state r, at_state r') \<in> (set attempt_edges)\<^sup>*
        \<and> (is_terminal attempt_edges (at_state r) \<longrightarrow> at_state r' = at_state r)))
    \<and> (\<forall>i r. map_of (t_message db) i = Some r \<longrightarrow> (\<exists>r'. map_of (t_message db') i = Some r'
        \<and> (ms_state r, ms_state r') \<in> (set message_edges)\<^sup>*
        \<and> (is_terminal message_edges (ms_state r) \<longrightarrow> ms_state r' = ms_state r)))
    \<and> (\<forall>i r. map_of (t_command db) i = Some r \<longrightarrow> (\<exists>r'. map_of (t_command db') i = Some r'
        \<and> (cm_state r, cm_state r') \<in> (set command_edges)\<^sup>*
        \<and> (is_terminal command_edges (cm_state r) \<longrightarrow> cm_state r' = cm_state r)))"
  using life_law.from_reachable [OF assms] unfolding rows_live_on_def
  by (intro conjI allI impI; elim conjE) (erule (1) lives_on_later, blast)+

theorem rows_follow_their_machines_witness:
  "\<exists>r'. map_of (t_task demo_working) ''t-1'' = Some r' \<and> (Task_Submitted, tk_state r') \<in> (set task_edges)\<^sup>*"
proof -
  have "kernel_run demo_kernel demo_task demo_working"
    by (rule kernel_run.submit [OF kernel_run.initial demo_wire demo_speaks demo_begin_run])
  moreover obtain r where "map_of (t_task demo_task) ''t-1'' = Some r" "tk_state r = Task_Submitted"
    by (simp add: demo_task_def)
  ultimately show ?thesis
    using rows_follow_their_machines [OF demo_reachable_states(3), of demo_working] by force
qed

text \<open>
  C10: The transition table the database enforces is the union of the four edge lists of the state
  machines, entity by entity: no edge of the code is missing from it and it has no other.
\<close>

theorem transition_table_is_the_edge_lists:
  "set transition_rows =
     (\<lambda>(f, t). (''task'', task_state_str f, task_state_str t)) ` set task_edges
     \<union> (\<lambda>(f, t). (''attempt'', attempt_state_str f, attempt_state_str t)) ` set attempt_edges
     \<union> (\<lambda>(f, t). (''message'', message_state_str f, message_state_str t)) ` set message_edges
     \<union> (\<lambda>(f, t). (''command'', command_state_str f, command_state_str t)) ` set command_edges"
  by (simp add: transition_rows_def task_edges_def attempt_edges_def message_edges_def
      command_edges_def insert_commute)

section \<open>The workspace tree\<close>

text \<open>
  C8: The workspace nodes of a reachable state form a forest: each node has a path of parents to a
  workspace, a tab sits under a workspace, a pane under a tab or another pane, and the path visits
  no node twice.
\<close>

theorem workspace_nodes_form_a_forest:
  assumes "kernel_reachable k db" and "map_of (t_workspace_node db) i = Some r"
  shows "(\<exists>xs. root_path (t_workspace_node db) i xs \<and> distinct xs)
    \<and> kind_under (wn_kind r)
        (Option.bind (wn_parent_id r) (\<lambda>p. map_option wn_kind (map_of (t_workspace_node db) p)))"
proof (intro conjI)
  note f = forest_law.reachable [OF assms(1)]
  obtain xs where "root_path (t_workspace_node db) i xs" using forest_path [OF f assms(2)] .
  then show "\<exists>xs. root_path (t_workspace_node db) i xs \<and> distinct xs" using root_path_distinct by blast
qed (rule forest_kind [OF forest_law.reachable [OF assms(1)] assms(2)])

theorem workspace_nodes_form_a_forest_witness:
  "\<exists>xs. root_path (t_workspace_node (demo_tree 2)) ''a'' xs \<and> distinct xs"
  using workspace_nodes_form_a_forest [OF demo_reachable_states(9), of "''a''"]
  by (auto simp: demo_tree_def)

text \<open>
  C9: The recursive ancestor query of a move ends and is exact. In a reachable state it needs at
  most one round per row, and it finds its target exactly when the target lies on the path from the
  start to the root.
\<close>

theorem ancestor_query_ends_and_is_exact:
  assumes "kernel_reachable k db" and "map_of (t_workspace_node db) i = Some r"
  shows "\<exists>xs. root_path (t_workspace_node db) i xs
    \<and> (\<forall>fuel \<ge> length (t_workspace_node db).
          has_ancestor fuel (t_workspace_node db) i target = Some (target \<in> set xs))"
proof -
  obtain xs where xs: "root_path (t_workspace_node db) i xs"
    using forest_path [OF forest_law.reachable [OF assms(1)] assms(2)] .
  with root_path_length [OF xs] has_ancestor_path [OF xs] show ?thesis by (meson le_trans)
qed

theorem ancestor_query_ends_and_is_exact_witness:
  "has_ancestor 2 (t_workspace_node (demo_tree 2)) ''a'' ''w'' = Some True
   \<and> (\<exists>xs. root_path (t_workspace_node (demo_tree 2)) ''a'' xs \<and> ''w'' \<in> set xs)"
proof -
  have "has_ancestor 2 (t_workspace_node (demo_tree 2)) ''a'' ''w'' = Some True"
    by (simp add: demo_tree_def numeral_2_eq_2)
  moreover have "map_of (t_workspace_node (demo_tree 2)) ''a'' \<noteq> None"
    "length (t_workspace_node (demo_tree 2)) = 2" by (simp_all add: demo_tree_def)
  ultimately show ?thesis
    using ancestor_query_ends_and_is_exact [OF demo_reachable_states(9), of "''a''" _ "''w''"] by fastforce
qed

end
