(* ===== verification/Gw_Container.thy ===== *)
theory Gw_Container
  imports Gw_Ids
begin

text \<open>
  The blob container of \<open>gwk-kernel/src/blob/container.rs\<close>: an authenticated header, then the
  plaintext in sealed chunks of at most 1 MiB, each behind its length. Byte slices are character lists, named \<open>bytes\<close>.
  The ciphers and SHA-256 are the fields of \<open>suite\<close>; \<open>suite_ok\<close> states what their crates document.
\<close>

section \<open>Big-endian integers and chunks\<close>

definition to_be_bytes :: "nat \<Rightarrow> nat \<Rightarrow> bytes" where
  "to_be_bytes n x = map (\<lambda>i. byte (x div 256 ^ (n - 1 - i))) [0..<n]"

definition from_be_bytes :: "bytes \<Rightarrow> nat" where
  "from_be_bytes s = foldl (\<lambda>a c. a * 256 + of_char c) 0 s"

function chunks :: "nat \<Rightarrow> 'a list \<Rightarrow> 'a list list" where
  "chunks n xs = (if xs = [] \<or> n = 0 then [] else take n xs # chunks n (drop n xs))"
  by auto
termination by (relation "measure (\<lambda>(n, xs). length xs)") auto

declare chunks.simps [simp del]

lemma length_to_be_bytes [simp]: "length (to_be_bytes n x) = n"
  by (simp add: to_be_bytes_def)

lemma to_be_bytes_Suc: "to_be_bytes (Suc n) x = to_be_bytes n (x div 256) @ [byte x]"
proof -
  have "x div 256 ^ (n - i) = x div 256 div 256 ^ (n - 1 - i)" if "i < n" for i
  proof -
    from that have "n - i = Suc (n - 1 - i)" by simp
    then show ?thesis by (simp add: div_mult2_eq)
  qed
  then show ?thesis by (simp add: to_be_bytes_def)
qed

lemma from_be_bytes_snoc: "from_be_bytes (s @ [c]) = from_be_bytes s * 256 + of_char c"
  by (simp add: from_be_bytes_def)

lemma from_to_be_bytes: "x < 256 ^ n \<Longrightarrow> from_be_bytes (to_be_bytes n x) = x"
proof (induction n arbitrary: x)
  case (Suc n)
  then have "x div 256 < 256 ^ n" by (simp add: less_mult_imp_div_less mult.commute)
  with Suc.IH show ?case by (simp add: to_be_bytes_Suc from_be_bytes_snoc byte_def)
qed (simp add: to_be_bytes_def from_be_bytes_def)

lemma concat_chunks [simp]: "0 < n \<Longrightarrow> concat (chunks n xs) = xs"
  by (induction n xs rule: chunks.induct) (subst chunks.simps, simp)

lemma chunks_Nil [simp]: "chunks n [] = []" and chunks_eq_Nil: "0 < n \<Longrightarrow> chunks n xs = [] \<longleftrightarrow> xs = []"
  by (simp_all add: chunks.simps)

lemma chunks_bound: "c \<in> set (chunks n xs) \<Longrightarrow> c \<noteq> [] \<and> length c \<le> n"
proof (induction n xs rule: chunks.induct)
  case (1 n xs)
  then show ?case by (subst (asm) (2) chunks.simps) (auto split: if_splits)
qed

lemma chunks_nth:
  "i < length (chunks n xs) \<Longrightarrow> chunks n xs ! i = take n (drop (i * n) xs)"
proof (induction n xs arbitrary: i rule: chunks.induct)
  case (1 n xs)
  then have ne: "\<not> (xs = [] \<or> n = 0)" by (subst (asm) chunks.simps) (auto split: if_splits)
  then have eq: "chunks n xs = take n xs # chunks n (drop n xs)" by (subst chunks.simps) simp
  show ?case
  proof (cases i)
    case (Suc j)
    with 1 eq ne show ?thesis by (simp add: add.commute)
  qed (simp add: eq)
qed

lemma length_chunks: "0 < n \<Longrightarrow> length (chunks n xs) = (length xs + n - 1) div n"
proof (induction n xs rule: chunks.induct)
  case (1 n xs)
  show ?case
  proof (cases "xs = []")
    case False
    have "chunks n xs = take n xs # chunks n (drop n xs)" using 1 False by (subst chunks.simps) simp
    with 1 False have "length (chunks n xs) = Suc ((length xs - n + n - 1) div n)" by simp
    also have "\<dots> = (length xs + n - 1) div n"
    proof (cases "n \<le> length xs")
      case True
      with 1 have "length xs + n - 1 = (length xs - n + n - 1) + n" by simp
      then show ?thesis using 1 by (simp only: div_add_self2)
    next
      case False
      with 1 \<open>xs \<noteq> []\<close> have "length xs + n - 1 = (length xs - 1) + n" "length xs - 1 < n"
        by (cases xs; simp)+
      then show ?thesis using 1 False by (simp only: div_add_self2) simp
    qed
    finally show ?thesis .
  qed (use 1 in simp)
qed

section \<open>UTF-8\<close>

definition octet :: "char \<Rightarrow> nat" where
  "octet c = of_char c"

definition in_octets :: "nat \<Rightarrow> nat \<Rightarrow> char \<Rightarrow> bool" where
  "in_octets lo hi c \<longleftrightarrow> lo \<le> octet c \<and> octet c \<le> hi"

text \<open>\<open>std::str::from_utf8\<close>: the well-formed byte sequences of the Unicode standard, table 3-7.\<close>

fun utf8_tail :: "(nat \<times> nat) list \<Rightarrow> bytes \<Rightarrow> bytes option" where
  "utf8_tail [] s = Some s"
| "utf8_tail ((lo, hi) # ranges) (c # s) = (if in_octets lo hi c then utf8_tail ranges s else None)"
| "utf8_tail (_ # _) [] = None"

definition utf8_lead :: "char \<Rightarrow> (nat \<times> nat) list option" where
  "utf8_lead c =
     (if in_octets 0x00 0x7F c then Some []
      else if in_octets 0xC2 0xDF c then Some [(0x80, 0xBF)]
      else if in_octets 0xE0 0xE0 c then Some [(0xA0, 0xBF), (0x80, 0xBF)]
      else if in_octets 0xED 0xED c then Some [(0x80, 0x9F), (0x80, 0xBF)]
      else if in_octets 0xE1 0xEF c then Some [(0x80, 0xBF), (0x80, 0xBF)]
      else if in_octets 0xF0 0xF0 c then Some [(0x90, 0xBF), (0x80, 0xBF), (0x80, 0xBF)]
      else if in_octets 0xF1 0xF3 c then Some [(0x80, 0xBF), (0x80, 0xBF), (0x80, 0xBF)]
      else if in_octets 0xF4 0xF4 c then Some [(0x80, 0x8F), (0x80, 0xBF), (0x80, 0xBF)]
      else None)"

lemma utf8_tail_shorter: "utf8_tail ranges s = Some r \<Longrightarrow> length r \<le> length s"
  by (induction ranges s rule: utf8_tail.induct) (auto split: if_splits)

function is_utf8 :: "bytes \<Rightarrow> bool" where
  "is_utf8 [] = True"
| "is_utf8 (c # s) =
     (case utf8_lead c of
        None \<Rightarrow> False
      | Some ranges \<Rightarrow> (case utf8_tail ranges s of None \<Rightarrow> False | Some r \<Rightarrow> is_utf8 r))"
  by pat_completeness auto
termination by (relation "measure length") (auto simp: less_Suc_eq_le dest: utf8_tail_shorter)

lemma ascii_is_utf8: "list_all (\<lambda>c. octet c < 128) s \<Longrightarrow> is_utf8 s"
  by (induction s) (simp_all add: utf8_lead_def in_octets_def)

section \<open>Header\<close>

datatype blob_error =
    Blob_NotFound
  | Blob_Tombstoned
  | Blob_DigestMismatch blob_address blob_address
  | Blob_Integrity
  | Blob_Pinned
  | Blob_Storage

definition BLOB_CHUNK_BYTES :: nat where "BLOB_CHUNK_BYTES = 1024 * 1024"

definition MAGIC :: bytes where "MAGIC = ''GWKBLOB'' @ [byte 0]"
definition FORMAT_VERSION :: nat where "FORMAT_VERSION = 1"
definition DEK_BYTES :: nat where "DEK_BYTES = 32"
definition WRAP_NONCE_BYTES :: nat where "WRAP_NONCE_BYTES = 24"
definition TAG_BYTES :: nat where "TAG_BYTES = 16"
definition WRAPPED_DEK_BYTES :: nat where "WRAPPED_DEK_BYTES = DEK_BYTES + TAG_BYTES"
definition STREAM_NONCE_BYTES :: nat where "STREAM_NONCE_BYTES = WRAP_NONCE_BYTES - 5"
definition CHUNK_LEN_BYTES :: nat where "CHUNK_LEN_BYTES = 4"
definition MAX_CIPHERTEXT_CHUNK_BYTES :: nat where
  "MAX_CIPHERTEXT_CHUNK_BYTES = BLOB_CHUNK_BYTES + TAG_BYTES"
definition FRAMED_CHUNK_BYTES :: nat where
  "FRAMED_CHUNK_BYTES = CHUNK_LEN_BYTES + MAX_CIPHERTEXT_CHUNK_BYTES"
definition DIGEST_BYTES :: nat where "DIGEST_BYTES = 32"
definition FIXED_HEADER_BYTES :: nat where
  "FIXED_HEADER_BYTES = length MAGIC + 2 + DIGEST_BYTES + 8 + STREAM_NONCE_BYTES + 2 + 2"

lemmas container_sizes = BLOB_CHUNK_BYTES_def FORMAT_VERSION_def DEK_BYTES_def WRAP_NONCE_BYTES_def
  TAG_BYTES_def WRAPPED_DEK_BYTES_def STREAM_NONCE_BYTES_def CHUNK_LEN_BYTES_def
  MAX_CIPHERTEXT_CHUNK_BYTES_def FRAMED_CHUNK_BYTES_def DIGEST_BYTES_def FIXED_HEADER_BYTES_def

definition header_len :: "string \<Rightarrow> string \<Rightarrow> nat" where
  "header_len media_type kek_id = FIXED_HEADER_BYTES + length media_type + length kek_id"

definition chunk_count :: "nat \<Rightarrow> nat" where
  "chunk_count byte_size = max ((byte_size + BLOB_CHUNK_BYTES - 1) div BLOB_CHUNK_BYTES) 1"

definition chunk_offset :: "nat \<Rightarrow> nat \<Rightarrow> nat" where
  "chunk_offset head index = head + index * FRAMED_CHUNK_BYTES"

record header =
  hd_digest :: bytes
  hd_byte_size :: u64
  hd_media_type :: string
  hd_kek_id :: string
  hd_stream_nonce :: bytes

definition header_encode :: "header \<Rightarrow> bytes" where
  "header_encode h =
     MAGIC @ to_be_bytes 2 FORMAT_VERSION @ hd_digest h @ to_be_bytes 8 (unat (hd_byte_size h))
     @ hd_stream_nonce h @ to_be_bytes 2 (length (hd_media_type h)) @ to_be_bytes 2 (length (hd_kek_id h))
     @ hd_media_type h @ hd_kek_id h"

definition slice_of :: "nat \<Rightarrow> nat \<Rightarrow> 'a list \<Rightarrow> 'a list" where
  "slice_of start stop s = take (stop - start) (drop start s)"

definition header_decode :: "bytes \<Rightarrow> blob_error + header \<times> nat" where
  "header_decode bytes =
     (let version_at = length MAGIC; digest_at = version_at + 2; size_at = digest_at + DIGEST_BYTES;
          nonce_at = size_at + 8; media_len_at = nonce_at + STREAM_NONCE_BYTES;
          kek_len_at = media_len_at + 2; at = FIXED_HEADER_BYTES;
          media_len = from_be_bytes (slice_of media_len_at kek_len_at bytes);
          kek_len = from_be_bytes (slice_of kek_len_at FIXED_HEADER_BYTES bytes);
          media_type = slice_of at (at + media_len) bytes;
          kek_id = slice_of (at + media_len) (at + media_len + kek_len) bytes in
      and_then (guard_that (FIXED_HEADER_BYTES \<le> length bytes) Blob_Integrity) (\<lambda>_.
      and_then (guard_that (slice_of 0 version_at bytes = MAGIC) Blob_Integrity) (\<lambda>_.
      and_then (guard_that (from_be_bytes (slice_of version_at digest_at bytes) = FORMAT_VERSION)
                  Blob_Integrity) (\<lambda>_.
      and_then (guard_that (at + media_len + kek_len \<le> length bytes) Blob_Integrity) (\<lambda>_.
      and_then (guard_that (is_utf8 media_type) Blob_Integrity) (\<lambda>_.
      and_then (guard_that (is_utf8 kek_id) Blob_Integrity) (\<lambda>_.
      Inr (\<lparr>hd_digest = slice_of digest_at size_at bytes,
             hd_byte_size = of_nat (from_be_bytes (slice_of size_at nonce_at bytes)),
             hd_media_type = media_type, hd_kek_id = kek_id,
             hd_stream_nonce = slice_of nonce_at media_len_at bytes\<rparr>,
           at + media_len + kek_len))))))))"

definition header_ok :: "header \<Rightarrow> bool" where
  "header_ok h \<longleftrightarrow> length (hd_digest h) = DIGEST_BYTES \<and> length (hd_stream_nonce h) = STREAM_NONCE_BYTES
     \<and> length (hd_media_type h) < 2 ^ 16 \<and> length (hd_kek_id h) < 2 ^ 16
     \<and> is_utf8 (hd_media_type h) \<and> is_utf8 (hd_kek_id h)"

lemma length_MAGIC [simp]: "length MAGIC = 8"
  by (simp add: MAGIC_def)

lemma length_header_encode:
  "header_ok h \<Longrightarrow> length (header_encode h) = header_len (hd_media_type h) (hd_kek_id h)"
  by (simp add: header_ok_def header_encode_def header_len_def container_sizes)

lemma slice_all: "length xs = n \<Longrightarrow> slice_of 0 n xs = xs"
  by (simp add: slice_of_def)

lemma slice_skip: "length xs \<le> a \<Longrightarrow> slice_of a b (xs @ ys) = slice_of (a - length xs) (b - length xs) ys"
  by (simp add: slice_of_def)

lemma slice_head: "b = length xs \<Longrightarrow> slice_of 0 b (xs @ ys) = xs"
  by (simp add: slice_of_def)

lemma header_roundtrip:
  assumes "header_ok h"
  shows "header_decode (header_encode h @ rest) = Inr (h, header_len (hd_media_type h) (hd_kek_id h))"
proof -
  obtain d z m k n where h: "h = \<lparr>hd_digest = d, hd_byte_size = z, hd_media_type = m, hd_kek_id = k,
      hd_stream_nonce = n\<rparr>" by (cases h)
  have z: "unat z < 256 ^ 8" using unat_bound [of z] by simp
  from assms have "length d = 32" "length n = 19" "length m < 256 ^ 2" "length k < 256 ^ 2"
    by (simp_all add: h header_ok_def container_sizes)
  with assms z show ?thesis
    by (simp add: h header_ok_def header_decode_def header_encode_def header_len_def container_sizes Let_def
        slice_skip slice_head slice_all from_to_be_bytes)
qed

lemma to_from_be_bytes: "to_be_bytes (length s) (from_be_bytes s) = s"
proof (induction s rule: rev_induct)
  case (snoc c s)
  have "(from_be_bytes s * 256 + of_char c) mod 256 = of_char c"
    and "(from_be_bytes s * 256 + of_char c) div 256 = from_be_bytes s" by simp_all
  moreover from this(1) have "byte (from_be_bytes s * 256 + of_char c) = c"
    unfolding byte_def by (metis char_of_mod_256 char_of_char)
  ultimately show ?case using snoc by (simp add: from_be_bytes_snoc to_be_bytes_Suc)
qed (simp add: to_be_bytes_def)

lemma from_be_bytes_bound: "from_be_bytes s < 256 ^ length s"
proof (induction s rule: rev_induct)
  case (snoc c s)
  have "of_char c < (256 :: nat)" by simp
  moreover have "from_be_bytes s * 256 + 256 \<le> 256 ^ length s * 256"
    using mult_right_mono [OF Suc_leI [OF snoc], of 256] by simp
  ultimately have "from_be_bytes s * 256 + of_char c < 256 ^ length s * 256" by linarith
  then show ?case by (simp add: from_be_bytes_snoc mult.commute)
qed (simp add: from_be_bytes_def)

lemma slice_slice: "a \<le> b \<Longrightarrow> b \<le> c \<Longrightarrow> slice_of a b s @ slice_of b c s = slice_of a c s"
proof -
  assume "a \<le> b" "b \<le> c"
  then obtain d e where "b = a + d" "c = b + e" by (metis le_iff_add)
  then show ?thesis by (simp add: slice_of_def take_add add.commute)
qed

lemma length_slice: "b \<le> length s \<Longrightarrow> length (slice_of a b s) = b - a"
  by (auto simp: slice_of_def)

lemma be_bytes_slice: "b \<le> length s \<Longrightarrow> b - a = n \<Longrightarrow> to_be_bytes n (from_be_bytes (slice_of a b s)) = slice_of a b s"
  using to_from_be_bytes [of "slice_of a b s"] by (simp add: length_slice)

lemma header_decode_exact:
  assumes "header_decode bytes = Inr (h, n)"
  shows "header_ok h \<and> n = header_len (hd_media_type h) (hd_kek_id h) \<and> n \<le> length bytes
    \<and> take n bytes = header_encode h"
proof -
  define m where "m = from_be_bytes (slice_of 69 71 bytes)"
  define k where "k = from_be_bytes (slice_of 71 73 bytes)"
  note sz = container_sizes
  from assms have len: "73 + m + k \<le> length bytes" and n: "n = 73 + m + k"
    and magic: "slice_of 0 8 bytes = MAGIC" and version: "from_be_bytes (slice_of 8 10 bytes) = 1"
    and utf8: "is_utf8 (slice_of 73 (73 + m) bytes)" "is_utf8 (slice_of (73 + m) (73 + m + k) bytes)"
    and h: "h = \<lparr>hd_digest = slice_of 10 42 bytes, hd_byte_size = of_nat (from_be_bytes (slice_of 42 50 bytes)),
      hd_media_type = slice_of 73 (73 + m) bytes, hd_kek_id = slice_of (73 + m) (73 + m + k) bytes,
      hd_stream_nonce = slice_of 50 69 bytes\<rparr>"
    by (auto simp: header_decode_def sz Let_def result_simps m_def k_def)
  have mk: "m < 2 ^ 16" "k < 2 ^ 16"
    using from_be_bytes_bound [of "slice_of 69 71 bytes"] from_be_bytes_bound [of "slice_of 71 73 bytes"] len
    by (simp_all add: m_def k_def length_slice)
  have be: "to_be_bytes 2 m = slice_of 69 71 bytes" "to_be_bytes 2 k = slice_of 71 73 bytes"
    using len by (simp_all add: m_def k_def be_bytes_slice)
  have v: "to_be_bytes 2 1 = slice_of 8 10 bytes"
    using be_bytes_slice [of 10 bytes 8 2] version len by simp
  have size: "unat (of_nat (from_be_bytes (slice_of 42 50 bytes)) :: u64) = from_be_bytes (slice_of 42 50 bytes)"
    using from_be_bytes_bound [of "slice_of 42 50 bytes"] len by (simp add: unat_of_nat length_slice)
  have "header_encode h = slice_of 0 8 bytes @ slice_of 8 10 bytes @ slice_of 10 42 bytes @ slice_of 42 50 bytes
      @ slice_of 50 69 bytes @ slice_of 69 71 bytes @ slice_of 71 73 bytes @ slice_of 73 (73 + m) bytes
      @ slice_of (73 + m) (73 + m + k) bytes"
    using len be v by (simp add: header_encode_def h sz magic size be_bytes_slice length_slice)
  also have "\<dots> = slice_of 0 (73 + m + k) bytes" by (simp add: slice_slice)
  finally have "take n bytes = header_encode h" by (simp add: n slice_of_def)
  moreover have "header_ok h" using len mk utf8 by (simp add: header_ok_def h sz length_slice)
  ultimately show ?thesis using len by (simp add: n h header_len_def sz length_slice)
qed

section \<open>Sealing and opening\<close>

record suite =
  su_sha :: "bytes \<Rightarrow> bytes"
  su_wrap :: "bytes \<Rightarrow> bytes \<Rightarrow> bytes \<Rightarrow> bytes \<Rightarrow> bytes option"
  su_unwrap :: "bytes \<Rightarrow> bytes \<Rightarrow> bytes \<Rightarrow> bytes \<Rightarrow> bytes option"
  su_seal :: "bytes \<Rightarrow> bytes \<Rightarrow> nat \<Rightarrow> bool \<Rightarrow> bytes \<Rightarrow> bytes \<Rightarrow> bytes option"
  su_open :: "bytes \<Rightarrow> bytes \<Rightarrow> nat \<Rightarrow> bool \<Rightarrow> bytes \<Rightarrow> bytes \<Rightarrow> bytes option"

text \<open>
  The documented behaviour of the cipher crates: deterministic authenticated encryption with a
  16-byte tag, whose decryption accepts exactly what encryption produces under the same key, nonce,
  position, last-block flag and associated data; a 32-byte hash.
\<close>

definition suite_ok :: "'m suite_scheme \<Rightarrow> bool" where
  "suite_ok S \<longleftrightarrow>
     (\<forall>k n a m c. su_unwrap S k n a c = Some m \<longleftrightarrow> su_wrap S k n a m = Some c)
     \<and> (\<forall>k n i l a m c. su_open S k n i l a c = Some m \<longleftrightarrow> su_seal S k n i l a m = Some c)
     \<and> (\<forall>k n a m c. su_wrap S k n a m = Some c \<longrightarrow> length c = length m + TAG_BYTES)
     \<and> (\<forall>k n i l a m c. su_seal S k n i l a m = Some c \<longrightarrow> length c = length m + TAG_BYTES)
     \<and> (\<forall>x. length (su_sha S x) = DIGEST_BYTES)"

definition COUNTER_MAX :: nat where "COUNTER_MAX = 2 ^ 32 - 1"

definition hex_digit :: "nat \<Rightarrow> char" where
  "hex_digit n = (if n < 10 then byte (48 + n) else byte (87 + n))"

definition hex_lower :: "bytes \<Rightarrow> string" where
  "hex_lower bytes = concat (map (\<lambda>b. [hex_digit (octet b div 16), hex_digit (octet b mod 16)]) bytes)"

definition wrap_dek :: "'m suite_scheme \<Rightarrow> bytes \<Rightarrow> bytes \<Rightarrow> bytes \<Rightarrow> bytes \<Rightarrow> blob_error + bytes" where
  "wrap_dek S dek kek nonce aad =
     and_then (ok_or Blob_Integrity (su_wrap S kek nonce aad dek)) (\<lambda>sealed.
     and_then (guard_that (length sealed = WRAPPED_DEK_BYTES) Blob_Integrity) (\<lambda>_. Inr sealed))"

definition unwrap_dek :: "'m suite_scheme \<Rightarrow> bytes \<Rightarrow> bytes \<Rightarrow> bytes \<Rightarrow> bytes \<Rightarrow> blob_error + bytes" where
  "unwrap_dek S wrapped kek nonce aad =
     and_then (ok_or Blob_Integrity (su_unwrap S kek nonce aad wrapped)) (\<lambda>dek.
     and_then (guard_that (length dek = DEK_BYTES) Blob_Integrity) (\<lambda>_. Inr dek))"

definition push_chunk :: "bytes \<Rightarrow> blob_error + bytes" where
  "push_chunk chunk =
     and_then (guard_that (length chunk < 2 ^ 32) Blob_Integrity) (\<lambda>_.
     Inr (to_be_bytes CHUNK_LEN_BYTES (length chunk) @ chunk))"

definition read_chunk :: "bytes \<Rightarrow> nat \<Rightarrow> blob_error + bytes \<times> nat" where
  "read_chunk container at =
     (let stop_len = at + 4; len = from_be_bytes (slice_of at stop_len container); stop = stop_len + len in
      and_then (guard_that (stop_len \<le> length container) Blob_Integrity) (\<lambda>_.
      and_then (guard_that (stop \<le> length container) Blob_Integrity) (\<lambda>_.
      Inr (slice_of stop_len stop container, stop))))"

fun seal_stream ::
  "'m suite_scheme \<Rightarrow> bytes \<Rightarrow> bytes \<Rightarrow> bytes \<Rightarrow> nat \<Rightarrow> bytes list \<Rightarrow> blob_error + bytes" where
  "seal_stream S aad dek nonce pos [] = Inl Blob_Integrity"
| "seal_stream S aad dek nonce pos [c] =
     and_then (ok_or Blob_Integrity (su_seal S dek nonce pos True aad c)) push_chunk"
| "seal_stream S aad dek nonce pos (c # d # cs) =
     and_then (guard_that (pos \<noteq> COUNTER_MAX) Blob_Integrity) (\<lambda>_.
     and_then (ok_or Blob_Integrity (su_seal S dek nonce pos False aad c)) (\<lambda>sealed.
     and_then (push_chunk sealed) (\<lambda>framed.
     and_then (seal_stream S aad dek nonce (Suc pos) (d # cs)) (\<lambda>rest. Inr (framed @ rest)))))"

definition sealed_chunks :: "bytes \<Rightarrow> bytes list" where
  "sealed_chunks plaintext =
     (let cs = chunks BLOB_CHUNK_BYTES plaintext in if cs = [] then [[]] else cs)"

record sealed =
  sl_container :: bytes
  sl_wrap_nonce :: bytes
  sl_wrapped_dek :: bytes
  sl_digest_hex :: string

definition header_of :: "'m suite_scheme \<Rightarrow> bytes \<Rightarrow> string \<Rightarrow> string \<Rightarrow> bytes \<Rightarrow> header" where
  "header_of S plaintext media_type kek_id stream_nonce =
     \<lparr>hd_digest = su_sha S plaintext, hd_byte_size = of_nat (length plaintext),
      hd_media_type = media_type, hd_kek_id = kek_id, hd_stream_nonce = stream_nonce\<rparr>"

definition seal_with ::
  "'m suite_scheme \<Rightarrow> bytes \<Rightarrow> string \<Rightarrow> bytes \<Rightarrow> string \<Rightarrow> bytes \<Rightarrow> bytes \<Rightarrow> bytes \<Rightarrow> blob_error + sealed" where
  "seal_with S plaintext media_type kek kek_id dek wrap_nonce stream_nonce =
     (let aad = header_encode (header_of S plaintext media_type kek_id stream_nonce) in
      and_then (guard_that (length media_type < 2 ^ 16 \<and> length kek_id < 2 ^ 16) Blob_Integrity) (\<lambda>_.
      and_then (wrap_dek S dek kek wrap_nonce aad) (\<lambda>wrapped_dek.
      and_then (seal_stream S aad dek stream_nonce 0 (sealed_chunks plaintext)) (\<lambda>body.
      Inr \<lparr>sl_container = aad @ body, sl_wrap_nonce = wrap_nonce, sl_wrapped_dek = wrapped_dek,
           sl_digest_hex = hex_lower (su_sha S plaintext)\<rparr>))))"

function frame_chunks :: "bytes \<Rightarrow> nat \<Rightarrow> blob_error + bytes list" where
  "frame_chunks container at =
     (if at < length container then
        (case read_chunk container at of
           Inl e \<Rightarrow> Inl e
         | Inr (chunk, stop) \<Rightarrow> and_then (frame_chunks container stop) (\<lambda>cs. Inr (chunk # cs)))
      else Inr [])"
  by auto
termination
  by (relation "measure (\<lambda>(container, at). length container - at)")
    (auto simp: read_chunk_def Let_def result_simps)

declare frame_chunks.simps [simp del]

fun open_stream ::
  "'m suite_scheme \<Rightarrow> bytes \<Rightarrow> bytes \<Rightarrow> bytes \<Rightarrow> nat \<Rightarrow> bytes list \<Rightarrow> blob_error + bytes" where
  "open_stream S aad dek nonce pos [] = Inl Blob_Integrity"
| "open_stream S aad dek nonce pos [c] = ok_or Blob_Integrity (su_open S dek nonce pos True aad c)"
| "open_stream S aad dek nonce pos (c # d # cs) =
     and_then (guard_that (pos \<noteq> COUNTER_MAX) Blob_Integrity) (\<lambda>_.
     and_then (ok_or Blob_Integrity (su_open S dek nonce pos False aad c)) (\<lambda>part.
     and_then (open_stream S aad dek nonce (Suc pos) (d # cs)) (\<lambda>rest. Inr (part @ rest))))"

definition open_container_bytes ::
  "'m suite_scheme \<Rightarrow> bytes \<Rightarrow> bytes \<Rightarrow> bytes \<Rightarrow> bytes \<Rightarrow> blob_error + header \<times> bytes" where
  "open_container_bytes S container kek wrap_nonce wrapped_dek =
     and_then (header_decode container) (\<lambda>(h, n).
     let aad = take n container in
     and_then (unwrap_dek S wrapped_dek kek wrap_nonce aad) (\<lambda>dek.
     and_then (frame_chunks container n) (\<lambda>framed.
     and_then (open_stream S aad dek (hd_stream_nonce h) 0 framed) (\<lambda>plaintext.
     and_then (guard_that (of_nat (length plaintext) = hd_byte_size h) Blob_Integrity) (\<lambda>_.
     and_then (guard_that (su_sha S plaintext = hd_digest h) Blob_Integrity) (\<lambda>_.
     Inr (h, plaintext)))))))"

definition rewrap ::
  "'m suite_scheme \<Rightarrow> bytes \<Rightarrow> bytes \<Rightarrow> bytes \<Rightarrow> bytes \<Rightarrow> bytes \<Rightarrow> bytes \<Rightarrow> blob_error + bytes" where
  "rewrap S container old_kek new_kek wrap_nonce wrapped_dek new_wrap_nonce =
     and_then (header_decode container) (\<lambda>(_, n).
     let aad = take n container in
     and_then (unwrap_dek S wrapped_dek old_kek wrap_nonce aad) (\<lambda>dek.
     wrap_dek S dek new_kek new_wrap_nonce aad))"

definition open_chunk ::
  "'m suite_scheme \<Rightarrow> bytes \<Rightarrow> bytes \<Rightarrow> bytes \<Rightarrow> nat \<Rightarrow> bool \<Rightarrow> bytes \<Rightarrow> blob_error + bytes" where
  "open_chunk S aad dek stream_nonce position is_last ciphertext =
     ok_or Blob_Integrity (su_open S dek stream_nonce position is_last aad ciphertext)"

section \<open>Frames\<close>

definition framed :: "bytes list \<Rightarrow> bytes" where
  "framed cs = concat (map (\<lambda>c. to_be_bytes CHUNK_LEN_BYTES (length c) @ c) cs)"

lemma framed_simps [simp]:
  "framed [] = []" "framed (c # cs) = to_be_bytes CHUNK_LEN_BYTES (length c) @ c @ framed cs"
  by (simp_all add: framed_def)

lemma read_chunk_framed:
  assumes "length c < 2 ^ 32"
  shows "read_chunk (pre @ framed (c # cs)) (length pre) = Inr (c, length pre + 4 + length c)"
proof -
  have "from_be_bytes (to_be_bytes 4 (length c)) = length c" using assms by (intro from_to_be_bytes) simp
  then show ?thesis by (simp add: read_chunk_def container_sizes slice_skip slice_head)
qed

lemma frame_chunks_framed:
  assumes "list_all (\<lambda>c. length c < 2 ^ 32) cs"
  shows "frame_chunks (pre @ framed cs) (length pre) = Inr cs"
  using assms
proof (induction cs arbitrary: pre)
  case Nil
  show ?case by (subst frame_chunks.simps) simp
next
  case (Cons c cs)
  have "frame_chunks ((pre @ to_be_bytes 4 (length c) @ c) @ framed cs)
      (length (pre @ to_be_bytes 4 (length c) @ c)) = Inr cs" using Cons by (intro Cons.IH) simp
  then have "frame_chunks (pre @ framed (c # cs)) (length pre + 4 + length c) = Inr cs"
    by (simp add: container_sizes add.assoc)
  moreover have "length pre < length (pre @ framed (c # cs))" by (simp add: container_sizes)
  ultimately show ?case
    using read_chunk_framed [of c pre cs] Cons.prems by (subst frame_chunks.simps) (simp only: if_True, simp)
qed

lemma read_chunk_exact:
  assumes "read_chunk container at = Inr (c, stop)"
  shows "drop at container = to_be_bytes CHUNK_LEN_BYTES (length c) @ c @ drop stop container
    \<and> length c < 2 ^ 32 \<and> stop \<le> length container"
proof -
  define len where "len = from_be_bytes (slice_of at (at + 4) container)"
  from assms have b: "at + 4 + len \<le> length container" and c: "c = slice_of (at + 4) (at + 4 + len) container"
    and stop: "stop = at + 4 + len"
    by (auto simp: read_chunk_def Let_def result_simps len_def)
  have "length c = len" using b c by (simp add: length_slice)
  moreover have "to_be_bytes 4 len = slice_of at (at + 4) container"
    using b unfolding len_def by (intro be_bytes_slice) simp_all
  moreover have "drop at container = slice_of at (at + 4) container @ c @ drop stop container"
    using b by (simp add: c stop slice_of_def) (metis append_take_drop_id drop_drop add.commute add.left_commute)
  moreover have "len < 2 ^ 32"
    using from_be_bytes_bound [of "slice_of at (at + 4) container"] b by (simp add: len_def length_slice)
  ultimately show ?thesis using b stop by (simp add: container_sizes)
qed

lemma frame_chunks_exact:
  "frame_chunks container at = Inr cs \<Longrightarrow> at \<le> length container \<Longrightarrow>
     drop at container = framed cs \<and> list_all (\<lambda>c. length c < 2 ^ 32) cs"
proof (induction container at arbitrary: cs rule: frame_chunks.induct)
  case (1 container at)
  show ?case
  proof (cases "at < length container")
    case True
    with 1(2) obtain c stop cs' where r: "read_chunk container at = Inr (c, stop)"
      and cs: "frame_chunks container stop = Inr cs'" "cs = c # cs'"
      by (subst (asm) frame_chunks.simps) (auto simp: result_simps split: sum.splits)
    from 1(1) [OF True r refl cs(1)] read_chunk_exact [OF r] cs(2) show ?thesis by simp
  next
    case False
    with 1 show ?thesis by (subst (asm) (2) frame_chunks.simps) simp
  qed
qed

section \<open>The stream of chunks\<close>

lemma seal_stream_chunks:
  assumes "suite_ok S" and "seal_stream S aad dek nonce pos cs = Inr body"
  shows "\<exists>fs. body = framed fs \<and> list_all (\<lambda>c. length c < 2 ^ 32) fs \<and> length fs = length cs
    \<and> open_stream S aad dek nonce pos fs = Inr (concat cs)
    \<and> (\<forall>i < length cs. length (fs ! i) = length (cs ! i) + TAG_BYTES
         \<and> open_chunk S aad dek nonce (pos + i) (i = length cs - 1) (fs ! i) = Inr (cs ! i))"
  using assms(2)
proof (induction cs arbitrary: pos body rule: induct_list012)
  case (2 c)
  then obtain s where s: "su_seal S dek nonce pos True aad c = Some s" "length s < 2 ^ 32"
    and b: "body = framed [s]" by (auto simp: result_simps push_chunk_def)
  with assms(1) have "su_open S dek nonce pos True aad s = Some c" "length s = length c + TAG_BYTES"
    by (auto simp: suite_ok_def)
  with s b show ?case by (intro exI [of _ "[s]"]) (simp add: open_chunk_def)
next
  case (3 c d cs)
  then obtain s rest where s: "su_seal S dek nonce pos False aad c = Some s" "length s < 2 ^ 32"
    and pos: "pos \<noteq> COUNTER_MAX" and rest: "seal_stream S aad dek nonce (Suc pos) (d # cs) = Inr rest"
    and b: "body = to_be_bytes CHUNK_LEN_BYTES (length s) @ s @ rest"
    by (auto simp: result_simps push_chunk_def)
  have o: "su_open S dek nonce pos False aad s = Some c" "length s = length c + TAG_BYTES"
    using s assms(1) by (auto simp: suite_ok_def)
  from "3.IH"(2) [OF rest] obtain fs where fs: "rest = framed fs" "list_all (\<lambda>c. length c < 2 ^ 32) fs"
      "length fs = length (d # cs)" "open_stream S aad dek nonce (Suc pos) fs = Inr (concat (d # cs))"
    and nth: "\<And>i. i < length (d # cs) \<Longrightarrow> length (fs ! i) = length ((d # cs) ! i) + TAG_BYTES
      \<and> open_chunk S aad dek nonce (Suc pos + i) (i = length (d # cs) - 1) (fs ! i) = Inr ((d # cs) ! i)"
    by blast
  then obtain f fs' where f: "fs = f # fs'" by (cases fs) auto
  have "length ((s # fs) ! i) = length ((c # d # cs) ! i) + TAG_BYTES
      \<and> open_chunk S aad dek nonce (pos + i) (i = length (c # d # cs) - 1) ((s # fs) ! i) = Inr ((c # d # cs) ! i)"
    if "i < length (c # d # cs)" for i
    using that o nth [of "i - 1"] by (cases i) (simp_all add: open_chunk_def)
  with fs s(2) b o pos show ?case by (intro exI [of _ "s # fs"]) (simp add: f)
qed simp

lemma open_stream_exact:
  assumes "suite_ok S" and "open_stream S aad dek nonce pos fs = Inr plaintext"
    and "list_all (\<lambda>c. length c < 2 ^ 32) fs"
  shows "\<exists>cs. plaintext = concat cs \<and> seal_stream S aad dek nonce pos cs = Inr (framed fs)"
  using assms(2,3)
proof (induction fs arbitrary: pos plaintext rule: induct_list012)
  case (2 f)
  with assms(1) show ?case
    by (intro exI [of _ "[plaintext]"]) (auto simp: result_simps suite_ok_def push_chunk_def)
next
  case (3 f g fs)
  then obtain part rest where o: "su_open S dek nonce pos False aad f = Some part" "pos \<noteq> COUNTER_MAX"
    and rest: "open_stream S aad dek nonce (Suc pos) (g # fs) = Inr rest" and p: "plaintext = part @ rest"
    by (auto simp: result_simps)
  from "3.IH"(2) [OF rest] "3.prems"(2) obtain cs where cs: "rest = concat cs"
    "seal_stream S aad dek nonce (Suc pos) cs = Inr (framed (g # fs))" by auto
  then obtain d ds where d: "cs = d # ds" by (cases cs) auto
  have "su_seal S dek nonce pos False aad part = Some f" using o assms(1) by (auto simp: suite_ok_def)
  with o cs d p "3.prems"(2) show ?case by (intro exI [of _ "part # cs"]) (simp add: push_chunk_def)
qed simp

section \<open>Sealing, opening, rewrapping\<close>

lemma sealed_chunks_simps [simp]: "sealed_chunks p \<noteq> []" "concat (sealed_chunks p) = p"
  by (simp_all add: sealed_chunks_def Let_def BLOB_CHUNK_BYTES_def chunks_eq_Nil)

lemma unwrap_wrap:
  assumes "suite_ok S" and "wrap_dek S dek kek nonce aad = Inr wrapped"
  shows "unwrap_dek S wrapped kek nonce aad = Inr dek"
proof -
  from assms(2) have w: "su_wrap S kek nonce aad dek = Some wrapped" "length wrapped = WRAPPED_DEK_BYTES"
    by (auto simp: wrap_dek_def result_simps)
  with assms(1) have "su_unwrap S kek nonce aad wrapped = Some dek" "length wrapped = length dek + TAG_BYTES"
    by (auto simp: suite_ok_def)
  with w(2) show ?thesis by (simp add: unwrap_dek_def WRAPPED_DEK_BYTES_def)
qed

definition seal_args_ok :: "bytes \<Rightarrow> string \<Rightarrow> string \<Rightarrow> bytes \<Rightarrow> bool" where
  "seal_args_ok plaintext media_type kek_id stream_nonce \<longleftrightarrow>
     length plaintext < 2 ^ 64 \<and> is_utf8 media_type \<and> is_utf8 kek_id
     \<and> length stream_nonce = STREAM_NONCE_BYTES"

lemma seal_with_parts:
  assumes "suite_ok S" and "seal_args_ok plaintext media_type kek_id stream_nonce"
    and "seal_with S plaintext media_type kek kek_id dek wrap_nonce stream_nonce = Inr sl"
  obtains body where "header_ok (header_of S plaintext media_type kek_id stream_nonce)"
    and "sl_container sl = header_encode (header_of S plaintext media_type kek_id stream_nonce) @ body"
    and "wrap_dek S dek kek wrap_nonce (header_encode (header_of S plaintext media_type kek_id stream_nonce))
      = Inr (sl_wrapped_dek sl)"
    and "seal_stream S (header_encode (header_of S plaintext media_type kek_id stream_nonce)) dek stream_nonce 0
      (sealed_chunks plaintext) = Inr body"
    and "sl_wrap_nonce sl = wrap_nonce" and "sl_digest_hex sl = hex_lower (su_sha S plaintext)"
  using assms by (auto simp: seal_with_def Let_def result_simps header_ok_def header_of_def seal_args_ok_def suite_ok_def)

lemma seal_then_open:
  assumes "suite_ok S" and "seal_args_ok plaintext media_type kek_id stream_nonce"
    and "seal_with S plaintext media_type kek kek_id dek wrap_nonce stream_nonce = Inr sl"
  shows "open_container_bytes S (sl_container sl) kek wrap_nonce (sl_wrapped_dek sl)
    = Inr (header_of S plaintext media_type kek_id stream_nonce, plaintext)"
proof -
  let ?h = "header_of S plaintext media_type kek_id stream_nonce"
  from seal_with_parts [OF assms] obtain body where ok: "header_ok ?h"
    and c: "sl_container sl = header_encode ?h @ body"
    and w: "wrap_dek S dek kek wrap_nonce (header_encode ?h) = Inr (sl_wrapped_dek sl)"
    and b: "seal_stream S (header_encode ?h) dek stream_nonce 0 (sealed_chunks plaintext) = Inr body" by blast
  from seal_stream_chunks [OF assms(1) b] obtain fs where fs: "body = framed fs"
      "list_all (\<lambda>c. length c < 2 ^ 32) fs"
      "open_stream S (header_encode ?h) dek stream_nonce 0 fs = Inr plaintext" by auto
  have "of_nat (length plaintext) = hd_byte_size ?h" "su_sha S plaintext = hd_digest ?h"
    "hd_stream_nonce ?h = stream_nonce" by (simp_all add: header_of_def)
  with fs show ?thesis
    using header_roundtrip [OF ok, of body] length_header_encode [OF ok] unwrap_wrap [OF assms(1) w]
      frame_chunks_framed [OF fs(2), of "header_encode ?h"]
    by (simp add: open_container_bytes_def c Let_def)
qed

lemma open_only_sealed:
  assumes "suite_ok S" and "open_container_bytes S container kek wrap_nonce wrapped = Inr (h, plaintext)"
  shows "\<exists>dek cs body. plaintext = concat cs \<and> wrap_dek S dek kek wrap_nonce (header_encode h) = Inr wrapped
    \<and> seal_stream S (header_encode h) dek (hd_stream_nonce h) 0 cs = Inr body
    \<and> container = header_encode h @ body
    \<and> hd_digest h = su_sha S plaintext \<and> hd_byte_size h = of_nat (length plaintext)"
proof -
  from assms(2) obtain n dek fs where d: "header_decode container = Inr (h, n)"
    and u: "unwrap_dek S wrapped kek wrap_nonce (take n container) = Inr dek"
    and f: "frame_chunks container n = Inr fs"
    and p: "open_stream S (take n container) dek (hd_stream_nonce h) 0 fs = Inr plaintext"
      "of_nat (length plaintext) = hd_byte_size h" "su_sha S plaintext = hd_digest h"
    by (auto simp: open_container_bytes_def result_simps Let_def)
  note dec = header_decode_exact [OF d]
  from dec frame_chunks_exact [OF f] have rest: "drop n container = framed fs"
    "list_all (\<lambda>c. length c < 2 ^ 32) fs" by simp_all
  from open_stream_exact [OF assms(1) p(1) rest(2)] obtain cs where cs: "plaintext = concat cs"
    "seal_stream S (take n container) dek (hd_stream_nonce h) 0 cs = Inr (framed fs)" by blast
  moreover have "wrap_dek S dek kek wrap_nonce (take n container) = Inr wrapped"
    using u assms(1) by (auto simp: unwrap_dek_def wrap_dek_def result_simps suite_ok_def WRAPPED_DEK_BYTES_def)
  moreover have "container = take n container @ framed fs" using rest by (metis append_take_drop_id)
  ultimately show ?thesis using dec p by metis
qed

lemma rewrap_then_open:
  assumes "suite_ok S" and "open_container_bytes S container kek wrap_nonce wrapped = Inr r"
    and "rewrap S container kek new_kek wrap_nonce wrapped new_nonce = Inr wrapped'"
  shows "open_container_bytes S container new_kek new_nonce wrapped' = Inr r"
proof -
  from assms(2) obtain h n dek where d: "header_decode container = Inr (h, n)"
    and u: "unwrap_dek S wrapped kek wrap_nonce (take n container) = Inr dek"
    by (auto simp: open_container_bytes_def result_simps Let_def)
  with assms(3) have "wrap_dek S dek new_kek new_nonce (take n container) = Inr wrapped'"
    by (simp add: rewrap_def)
  from unwrap_wrap [OF assms(1) this] d u assms(2) show ?thesis
    by (simp add: open_container_bytes_def)
qed

end
