(* ===== verification/Gw_Blob.thy ===== *)
theory Gw_Blob
  imports Gw_Container Gw_Schema "HOL-Library.List_Lexorder" "HOL-Library.Char_ord"
begin

text \<open>
  The blob store of \<open>gwk-kernel/src/blob/store.rs\<close>: containers in files named by their digest, keys,
  pins and uploads in tables. Each statement and file operation commits on its own, so a failure
  keeps what came before it: an operation returns its result and the state it left. \<open>blob_env\<close> holds
  the cipher suite, the configuration, the random bytes of a call, the clock and what fails.
\<close>

section \<open>State\<close>

record blob_env = suite +
  be_fails :: "string \<Rightarrow> bool"
  be_expired :: "timestamp \<Rightarrow> bool"
  be_within :: "int \<Rightarrow> timestamp \<Rightarrow> bool"
  be_now :: timestamp
  be_upload_bytes :: string
  be_dek :: string
  be_wrap_nonce :: "string \<Rightarrow> string"
  be_stream_nonce :: string
  be_kek :: string
  be_kek_id :: string
  be_pty_recording_days :: int
  be_context_retention :: "(string \<times> int) list"

record blob_row =
  bl_media_type :: string
  bl_byte_size :: int
  bl_kek_id :: string
  bl_wrap_nonce :: "string option"
  bl_wrapped_dek :: "string option"
  bl_created_at :: timestamp
  bl_tombstoned_at :: "timestamp option"

record upload_row =
  up_media_type :: string
  up_byte_size :: int
  up_written :: int
  up_next_chunk :: int
  up_started_at :: timestamp

record blob_state =
  bs_blob :: "blob_row table"
  bs_pin :: "(string \<times> string) list"
  bs_upload :: "upload_row table"
  bs_container :: "string table"
  bs_staged :: "string table"
  bs_sealing :: "string table"

record blob_descriptor =
  bd_address :: blob_address
  bd_media_type :: string
  bd_byte_size :: u64
  bd_kek_id :: string
  bd_created_at :: timestamp
  bd_pinned :: bool
  bd_tombstoned :: bool

definition chain :: "('e + 'a) \<times> 's \<Rightarrow> ('a \<Rightarrow> 's \<Rightarrow> ('e + 'b) \<times> 's) \<Rightarrow> ('e + 'b) \<times> 's" where
  "chain r f = (case r of (Inl e, st) \<Rightarrow> (Inl e, st) | (Inr x, st) \<Rightarrow> f x st)"

lemma chain_simps [simp]: "chain (Inl e, st) f = (Inl e, st)" "chain (Inr x, st) f = f x st"
  by (simp_all add: chain_def)

lemma chain_Inr [result_simps]:
  "chain r f = (Inr y, st') \<longleftrightarrow> (\<exists>x st. r = (Inr x, st) \<and> f x st = (Inr y, st'))"
  by (cases r; cases "fst r") (auto simp: chain_def)

definition io :: "'m blob_env_scheme \<Rightarrow> string \<Rightarrow> blob_error + unit" where
  "io env context = guard_that (\<not> be_fails env context) Blob_Storage"

lemma io_Inr [result_simps]: "io env c = Inr u \<longleftrightarrow> \<not> be_fails env c"
  by (simp add: io_def result_simps)

definition unlink :: "'m blob_env_scheme \<Rightarrow> string \<Rightarrow> string \<Rightarrow> string table \<Rightarrow> string table" where
  "unlink env context i files = (if be_fails env context then files else AList.delete i files)"

section \<open>Uploads\<close>

definition UPLOAD_ID_HEX_LEN :: nat where "UPLOAD_ID_HEX_LEN = 32"

definition is_upload_id :: "string \<Rightarrow> bool" where
  "is_upload_id v \<longleftrightarrow> length v = UPLOAD_ID_HEX_LEN \<and> list_all is_lower_hex v"

definition discard_upload_files :: "'m blob_env_scheme \<Rightarrow> string \<Rightarrow> blob_state \<Rightarrow> blob_state" where
  "discard_upload_files env i st =
     st\<lparr>bs_staged := unlink env ''remove upload'' i (bs_staged st),
        bs_sealing := unlink env ''remove staging'' i (bs_sealing st)\<rparr>"

definition expire_uploads :: "'m blob_env_scheme \<Rightarrow> blob_state \<Rightarrow> (blob_error + unit) \<times> blob_state" where
  "expire_uploads env st =
     chain (io env ''expire uploads'', st) (\<lambda>_ st.
       let stale = map fst (filter (\<lambda>(_, u). be_expired env (up_started_at u)) (bs_upload st));
           kept = filter (\<lambda>(_, u). \<not> be_expired env (up_started_at u)) (bs_upload st) in
       (Inr (), foldl (\<lambda>s i. discard_upload_files env i s) (st\<lparr>bs_upload := kept\<rparr>) stale))"

definition blob_begin ::
  "'m blob_env_scheme \<Rightarrow> string \<Rightarrow> u64 \<Rightarrow> blob_state \<Rightarrow> (blob_error + string) \<times> blob_state" where
  "blob_begin env media_type byte_size st =
     chain (guard_that (media_type \<noteq> [] \<and> length media_type \<le> 65535) Blob_Integrity, st) (\<lambda>_ st.
     chain (guard_that (unat byte_size < 2 ^ 63) Blob_Integrity, st) (\<lambda>_ st.
     chain (expire_uploads env st) (\<lambda>_ st.
     chain (io env ''random'', st) (\<lambda>_ st.
     let i = hex_lower (be_upload_bytes env) in
     chain (and_then (io env ''begin upload'') (\<lambda>_.
              guard_that (map_of (bs_upload st) i = None) Blob_Storage), st) (\<lambda>_ st.
     let st1 = st\<lparr>bs_upload := AList.update i \<lparr>up_media_type = media_type,
           up_byte_size = int (unat byte_size), up_written = 0, up_next_chunk = 0,
           up_started_at = be_now env\<rparr> (bs_upload st)\<rparr> in
     chain (io env ''create staging file'', st1) (\<lambda>_ st.
       (Inr i, st\<lparr>bs_staged := AList.update i [] (bs_staged st)\<rparr>)))))))"

definition open_upload :: "'m blob_env_scheme \<Rightarrow> string \<Rightarrow> blob_state \<Rightarrow> blob_error + upload_row" where
  "open_upload env i st =
     and_then (guard_that (is_upload_id i) Blob_NotFound) (\<lambda>_.
     and_then (io env ''read upload'') (\<lambda>_.
     and_then (ok_or Blob_NotFound (map_of (bs_upload st) i)) (\<lambda>u.
     and_then (guard_that (\<not> be_expired env (up_started_at u)) Blob_NotFound) (\<lambda>_. Inr u))))"

definition write_at :: "nat \<Rightarrow> string \<Rightarrow> string \<Rightarrow> string" where
  "write_at offset data file =
     take offset (file @ replicate (offset - length file) (byte 0)) @ data @ drop (offset + length data) file"

definition write_chunk ::
  "'m blob_env_scheme \<Rightarrow> string \<Rightarrow> u32 \<Rightarrow> string \<Rightarrow> blob_state \<Rightarrow> (blob_error + unit) \<times> blob_state" where
  "write_chunk env i sequence chunk st =
     chain (open_upload env i st, st) (\<lambda>u st.
     let after = up_written u + int (length chunk) in
     chain (guard_that (int (unat sequence) = up_next_chunk u) Blob_Integrity, st) (\<lambda>_ st.
     chain (guard_that (int (length chunk) < 2 ^ 63 \<and> after < 2 ^ 63) Blob_Integrity, st) (\<lambda>_ st.
     chain (guard_that (after \<le> up_byte_size u) Blob_Integrity, st) (\<lambda>_ st.
     chain (and_then (io env ''open upload'') (\<lambda>_. ok_or Blob_Storage (map_of (bs_staged st) i)), st) (\<lambda>file st.
     chain (io env ''write chunk'', st) (\<lambda>_ st.
     let st1 = st\<lparr>bs_staged := AList.update i (write_at (nat (up_written u)) chunk file) (bs_staged st)\<rparr> in
     chain (io env ''record chunk'', st1) (\<lambda>_ st.
       (Inr (), st\<lparr>bs_upload := AList.update i (u\<lparr>up_written := after,
           up_next_chunk := up_next_chunk u + 1\<rparr>) (bs_upload st)\<rparr>))))))))"

definition abort_upload :: "'m blob_env_scheme \<Rightarrow> string \<Rightarrow> blob_state \<Rightarrow> (blob_error + unit) \<times> blob_state" where
  "abort_upload env i st =
     chain (guard_that (is_upload_id i) Blob_NotFound, st) (\<lambda>_ st.
     chain (io env ''abort upload'', st) (\<lambda>_ st.
     let st1 = discard_upload_files env i (st\<lparr>bs_upload := AList.delete i (bs_upload st)\<rparr>) in
     (guard_that (map_of (bs_upload st) i \<noteq> None) Blob_NotFound, st1)))"

section \<open>Committed blobs\<close>

definition pinned_blob :: "blob_state \<Rightarrow> string \<Rightarrow> bool" where
  "pinned_blob st digest \<longleftrightarrow> list_ex (\<lambda>(d, _). d = digest) (bs_pin st)"

definition describe :: "blob_state \<Rightarrow> string \<Rightarrow> blob_row \<Rightarrow> blob_error + blob_descriptor" where
  "describe st digest r =
     and_then (map_sum (\<lambda>_. Blob_Storage) id (blob_address_from_digest digest)) (\<lambda>address.
     and_then (guard_that (0 \<le> bl_byte_size r) Blob_Storage) (\<lambda>_.
     Inr \<lparr>bd_address = address, bd_media_type = bl_media_type r,
          bd_byte_size = of_int (bl_byte_size r), bd_kek_id = bl_kek_id r,
          bd_created_at = bl_created_at r, bd_pinned = pinned_blob st digest,
          bd_tombstoned = (bl_tombstoned_at r \<noteq> None)\<rparr>))"

definition read_row ::
  "'m blob_env_scheme \<Rightarrow> string \<Rightarrow> blob_state \<Rightarrow> blob_error + (blob_descriptor \<times> blob_row) option" where
  "read_row env digest st =
     and_then (io env ''read blob row'') (\<lambda>_.
     case map_of (bs_blob st) digest of
       None \<Rightarrow> Inr None
     | Some r \<Rightarrow> and_then (describe st digest r) (\<lambda>d. Inr (Some (d, r))))"

definition readable ::
  "'m blob_env_scheme \<Rightarrow> blob_address \<Rightarrow> blob_state \<Rightarrow> blob_error + blob_descriptor \<times> blob_row" where
  "readable env address st =
     and_then (read_row env (digest_hex address) st) (\<lambda>found.
     and_then (ok_or Blob_NotFound found) (\<lambda>(d, r).
     and_then (guard_that (\<not> bd_tombstoned d) Blob_Tombstoned) (\<lambda>_. Inr (d, r))))"

definition key_material :: "blob_row \<Rightarrow> blob_error + string \<times> string" where
  "key_material r =
     (case (bl_wrap_nonce r, bl_wrapped_dek r) of
        (Some nonce, Some wrapped) \<Rightarrow>
          and_then (guard_that (length nonce = WRAP_NONCE_BYTES) Blob_Integrity) (\<lambda>_.
          and_then (guard_that (length wrapped = WRAPPED_DEK_BYTES) Blob_Integrity) (\<lambda>_.
          Inr (nonce, wrapped)))
      | _ \<Rightarrow> Inl Blob_Tombstoned)"

definition read_exact :: "string \<Rightarrow> nat \<Rightarrow> nat \<Rightarrow> blob_error + string" where
  "read_exact file at n = (if at + n \<le> length file then Inr (slice_of at (at + n) file) else Inl Blob_Integrity)"

definition open_container ::
  "'m blob_env_scheme \<Rightarrow> blob_descriptor \<Rightarrow> blob_state \<Rightarrow> blob_error + string \<times> header \<times> string" where
  "open_container env d st =
     and_then (and_then (io env ''open container'') (\<lambda>_.
        ok_or Blob_Storage (map_of (bs_container st) (digest_hex (bd_address d))))) (\<lambda>file.
     let expected = header_len (bd_media_type d) (bd_kek_id d) in
     and_then (read_exact file 0 expected) (\<lambda>head.
     and_then (header_decode head) (\<lambda>(h, actual).
     and_then (guard_that (actual = expected) Blob_Integrity) (\<lambda>_. Inr (file, h, head)))))"

fun read_range ::
  "'m suite_scheme \<Rightarrow> string \<Rightarrow> string \<Rightarrow> string \<Rightarrow> string \<Rightarrow> nat \<Rightarrow> nat list \<Rightarrow> blob_error + string" where
  "read_range S file aad dek nonce final [] = Inr []"
| "read_range S file aad dek nonce final (i # is) =
     (let at = chunk_offset (length aad) i in
      and_then (read_exact file at CHUNK_LEN_BYTES) (\<lambda>prefix.
      let n = from_be_bytes prefix in
      and_then (guard_that (n \<le> MAX_CIPHERTEXT_CHUNK_BYTES) Blob_Integrity) (\<lambda>_.
      and_then (read_exact file (at + CHUNK_LEN_BYTES) n) (\<lambda>body.
      and_then (guard_that (i < 2 ^ 32) Blob_Integrity) (\<lambda>_.
      and_then (open_chunk S aad dek nonce i (i = final) body) (\<lambda>part.
      and_then (read_range S file aad dek nonce final is) (\<lambda>rest. Inr (part @ rest))))))))"

definition blob_read ::
  "'m blob_env_scheme \<Rightarrow> blob_address \<Rightarrow> u64 \<Rightarrow> u64 \<Rightarrow> blob_state \<Rightarrow> blob_error + string" where
  "blob_read env address offset wanted st =
     and_then (readable env address st) (\<lambda>(d, r).
     and_then (key_material r) (\<lambda>(wrap_nonce, wrapped_dek).
     let size = unat (bd_byte_size d); start = unat offset;
         n = min (min (unat wanted) BLOB_CHUNK_BYTES) (size - start) in
     if size \<le> start \<or> n = 0 then Inr []
     else
       and_then (open_container env d st) (\<lambda>(file, h, aad).
       and_then (guard_that (unat (hd_byte_size h) = size) Blob_Integrity) (\<lambda>_.
       and_then (unwrap_dek env wrapped_dek (be_kek env) wrap_nonce aad) (\<lambda>dek.
       let first = start div BLOB_CHUNK_BYTES; final = chunk_count size - 1;
           stop = (start + n - 1) div BLOB_CHUNK_BYTES; skip = start - first * BLOB_CHUNK_BYTES in
       and_then (read_range env file aad dek (hd_stream_nonce h) final [first..<Suc stop]) (\<lambda>plaintext.
       and_then (guard_that (skip + n \<le> length plaintext) Blob_Integrity) (\<lambda>_.
       Inr (slice_of skip (skip + n) plaintext))))))))"

definition blob_stat ::
  "'m blob_env_scheme \<Rightarrow> blob_address \<Rightarrow> blob_state \<Rightarrow> blob_error + blob_descriptor option" where
  "blob_stat env address st =
     and_then (read_row env (digest_hex address) st) (\<lambda>found.
     case found of
       None \<Rightarrow> Inr None
     | Some (d, _) \<Rightarrow> if bd_tombstoned d then Inl Blob_Tombstoned else Inr (Some d))"

section \<open>Commit\<close>

text \<open>
  A commit in the steps between which another connection may act: checking the upload against the
  address, publishing the sealed container under its digest, and recording the row.
\<close>

definition staged_plaintext ::
  "'m blob_env_scheme \<Rightarrow> string \<Rightarrow> blob_address \<Rightarrow> blob_state \<Rightarrow> blob_error + upload_row \<times> string \<times> string" where
  "staged_plaintext env i address st =
     and_then (open_upload env i st) (\<lambda>u.
     and_then (guard_that (up_written u = up_byte_size u) Blob_Integrity) (\<lambda>_.
     and_then (and_then (io env ''open staged'') (\<lambda>_. ok_or Blob_Storage (map_of (bs_staged st) i))) (\<lambda>file.
     and_then (map_sum (\<lambda>_. Blob_Storage) id (read_exact file 0 (nat (up_written u)))) (\<lambda>plaintext.
     let digest = hex_lower (su_sha env plaintext) in
     if digest \<noteq> digest_hex address then
       and_then (map_sum (\<lambda>_. Blob_Storage) id (blob_address_from_digest digest)) (\<lambda>actual.
       Inl (Blob_DigestMismatch address actual))
     else Inr (u, plaintext, digest)))))"

definition close_upload :: "'m blob_env_scheme \<Rightarrow> string \<Rightarrow> blob_state \<Rightarrow> (blob_error + unit) \<times> blob_state" where
  "close_upload env i st =
     chain (io env ''close upload'', st) (\<lambda>_ st. (Inr (), st\<lparr>bs_upload := AList.delete i (bs_upload st)\<rparr>))"

definition commit_dedup ::
  "'m blob_env_scheme \<Rightarrow> string \<Rightarrow> string \<Rightarrow> blob_descriptor \<Rightarrow> blob_state
     \<Rightarrow> (blob_error + blob_descriptor \<times> bool) \<times> blob_state" where
  "commit_dedup env i media_type existing st =
     chain (close_upload env i (discard_upload_files env i st)) (\<lambda>_ st.
       (if bd_tombstoned existing then Inl Blob_Tombstoned
        else if bd_media_type existing \<noteq> media_type then Inl Blob_Integrity
        else Inr (existing, True), st))"

definition commit_publish ::
  "'m blob_env_scheme \<Rightarrow> string \<Rightarrow> upload_row \<Rightarrow> string \<Rightarrow> string \<Rightarrow> blob_state
     \<Rightarrow> (blob_error + sealed) \<times> blob_state" where
  "commit_publish env i u plaintext digest st =
     chain (and_then (io env ''random'') (\<lambda>_. seal_with env plaintext (up_media_type u) (be_kek env)
       (be_kek_id env) (be_dek env) (be_wrap_nonce env digest) (be_stream_nonce env)), st) (\<lambda>sl st.
     chain (io env ''write container'', st) (\<lambda>_ st.
     let st1 = st\<lparr>bs_sealing := AList.update i (sl_container sl) (bs_sealing st)\<rparr> in
     chain (io env ''create shard directory'', st1) (\<lambda>_ st.
     chain (io env ''publish container'', st) (\<lambda>_ st.
       (Inr sl, st\<lparr>bs_sealing := AList.delete i (bs_sealing st),
          bs_container := AList.update digest (sl_container sl) (bs_container st)\<rparr>)))))"

definition commit_record ::
  "'m blob_env_scheme \<Rightarrow> string \<Rightarrow> upload_row \<Rightarrow> string \<Rightarrow> sealed \<Rightarrow> blob_state
     \<Rightarrow> (blob_error + blob_descriptor \<times> bool) \<times> blob_state" where
  "commit_record env i u digest sl st =
     chain (io env ''record blob'', st) (\<lambda>_ st.
     let raced = map_of (bs_blob st) digest \<noteq> None;
         st1 = (if raced then st else st\<lparr>bs_blob := AList.update digest
           \<lparr>bl_media_type = up_media_type u, bl_byte_size = up_byte_size u, bl_kek_id = be_kek_id env,
            bl_wrap_nonce = Some (sl_wrap_nonce sl), bl_wrapped_dek = Some (sl_wrapped_dek sl),
            bl_created_at = be_now env, bl_tombstoned_at = None\<rparr> (bs_blob st)\<rparr>) in
     chain (close_upload env i st1) (\<lambda>_ st.
     let st2 = discard_upload_files env i st in
     (and_then (read_row env digest st2) (\<lambda>found.
        and_then (ok_or Blob_NotFound found) (\<lambda>(d, _). Inr (d, raced))), st2)))"

definition blob_commit ::
  "'m blob_env_scheme \<Rightarrow> string \<Rightarrow> blob_address \<Rightarrow> blob_state
     \<Rightarrow> (blob_error + blob_descriptor \<times> bool) \<times> blob_state" where
  "blob_commit env i address st =
     chain (staged_plaintext env i address st, st) (\<lambda>(u, plaintext, digest) st.
     chain (read_row env digest st, st) (\<lambda>found st.
     case found of
       Some (existing, _) \<Rightarrow> commit_dedup env i (up_media_type u) existing st
     | None \<Rightarrow>
         chain (commit_publish env i u plaintext digest st) (\<lambda>sl st. commit_record env i u digest sl st)))"

section \<open>Retention\<close>

definition blob_pin ::
  "'m blob_env_scheme \<Rightarrow> blob_address \<Rightarrow> string \<Rightarrow> blob_state \<Rightarrow> (blob_error + unit) \<times> blob_state" where
  "blob_pin env address evidence st =
     chain (readable env address st, st) (\<lambda>_ st.
     chain (io env ''pin blob'', st) (\<lambda>_ st.
       (Inr (), st\<lparr>bs_pin := List.insert (digest_hex address, evidence) (bs_pin st)\<rparr>)))"

definition blob_unpin ::
  "'m blob_env_scheme \<Rightarrow> blob_address \<Rightarrow> string \<Rightarrow> blob_state \<Rightarrow> (blob_error + unit) \<times> blob_state" where
  "blob_unpin env address evidence st =
     chain (read_row env (digest_hex address) st, st) (\<lambda>found st.
     chain (guard_that (found \<noteq> None) Blob_NotFound, st) (\<lambda>_ st.
     chain (io env ''unpin blob'', st) (\<lambda>_ st.
       (Inr (), st\<lparr>bs_pin := removeAll (digest_hex address, evidence) (bs_pin st)\<rparr>))))"

record checkpoint =
  cp_schema_version :: u32
  cp_through_sequence :: u64
  cp_projection_hash :: string
  cp_records_ref :: payload_ref
  cp_created_at :: timestamp

record context_blob_row =
  cb_digest :: string
  cb_retention_class :: string
  cb_created_at :: timestamp

text \<open>What may still refer to a blob, apart from its pins: the rows the sweep's query reads.\<close>

record blob_holders =
  ho_events :: "json event_envelope list"
  ho_checkpoints :: "checkpoint list"
  ho_evidence :: "evidence_row table"
  ho_context :: "context_blob_row list"

definition held_by_event :: "blob_holders \<Rightarrow> string \<Rightarrow> bool" where
  "held_by_event hs address \<longleftrightarrow>
     list_ex (\<lambda>e. case payload_ref e of None \<Rightarrow> False | Some p \<Rightarrow> ref_digest p = address) (ho_events hs)"

definition held_by_checkpoint :: "blob_holders \<Rightarrow> string \<Rightarrow> bool" where
  "held_by_checkpoint hs address \<longleftrightarrow>
     list_ex (\<lambda>c. ref_digest (cp_records_ref c) = address) (ho_checkpoints hs)"

definition held_by_evidence :: "'m blob_env_scheme \<Rightarrow> blob_holders \<Rightarrow> string \<Rightarrow> bool" where
  "held_by_evidence env hs address \<longleftrightarrow>
     list_ex (\<lambda>(_, e). ev_ref e = address
         \<and> (ev_kind e \<noteq> ''pty_recording'' \<or> be_within env (be_pty_recording_days env) (ev_created_at e))
         \<and> \<not> list_ex (\<lambda>c. cb_digest c = ev_ref e) (ho_context hs))
       (ho_evidence hs)"

definition held_by_class :: "'m blob_env_scheme \<Rightarrow> blob_holders \<Rightarrow> string \<Rightarrow> bool" where
  "held_by_class env hs address \<longleftrightarrow>
     list_ex (\<lambda>c. cb_digest c = address
         \<and> (let windows = filter (\<lambda>(class, _). class = cb_retention_class c) (be_context_retention env) in
            windows = [] \<or> list_ex (\<lambda>(_, days). be_within env days (cb_created_at c)) windows))
       (ho_context hs)"

definition unreferenced :: "'m blob_env_scheme \<Rightarrow> blob_holders \<Rightarrow> blob_state \<Rightarrow> string \<times> blob_row \<Rightarrow> bool" where
  "unreferenced env hs st b \<longleftrightarrow>
     (let address = BLOB_ADDRESS_SCHEME @ fst b in
      bl_tombstoned_at (snd b) = None \<and> \<not> pinned_blob st (fst b) \<and> \<not> held_by_event hs address
      \<and> \<not> held_by_checkpoint hs address \<and> \<not> held_by_evidence env hs address
      \<and> \<not> held_by_class env hs address)"

text \<open>A sweep deletes the rows, and only then removes the files: another connection may act in between.\<close>

definition sweep_rows ::
  "'m blob_env_scheme \<Rightarrow> blob_holders \<Rightarrow> blob_state \<Rightarrow> (blob_error + string list) \<times> blob_state" where
  "sweep_rows env hs st =
     chain (expire_uploads env st) (\<lambda>_ st.
     chain (io env ''sweep blobs'', st) (\<lambda>_ st.
     let swept = map fst (filter (unreferenced env hs st) (bs_blob st)) in
     (Inr swept, st\<lparr>bs_blob := filter (\<lambda>b. \<not> unreferenced env hs st b) (bs_blob st),
        bs_pin := filter (\<lambda>(d, _). d \<notin> set swept) (bs_pin st)\<rparr>)))"

fun sweep_files :: "'m blob_env_scheme \<Rightarrow> string list \<Rightarrow> blob_state \<Rightarrow> (blob_error + blob_address list) \<times> blob_state" where
  "sweep_files env [] st = (Inr [], st)"
| "sweep_files env (digest # ds) st =
     (let st1 = st\<lparr>bs_container := unlink env ''remove container'' digest (bs_container st)\<rparr> in
      chain (map_sum (\<lambda>_. Blob_Storage) id (blob_address_from_digest digest), st1) (\<lambda>address st.
      chain (sweep_files env ds st) (\<lambda>rest st. (Inr (address # rest), st))))"

definition blob_sweep ::
  "'m blob_env_scheme \<Rightarrow> blob_holders \<Rightarrow> blob_state \<Rightarrow> (blob_error + blob_address list) \<times> blob_state" where
  "blob_sweep env hs st = chain (sweep_rows env hs st) (\<lambda>swept st. sweep_files env swept st)"

definition blob_shred ::
  "'m blob_env_scheme \<Rightarrow> blob_address \<Rightarrow> blob_state \<Rightarrow> (blob_error + unit) \<times> blob_state" where
  "blob_shred env address st =
     (let digest = digest_hex address in
      chain (read_row env digest st, st) (\<lambda>found st.
      chain (ok_or Blob_NotFound found, st) (\<lambda>(d, r) st.
      if bd_tombstoned d then (Inr (), st)
      else if bd_pinned d then (Inl Blob_Pinned, st)
      else
        chain (io env ''shred blob'', st) (\<lambda>_ st.
          (Inr (), st\<lparr>bs_blob := AList.update digest (r\<lparr>bl_wrap_nonce := None, bl_wrapped_dek := None,
               bl_tombstoned_at := Some (be_now env)\<rparr>) (bs_blob st),
             bs_container := unlink env ''remove container'' digest (bs_container st)\<rparr>)))))"

section \<open>Key rotation\<close>

definition rewrap_one ::
  "'m blob_env_scheme \<Rightarrow> string \<Rightarrow> blob_address \<Rightarrow> blob_state \<Rightarrow> (blob_error + bool) \<times> blob_state" where
  "rewrap_one env new_kek address st =
     chain (and_then (readable env address st) (\<lambda>(d, r).
            and_then (key_material r) (\<lambda>(nonce, wrapped).
            and_then (open_container env d st) (\<lambda>(_, _, head).
            and_then (io env ''random'') (\<lambda>_. Inr (r, nonce, wrapped, head))))), st) (\<lambda>(r, nonce, wrapped, head) st.
     let new_nonce = be_wrap_nonce env (digest_hex address) in
     case rewrap env head (be_kek env) new_kek nonce wrapped new_nonce of
       Inr new_wrapped \<Rightarrow>
         chain (io env ''store rewrapped key'', st) (\<lambda>_ st.
           (Inr True, st\<lparr>bs_blob := AList.update (digest_hex address)
              (r\<lparr>bl_wrap_nonce := Some new_nonce, bl_wrapped_dek := Some new_wrapped\<rparr>) (bs_blob st)\<rparr>))
     | Inl refused \<Rightarrow>
         (case unwrap_dek env wrapped new_kek nonce head of
            Inl _ \<Rightarrow> (Inl refused, st)
          | Inr _ \<Rightarrow> (Inr False, st)))"

fun rewrap_each ::
  "'m blob_env_scheme \<Rightarrow> string \<Rightarrow> string list \<Rightarrow> nat \<times> nat \<Rightarrow> blob_state
     \<Rightarrow> (blob_error + nat \<times> nat) \<times> blob_state" where
  "rewrap_each env new_kek [] report st = (Inr report, st)"
| "rewrap_each env new_kek (digest # ds) (moved, already) st =
     chain (map_sum (\<lambda>_. Blob_Storage) id (blob_address_from_digest digest), st) (\<lambda>address st.
     chain (rewrap_one env new_kek address st) (\<lambda>done st.
       rewrap_each env new_kek ds (if done then (Suc moved, already) else (moved, Suc already)) st))"

definition rewrap_all ::
  "'m blob_env_scheme \<Rightarrow> string \<Rightarrow> blob_state \<Rightarrow> (blob_error + nat \<times> nat) \<times> blob_state" where
  "rewrap_all env new_kek st =
     chain (io env ''list blobs to rewrap'', st) (\<lambda>_ st.
       rewrap_each env new_kek (sort (map fst (filter (\<lambda>(_, r). bl_kek_id r = be_kek_id env
         \<and> bl_tombstoned_at r = None) (bs_blob st)))) (0, 0) st)"

end
