(* ===== verification/Gw_Range.thy ===== *)
theory Gw_Range
  imports Gw_Blob
begin

text \<open>
  Reading a range of a blob touches only the chunks it covers: every chunk but the last has one
  width on disk, so its offset is computed, and what comes back is the range of the plaintext.
\<close>

section \<open>Where a chunk lies\<close>

lemma length_sealed_chunks: "length (sealed_chunks p) = chunk_count (length p)"
proof (cases "p = []")
  case False
  then have "1 \<le> (length p + BLOB_CHUNK_BYTES - 1) div BLOB_CHUNK_BYTES"
    by (cases p) (simp_all add: less_eq_div_iff_mult_less_eq BLOB_CHUNK_BYTES_def)
  with False show ?thesis
    by (simp add: sealed_chunks_def Let_def chunk_count_def length_chunks chunks_eq_Nil BLOB_CHUNK_BYTES_def)
qed (simp add: sealed_chunks_def chunk_count_def BLOB_CHUNK_BYTES_def)

lemma sealed_chunks_nth:
  "i < chunk_count (length p) \<Longrightarrow> sealed_chunks p ! i = take BLOB_CHUNK_BYTES (drop (i * BLOB_CHUNK_BYTES) p)"
  using chunks_nth [of i BLOB_CHUNK_BYTES p] length_sealed_chunks [of p] chunks_eq_Nil [of BLOB_CHUNK_BYTES p]
  by (cases "p = []") (simp_all add: sealed_chunks_def Let_def BLOB_CHUNK_BYTES_def chunk_count_def)

lemma full_chunk:
  assumes "Suc i < chunk_count (length p)" shows "length (sealed_chunks p ! i) = BLOB_CHUNK_BYTES"
proof -
  have "(Suc i) * BLOB_CHUNK_BYTES \<le> length p"
  proof -
    from assms have "Suc (Suc i) \<le> (length p + BLOB_CHUNK_BYTES - 1) div BLOB_CHUNK_BYTES"
      by (simp add: chunk_count_def)
    then have "Suc (Suc i) * BLOB_CHUNK_BYTES \<le> length p + BLOB_CHUNK_BYTES - 1"
      by (simp only: less_eq_div_iff_mult_less_eq BLOB_CHUNK_BYTES_def)
    then show ?thesis by simp
  qed
  then show ?thesis using assms by (simp add: sealed_chunks_nth)
qed

lemma framed_append: "framed (xs @ ys) = framed xs @ framed ys"
  by (simp add: framed_def)

lemma length_framed:
  "(\<And>i. i < length fs \<Longrightarrow> length (fs ! i) = n) \<Longrightarrow> length (framed fs) = length fs * (CHUNK_LEN_BYTES + n)"
proof (induction fs)
  case (Cons f fs)
  from Cons.prems [of 0] Cons.prems [of "Suc _"] Cons.IH show ?case by simp
qed simp

lemma read_exact_mid:
  "at = length pre \<Longrightarrow> n = length mid \<Longrightarrow> read_exact (pre @ mid @ post) at n = Inr mid"
  by (simp add: read_exact_def slice_of_def)

lemma seal_stream_count:
  "seal_stream S aad dek nonce pos cs = Inr body \<Longrightarrow> pos < 2 ^ 32 \<Longrightarrow> pos + length cs \<le> 2 ^ 32"
proof (induction cs arbitrary: pos body rule: induct_list012)
  case (3 c d cs)
  then obtain rest where "pos \<noteq> COUNTER_MAX" and r: "seal_stream S aad dek nonce (Suc pos) (d # cs) = Inr rest"
    by (auto simp: result_simps)
  with 3 have "Suc pos < 2 ^ 32" by (simp add: COUNTER_MAX_def)
  from "3.IH"(2) [OF r this] show ?case by simp
qed simp_all

lemma read_range_chunks:
  assumes S: "suite_ok S" and seal: "seal_stream S aad dek nonce 0 (sealed_chunks p) = Inr body"
    and "b \<le> chunk_count (length p)"
  shows "read_range S (aad @ body) aad dek nonce (chunk_count (length p) - 1) [a..<b]
    = Inr (concat (map ((!) (sealed_chunks p)) [a..<b]))"
proof -
  let ?m = "chunk_count (length p)" and ?cs = "sealed_chunks p"
  from seal_stream_chunks [OF S seal] obtain fs where fs: "body = framed fs"
      "list_all (\<lambda>c. length c < 2 ^ 32) fs" "length fs = ?m"
    and nth: "\<And>i. i < ?m \<Longrightarrow> length (fs ! i) = length (?cs ! i) + TAG_BYTES
       \<and> open_chunk S aad dek nonce i (i = ?m - 1) (fs ! i) = Inr (?cs ! i)"
    by (auto simp: length_sealed_chunks)
  have count: "?m \<le> 2 ^ 32" using seal_stream_count [OF seal] by (simp add: length_sealed_chunks)
  have step: "read_range S (aad @ body) aad dek nonce (?m - 1) (i # is)
      = and_then (read_range S (aad @ body) aad dek nonce (?m - 1) is) (\<lambda>rest. Inr (?cs ! i @ rest))"
    if i: "i < ?m" for i "is"
  proof -
    let ?pre = "aad @ framed (take i fs)" and ?len = "to_be_bytes CHUNK_LEN_BYTES (length (fs ! i))"
    have "fs = take i fs @ fs ! i # drop (Suc i) fs" using i fs(3) by (simp add: id_take_nth_drop)
    then have "framed fs = framed (take i fs) @ ?len @ fs ! i @ framed (drop (Suc i) fs)"
      by (metis framed_append framed_simps(2))
    then have fl: "aad @ body = ?pre @ ?len @ fs ! i @ framed (drop (Suc i) fs)" by (simp add: fs(1))
    have "length (fs ! j) = MAX_CIPHERTEXT_CHUNK_BYTES" if "j < i" for j
      using nth [of j] full_chunk [of j p] that i by (simp add: MAX_CIPHERTEXT_CHUNK_BYTES_def)
    then have at: "chunk_offset (length aad) i = length ?pre"
      using i fs(3) by (subst length_append, subst length_framed [where n = MAX_CIPHERTEXT_CHUNK_BYTES])
        (simp_all add: chunk_offset_def FRAMED_CHUNK_BYTES_def)
    have "length (fs ! i) < 256 ^ CHUNK_LEN_BYTES"
      using fs(2,3) i by (simp add: list_all_length CHUNK_LEN_BYTES_def)
    then have n: "from_be_bytes ?len = length (fs ! i)" by (rule from_to_be_bytes)
    have small: "length (fs ! i) \<le> MAX_CIPHERTEXT_CHUNK_BYTES"
      using nth [OF i] sealed_chunks_nth [OF i] by (simp add: MAX_CIPHERTEXT_CHUNK_BYTES_def)
    have r1: "read_exact (aad @ body) (length ?pre) CHUNK_LEN_BYTES = Inr ?len"
      by (subst fl, rule read_exact_mid) simp_all
    have r2: "read_exact (aad @ body) (length ?pre + CHUNK_LEN_BYTES) (length (fs ! i)) = Inr (fs ! i)"
      using read_exact_mid [of _ "?pre @ ?len" "length (fs ! i)" "fs ! i" "framed (drop (Suc i) fs)"]
      by (subst fl) (simp add: add.assoc)
    from r1 r2 small n nth [OF i] i count show ?thesis
      by (simp only: read_range.simps at Let_def and_then_simps guard_that_simps) simp
  qed
  have "read_range S (aad @ body) aad dek nonce (?m - 1) is = Inr (concat (map ((!) ?cs) is))"
    if "\<forall>i \<in> set is. i < ?m" for "is"
    using that by (induction "is") (simp_all add: step [unfolded One_nat_def] del: read_range.simps(2))
  then show ?thesis using assms(3) by simp
qed

lemma concat_chunks_slice:
  "b \<le> chunk_count (length p) \<Longrightarrow> a \<le> b \<Longrightarrow>
     concat (map ((!) (sealed_chunks p)) [a..<b]) = slice_of (a * BLOB_CHUNK_BYTES) (b * BLOB_CHUNK_BYTES) p"
proof (induction "b - a" arbitrary: b)
  case (Suc n)
  then obtain c where b: "b = Suc c" "a \<le> c" by (cases b) auto
  with Suc have "concat (map ((!) (sealed_chunks p)) [a..<c]) = slice_of (a * BLOB_CHUNK_BYTES) (c * BLOB_CHUNK_BYTES) p"
    by simp
  moreover have "sealed_chunks p ! c = slice_of (c * BLOB_CHUNK_BYTES) (Suc c * BLOB_CHUNK_BYTES) p"
    using Suc b by (simp add: sealed_chunks_nth slice_of_def)
  ultimately show ?case using b by (simp add: slice_slice)
qed (simp add: slice_of_def)

section \<open>A stored blob\<close>

text \<open>\<open>stored_as\<close>: the file and the key columns of a live row hold the plaintext \<open>p\<close>, sealed under \<open>kek\<close>.\<close>

definition stored_as :: "'m suite_scheme \<Rightarrow> string \<Rightarrow> string \<Rightarrow> blob_row \<Rightarrow> string \<Rightarrow> bool" where
  "stored_as S kek file r p \<longleftrightarrow> (\<exists>dek wrap_nonce nonce sl.
     seal_with S p (bl_media_type r) kek (bl_kek_id r) dek wrap_nonce nonce = Inr sl
     \<and> seal_args_ok p (bl_media_type r) (bl_kek_id r) nonce \<and> length wrap_nonce = WRAP_NONCE_BYTES
     \<and> file = sl_container sl \<and> bl_wrap_nonce r = Some wrap_nonce \<and> bl_wrapped_dek r = Some (sl_wrapped_dek sl)
     \<and> bl_byte_size r = int (length p) \<and> length p < 2 ^ 63)"

definition blob_window :: "nat \<Rightarrow> nat \<Rightarrow> string \<Rightarrow> string" where
  "blob_window offset wanted p = take (min wanted BLOB_CHUNK_BYTES) (drop offset p)"

lemma stored_key_material:
  assumes "suite_ok S" and "stored_as S kek file r p"
  obtains dek wrap_nonce nonce body wrapped where "key_material r = Inr (wrap_nonce, wrapped)"
    and "header_ok (header_of S p (bl_media_type r) (bl_kek_id r) nonce)"
    and "file = header_encode (header_of S p (bl_media_type r) (bl_kek_id r) nonce) @ body"
    and "unwrap_dek S wrapped kek wrap_nonce (header_encode (header_of S p (bl_media_type r) (bl_kek_id r) nonce)) = Inr dek"
    and "seal_stream S (header_encode (header_of S p (bl_media_type r) (bl_kek_id r) nonce)) dek nonce 0 (sealed_chunks p) = Inr body"
proof -
  from assms(2) obtain dek wn nonce sl
    where sl: "seal_with S p (bl_media_type r) kek (bl_kek_id r) dek wn nonce = Inr sl"
      "seal_args_ok p (bl_media_type r) (bl_kek_id r) nonce"
    and r: "length wn = WRAP_NONCE_BYTES" "file = sl_container sl" "bl_wrap_nonce r = Some wn"
      "bl_wrapped_dek r = Some (sl_wrapped_dek sl)" unfolding stored_as_def by blast
  from seal_with_parts [OF assms(1) sl(2,1)] obtain body where
      h: "header_ok (header_of S p (bl_media_type r) (bl_kek_id r) nonce)"
      "sl_container sl = header_encode (header_of S p (bl_media_type r) (bl_kek_id r) nonce) @ body"
    and w: "wrap_dek S dek kek wn (header_encode (header_of S p (bl_media_type r) (bl_kek_id r) nonce))
        = Inr (sl_wrapped_dek sl)"
    and b: "seal_stream S (header_encode (header_of S p (bl_media_type r) (bl_kek_id r) nonce)) dek nonce 0
        (sealed_chunks p) = Inr body" by blast
  from w have "length (sl_wrapped_dek sl) = WRAPPED_DEK_BYTES" by (auto simp: wrap_dek_def result_simps)
  with r have k: "key_material r = Inr (wn, sl_wrapped_dek sl)" by (simp add: key_material_def)
  have "file = header_encode (header_of S p (bl_media_type r) (bl_kek_id r) nonce) @ body" using r h by simp
  from that [OF k h(1) this unwrap_wrap [OF assms(1) w] b] show thesis .
qed

lemma chunk_range:
  assumes "start < len" and "0 < n" and "n \<le> len - start"
  shows "Suc ((start + n - 1) div BLOB_CHUNK_BYTES) \<le> chunk_count len"
    and "start div BLOB_CHUNK_BYTES \<le> (start + n - 1) div BLOB_CHUNK_BYTES"
proof -
  have "start + n - 1 + BLOB_CHUNK_BYTES \<le> len + BLOB_CHUNK_BYTES - 1" using assms by simp
  then have "(start + n - 1 + BLOB_CHUNK_BYTES) div BLOB_CHUNK_BYTES \<le> (len + BLOB_CHUNK_BYTES - 1) div BLOB_CHUNK_BYTES"
    by (rule div_le_mono)
  then show "Suc ((start + n - 1) div BLOB_CHUNK_BYTES) \<le> chunk_count len"
    by (simp add: chunk_count_def BLOB_CHUNK_BYTES_def)
  show "start div BLOB_CHUNK_BYTES \<le> (start + n - 1) div BLOB_CHUNK_BYTES"
    using assms by (intro div_le_mono) simp
qed

lemma slice_of_slice: "a \<le> c \<Longrightarrow> d \<le> b \<Longrightarrow> slice_of (c - a) (d - a) (slice_of a b xs) = slice_of c d xs"
  by (simp add: slice_of_def drop_take min_def)

lemma window_of_chunks:
  fixes start n :: nat and p :: string
  defines "first \<equiv> start div BLOB_CHUNK_BYTES" and "final \<equiv> (start + n - 1) div BLOB_CHUNK_BYTES"
  assumes r: "start < length p" "0 < n" "n \<le> length p - start"
  defines "part \<equiv> slice_of (first * BLOB_CHUNK_BYTES) (Suc final * BLOB_CHUNK_BYTES) p"
    and "skip \<equiv> start - first * BLOB_CHUNK_BYTES"
  shows "skip + n \<le> length part" and "slice_of skip (skip + n) part = slice_of start (start + n) p"
proof -
  have a: "first * BLOB_CHUNK_BYTES \<le> start" by (simp add: first_def)
  have "start + n - 1 < BLOB_CHUNK_BYTES + final * BLOB_CHUNK_BYTES"
    unfolding final_def by (rule dividend_less_div_times) (simp add: BLOB_CHUNK_BYTES_def)
  then have b: "start + n \<le> Suc final * BLOB_CHUNK_BYTES" by simp
  have len: "length part = min (Suc final * BLOB_CHUNK_BYTES) (length p) - first * BLOB_CHUNK_BYTES"
    by (simp add: part_def slice_of_def)
  show "skip + n \<le> length part" using a b r by (simp add: len skip_def)
  have "skip + n = start + n - first * BLOB_CHUNK_BYTES" using a by (simp add: skip_def)
  then show "slice_of skip (skip + n) part = slice_of start (start + n) p"
    using slice_of_slice [OF a b, of p] by (simp add: part_def skip_def)
qed

lemma take_min_length: "take (min n (length xs)) xs = take n xs"
  by (simp add: min_def)

lemma blob_read_window:
  assumes S: "suite_ok env" and row: "map_of (bs_blob st) (digest_hex address) = Some r"
    and live: "bl_tombstoned_at r = None" and hex: "is_sha256_hex (digest_hex address)"
    and fl: "map_of (bs_container st) (digest_hex address) = Some file"
    and stored: "stored_as env (be_kek env) file r p" and calm: "\<And>c. \<not> be_fails env c"
  shows "blob_read env address offset wanted st = Inr (blob_window (unat offset) (unat wanted) p)"
proof -
  let ?d = "\<lparr>bd_address = BlobAddress (BLOB_ADDRESS_SCHEME @ digest_hex address), bd_media_type = bl_media_type r,
    bd_byte_size = of_int (bl_byte_size r), bd_kek_id = bl_kek_id r, bd_created_at = bl_created_at r,
    bd_pinned = pinned_blob st (digest_hex address), bd_tombstoned = False\<rparr>"
  from stored have len: "bl_byte_size r = int (length p)" "length p < 2 ^ 63" by (auto simp: stored_as_def)
  then have size: "unat (of_int (bl_byte_size r) :: u64) = length p" by (simp add: unat_of_nat)
  have readable: "readable env address st = Inr (?d, r)"
    using row live hex len calm
    by (simp add: readable_def read_row_def io_def describe_def blob_address_from_digest_def)
  obtain dek wn nonce body wrapped where key: "key_material r = Inr (wn, wrapped)"
    and h: "header_ok (header_of env p (bl_media_type r) (bl_kek_id r) nonce)"
    and bytes: "file = header_encode (header_of env p (bl_media_type r) (bl_kek_id r) nonce) @ body"
    and dek: "unwrap_dek env wrapped (be_kek env) wn (header_encode (header_of env p (bl_media_type r) (bl_kek_id r) nonce)) = Inr dek"
    and seal: "seal_stream env (header_encode (header_of env p (bl_media_type r) (bl_kek_id r) nonce)) dek nonce 0 (sealed_chunks p) = Inr body"
    by (rule stored_key_material [OF S stored])
  let ?h = "header_of env p (bl_media_type r) (bl_kek_id r) nonce"
  have hl: "length (header_encode ?h) = header_len (bl_media_type r) (bl_kek_id r)"
    using length_header_encode [OF h] by (simp add: header_of_def)
  have oc: "open_container env ?d st = Inr (file, ?h, header_encode ?h)"
    using fl calm hl header_roundtrip [OF h, of "[]"]
    by (simp add: open_container_def io_def Let_def bytes read_exact_def slice_of_def header_of_def)
  let ?n = "min (min (unat wanted) BLOB_CHUNK_BYTES) (length p - unat offset)"
  show ?thesis
  proof (cases "length p \<le> unat offset \<or> ?n = 0")
    case True
    then show ?thesis
      using readable key size by (auto simp: blob_read_def Let_def blob_window_def BLOB_CHUNK_BYTES_def)
  next
    case False
    then have r: "unat offset < length p" "0 < ?n" "?n \<le> length p - unat offset" by auto
    let ?first = "unat offset div BLOB_CHUNK_BYTES" and ?final = "(unat offset + ?n - 1) div BLOB_CHUNK_BYTES"
    let ?part = "slice_of (?first * BLOB_CHUNK_BYTES) (Suc ?final * BLOB_CHUNK_BYTES) p"
    let ?skip = "unat offset - ?first * BLOB_CHUNK_BYTES"
    have "read_range env file (header_encode ?h) dek nonce (chunk_count (length p) - 1) [?first..<Suc ?final] = Inr ?part"
      unfolding bytes using chunk_range [OF r]
      by (subst read_range_chunks [OF S seal]) (simp_all add: concat_chunks_slice del: upt_Suc)
    moreover have "hd_stream_nonce ?h = nonce" "unat (hd_byte_size ?h) = length p"
      using size len by (simp_all add: header_of_def)
    ultimately have "blob_read env address offset wanted st = Inr (slice_of ?skip (?skip + ?n) ?part)"
      using False window_of_chunks(1) [OF r] unfolding blob_read_def
      by (simp only: readable key and_then_simps prod.case Let_def size oc dek if_False guard_that_simps
          simp_thms blob_descriptor.simps)
    also have "slice_of ?skip (?skip + ?n) ?part = slice_of (unat offset) (unat offset + ?n) p"
      by (rule window_of_chunks(2) [OF r])
    also have "\<dots> = blob_window (unat offset) (unat wanted) p"
      using take_min_length [of "min (unat wanted) BLOB_CHUNK_BYTES" "drop (unat offset) p"]
      by (simp add: slice_of_def blob_window_def)
    finally show ?thesis .
  qed
qed

end
