(* ===== verification/Gw_Retain.thy ===== *)
theory Gw_Retain
  imports Gw_Range
begin

text \<open>
  What the blob store keeps. \<open>blob_move\<close> lists the changes its operations make to the tables and
  files, one statement or file operation at a time; every operation, wherever it fails, is a sequence
  of them. \<open>blob_ok\<close> is the invariant: a live row has its container, sealed under the store's key,
  and its digest is the hash of the plaintext.
\<close>

section \<open>The invariant\<close>

definition upload_ok :: "upload_row \<Rightarrow> bool" where
  "upload_ok u \<longleftrightarrow> 0 \<le> up_written u \<and> up_written u \<le> up_byte_size u \<and> up_byte_size u < 2 ^ 63
     \<and> is_utf8 (up_media_type u)"

definition uploads_ok :: "blob_state \<Rightarrow> bool" where
  "uploads_ok st \<longleftrightarrow> (\<forall>i u. (i, u) \<in> set (bs_upload st) \<longrightarrow> upload_ok u)"

definition row_ok :: "suite \<Rightarrow> string \<Rightarrow> string option \<Rightarrow> string \<Rightarrow> blob_row \<Rightarrow> bool" where
  "row_ok S kek file digest r \<longleftrightarrow> is_sha256_hex digest \<and> 0 \<le> bl_byte_size r
     \<and> (bl_tombstoned_at r = None \<longrightarrow>
          (\<exists>f p. file = Some f \<and> stored_as S kek f r p \<and> digest = hex_lower (su_sha S p)))"

definition blob_ok :: "suite \<Rightarrow> string \<Rightarrow> blob_state \<Rightarrow> bool" where
  "blob_ok S kek st \<longleftrightarrow> uploads_ok st \<and> distinct (map fst (bs_blob st))
     \<and> (\<forall>digest r. map_of (bs_blob st) digest = Some r \<longrightarrow>
          row_ok S kek (map_of (bs_container st) digest) digest r)"

definition blob_env_ok :: "suite \<Rightarrow> string \<Rightarrow> blob_env \<Rightarrow> bool" where
  "blob_env_ok S kek env \<longleftrightarrow> suite.truncate env = S \<and> suite_ok S \<and> be_kek env = kek
     \<and> length (be_stream_nonce env) = STREAM_NONCE_BYTES \<and> (\<forall>d. length (be_wrap_nonce env d) = WRAP_NONCE_BYTES)
     \<and> is_utf8 (be_kek_id env)"

lemma truncate_fields [simp]:
  "su_sha (suite.truncate env) = su_sha env" "su_wrap (suite.truncate env) = su_wrap env"
  "su_unwrap (suite.truncate env) = su_unwrap env" "su_seal (suite.truncate env) = su_seal env"
  "su_open (suite.truncate env) = su_open env"
  by (simp_all add: suite.truncate_def)

lemma seal_stream_truncate: "seal_stream (suite.truncate env) aad dek nonce pos cs = seal_stream env aad dek nonce pos cs"
  by (induction cs arbitrary: pos rule: induct_list012) simp_all

lemma seal_with_truncate:
  "seal_with (suite.truncate env) p m kek kid dek wn n = seal_with env p m kek kid dek wn n"
  by (simp add: seal_with_def wrap_dek_def header_of_def seal_stream_truncate)

lemma suite_ok_truncate [simp]: "suite_ok (suite.truncate env) = suite_ok env"
  by (simp add: suite_ok_def)

lemma stored_as_truncate: "stored_as (suite.truncate env) kek f r p = stored_as env kek f r p"
  by (simp add: stored_as_def seal_with_truncate)

section \<open>The changes\<close>

inductive blob_move :: "suite \<Rightarrow> string \<Rightarrow> blob_state \<Rightarrow> blob_state \<Rightarrow> bool" for S kek where
  uploads: "uploads_ok (st\<lparr>bs_upload := us\<rparr>) \<Longrightarrow>
    blob_move S kek st (st\<lparr>bs_upload := us, bs_staged := fs, bs_sealing := cs\<rparr>)"
| publish: "map_of (bs_blob st) digest = None \<Longrightarrow>
    blob_move S kek st (st\<lparr>bs_container := AList.update digest f (bs_container st)\<rparr>)"
| record_row: "map_of (bs_blob st) digest = None \<Longrightarrow> bl_tombstoned_at r = None \<Longrightarrow>
    row_ok S kek (map_of (bs_container st) digest) digest r \<Longrightarrow>
    blob_move S kek st (st\<lparr>bs_blob := AList.update digest r (bs_blob st)\<rparr>)"
| pin: "map_of (bs_blob st) digest = Some r \<Longrightarrow> bl_tombstoned_at r = None \<Longrightarrow>
    blob_move S kek st (st\<lparr>bs_pin := List.insert (digest, e) (bs_pin st)\<rparr>)"
| unpin: "blob_move S kek st (st\<lparr>bs_pin := removeAll (digest, e) (bs_pin st)\<rparr>)"
| sweep: "(\<And>b. b \<in> set (bs_blob st) \<Longrightarrow> \<not> keep b \<Longrightarrow> bl_tombstoned_at (snd b) = None \<and> \<not> pinned_blob st (fst b)) \<Longrightarrow>
    blob_move S kek st (st\<lparr>bs_blob := filter keep (bs_blob st)\<rparr>)"
| unlink_dead: "(\<And>r. map_of (bs_blob st) digest = Some r \<Longrightarrow> bl_tombstoned_at r \<noteq> None) \<Longrightarrow>
    blob_move S kek st (st\<lparr>bs_container := AList.delete digest (bs_container st)\<rparr>)"
| shred: "map_of (bs_blob st) digest = Some r \<Longrightarrow> bl_tombstoned_at r = None \<Longrightarrow> \<not> pinned_blob st digest \<Longrightarrow>
    blob_move S kek st (st\<lparr>bs_blob := AList.update digest (r\<lparr>bl_wrap_nonce := None, bl_wrapped_dek := None,
      bl_tombstoned_at := Some at\<rparr>) (bs_blob st)\<rparr>)"

text \<open>Deleting the rows a condition selects: the lookup keeps a row exactly when it survives.\<close>

lemma map_of_filter_distinct:
  fixes t :: "'r table"
  assumes "distinct (map fst t)"
  shows "map_of (filter keep t) digest
    = (if \<exists>r. map_of t digest = Some r \<and> keep (digest, r) then map_of t digest else None)"
  using assms by (induction t) (auto dest: map_of_SomeD simp: rev_image_eqI)

lemma blob_move_ok:
  assumes "blob_move S kek st st'" and "blob_ok S kek st" shows "blob_ok S kek st'"
  using assms
proof (cases rule: blob_move.cases)
  case (uploads us fs cs)
  with assms(2) show ?thesis by (simp add: blob_ok_def uploads_ok_def)
next
  case (publish digest f)
  with assms(2) show ?thesis by (auto simp: blob_ok_def uploads_ok_def)
next
  case (record_row digest r)
  with assms(2) show ?thesis by (auto simp: blob_ok_def uploads_ok_def distinct_update)
next
  case (sweep keep)
  with assms(2) show ?thesis
    by (auto simp: blob_ok_def uploads_ok_def map_of_filter_distinct distinct_map_filter split: option.splits if_splits)
next
  case (unlink_dead digest)
  with assms(2) show ?thesis by (fastforce simp: blob_ok_def uploads_ok_def row_ok_def)
next
  case (shred digest r at)
  with assms(2) show ?thesis by (auto simp: blob_ok_def uploads_ok_def distinct_update row_ok_def)
qed (use assms(2) in \<open>auto simp: blob_ok_def uploads_ok_def\<close>)

lemma blob_moves_ok: "(blob_move S kek)\<^sup>*\<^sup>* st st' \<Longrightarrow> blob_ok S kek st \<Longrightarrow> blob_ok S kek st'"
  by (induction rule: rtranclp_induct) (auto intro: blob_move_ok)

section \<open>The operations are sequences of changes\<close>

lemma upload_change:
  assumes "bs_blob st' = bs_blob st" "bs_pin st' = bs_pin st" "bs_container st' = bs_container st" "uploads_ok st'"
  shows "(blob_move S kek)\<^sup>*\<^sup>* st st'"
proof -
  have "st' = st\<lparr>bs_upload := bs_upload st', bs_staged := bs_staged st', bs_sealing := bs_sealing st'\<rparr>"
    using assms by (cases st; cases st') simp
  moreover have "uploads_ok (st\<lparr>bs_upload := bs_upload st'\<rparr>)" using assms(4) by (simp add: uploads_ok_def)
  ultimately have "blob_move S kek st st'"
    using blob_move.uploads [where st = st and us = "bs_upload st'" and fs = "bs_staged st'"
        and cs = "bs_sealing st'"] by simp
  then show ?thesis ..
qed

lemma blob_ok_uploads: "blob_ok S kek st \<Longrightarrow> uploads_ok st"
  by (simp add: blob_ok_def)

lemma set_delete_subset: "set (AList.delete i t) \<subseteq> set t"
  by (simp add: AList.delete_eq)

lemma set_update_subset: "set (AList.update i v t) \<subseteq> insert (i, v) (set t)"
  by (induction t) auto

lemma uploads_ok_subset: "uploads_ok st \<Longrightarrow> set (bs_upload st') \<subseteq> set (bs_upload st) \<Longrightarrow> uploads_ok st'"
  by (auto simp: uploads_ok_def)

lemma uploads_ok_update:
  "uploads_ok st \<Longrightarrow> upload_ok u \<Longrightarrow> bs_upload st' = AList.update i u (bs_upload st) \<Longrightarrow> uploads_ok st'"
  using set_update_subset [of i u "bs_upload st"] by (auto simp: uploads_ok_def)

lemma discard_fields [simp]:
  "bs_blob (discard_upload_files env i st) = bs_blob st" "bs_pin (discard_upload_files env i st) = bs_pin st"
  "bs_container (discard_upload_files env i st) = bs_container st"
  "bs_upload (discard_upload_files env i st) = bs_upload st"
  by (simp_all add: discard_upload_files_def)

lemma discards_fields [simp]:
  "bs_blob (foldl (\<lambda>s i. discard_upload_files env i s) st is) = bs_blob st"
  "bs_pin (foldl (\<lambda>s i. discard_upload_files env i s) st is) = bs_pin st"
  "bs_container (foldl (\<lambda>s i. discard_upload_files env i s) st is) = bs_container st"
  "bs_upload (foldl (\<lambda>s i. discard_upload_files env i s) st is) = bs_upload st"
  by (induction "is" arbitrary: st) simp_all

lemma expire_moves:
  assumes "uploads_ok st" and "expire_uploads env st = (r, st')"
  shows "(blob_move S kek)\<^sup>*\<^sup>* st st' \<and> uploads_ok st' \<and> bs_blob st' = bs_blob st \<and> bs_container st' = bs_container st
    \<and> bs_pin st' = bs_pin st"
proof -
  have "bs_blob st' = bs_blob st \<and> bs_pin st' = bs_pin st \<and> bs_container st' = bs_container st
    \<and> set (bs_upload st') \<subseteq> set (bs_upload st)"
    using assms(2) by (auto simp: expire_uploads_def chain_def Let_def split: sum.splits)
  with uploads_ok_subset [OF assms(1)] show ?thesis by (auto intro: upload_change)
qed

lemma begin_moves:
  assumes "uploads_ok st" and "is_utf8 media_type" and "blob_begin env media_type byte_size st = (r, st')"
  shows "(blob_move S kek)\<^sup>*\<^sup>* st st' \<and> uploads_ok st'"
proof -
  obtain r1 st1 where x: "expire_uploads env st = (r1, st1)" by fastforce
  note e = expire_moves [OF assms(1) x]
  let ?u = "\<lparr>up_media_type = media_type, up_byte_size = int (unat byte_size), up_written = 0, up_next_chunk = 0,
    up_started_at = be_now env\<rparr>"
  have "st' = st \<or> bs_blob st' = bs_blob st1 \<and> bs_pin st' = bs_pin st1 \<and> bs_container st' = bs_container st1
      \<and> (bs_upload st' = bs_upload st1
         \<or> unat byte_size < 2 ^ 63 \<and> bs_upload st' = AList.update (hex_lower (be_upload_bytes env)) ?u (bs_upload st1))"
    using assms(3) by (auto simp: blob_begin_def x chain_def Let_def result_simps split: sum.splits)
  moreover have "upload_ok ?u" if "unat byte_size < 2 ^ 63"
    using that assms(2) by (simp add: upload_ok_def uint_nat del: of_nat_unat)
  moreover have "uploads_ok st'" if "bs_upload st' = bs_upload st1"
    using e that by (simp add: uploads_ok_def)
  ultimately show ?thesis using e assms(1) uploads_ok_update [of st1] upload_change [of st' st1]
    by (metis (no_types, lifting) rtranclp_trans rtranclp.rtrancl_refl)
qed

lemma write_moves:
  assumes "uploads_ok st" and "write_chunk env i sequence chunk st = (r, st')"
  shows "(blob_move S kek)\<^sup>*\<^sup>* st st' \<and> uploads_ok st'"
proof (cases "open_upload env i st")
  case (Inl e)
  with assms show ?thesis by (simp add: write_chunk_def)
next
  case (Inr u)
  then have "(i, u) \<in> set (bs_upload st)" by (auto simp: open_upload_def result_simps map_of_SomeD)
  with assms(1) have u: "upload_ok u" by (auto simp: uploads_ok_def)
  let ?u = "u\<lparr>up_written := up_written u + int (length chunk), up_next_chunk := up_next_chunk u + 1\<rparr>"
  have "bs_blob st' = bs_blob st \<and> bs_pin st' = bs_pin st \<and> bs_container st' = bs_container st
      \<and> (bs_upload st' = bs_upload st \<or> up_written u + int (length chunk) \<le> up_byte_size u
           \<and> bs_upload st' = AList.update i ?u (bs_upload st))"
    using assms(2) Inr by (auto simp: write_chunk_def chain_def Let_def result_simps split: sum.splits)
  moreover have "upload_ok ?u" if "up_written u + int (length chunk) \<le> up_byte_size u"
    using that u by (simp add: upload_ok_def)
  moreover have "uploads_ok st'" if "bs_upload st' = bs_upload st" using assms(1) that by (simp add: uploads_ok_def)
  ultimately show ?thesis using uploads_ok_update [OF assms(1)] by (auto intro: upload_change)
qed

lemma abort_moves:
  assumes "uploads_ok st" and "abort_upload env i st = (r, st')"
  shows "(blob_move S kek)\<^sup>*\<^sup>* st st'"
proof -
  have "bs_blob st' = bs_blob st \<and> bs_pin st' = bs_pin st \<and> bs_container st' = bs_container st
      \<and> set (bs_upload st') \<subseteq> set (bs_upload st)"
    using assms(2) set_delete_subset [of i "bs_upload st"]
    by (auto simp: abort_upload_def chain_def Let_def split: sum.splits)
  with uploads_ok_subset [OF assms(1)] show ?thesis by (auto intro: upload_change)
qed

lemma commit_publish_result:
  assumes "commit_publish env i u p digest st = (r, st')"
  shows "bs_blob st' = bs_blob st \<and> bs_pin st' = bs_pin st \<and> bs_upload st' = bs_upload st"
    and "r = Inl e \<Longrightarrow> bs_container st' = bs_container st"
    and "r = Inr sl \<Longrightarrow> bs_container st' = AList.update digest (sl_container sl) (bs_container st)
      \<and> seal_with env p (up_media_type u) (be_kek env) (be_kek_id env) (be_dek env) (be_wrap_nonce env digest)
          (be_stream_nonce env) = Inr sl"
  using assms by (auto simp: commit_publish_def chain_def Let_def result_simps split: sum.splits)

lemma publish_moves:
  assumes "uploads_ok st" and "map_of (bs_blob st) digest = None"
    and "bs_blob st' = bs_blob st" "bs_pin st' = bs_pin st" "bs_upload st' = bs_upload st"
    and "bs_container st' = AList.update digest f (bs_container st)"
  shows "(blob_move S kek)\<^sup>*\<^sup>* st st'"
proof -
  let ?st = "st\<lparr>bs_container := AList.update digest f (bs_container st)\<rparr>"
  have "(blob_move S kek)\<^sup>*\<^sup>* st ?st" using blob_move.publish [OF assms(2)] ..
  also have "(blob_move S kek)\<^sup>*\<^sup>* ?st st'"
    by (rule upload_change) (use assms in \<open>simp_all add: uploads_ok_def\<close>)
  finally show ?thesis .
qed

lemma staged_plaintext_Inr:
  assumes "staged_plaintext env i address st = Inr (u, p, digest)"
  shows "map_of (bs_upload st) i = Some u \<and> (\<exists>f. map_of (bs_staged st) i = Some f \<and> p = take (nat (up_written u)) f
      \<and> nat (up_written u) \<le> length f) \<and> up_written u = up_byte_size u
    \<and> digest = hex_lower (su_sha env p) \<and> digest = digest_hex address"
  using assms by (auto simp: staged_plaintext_def open_upload_def read_exact_def slice_of_def Let_def result_simps
      split: if_splits)

lemma hex_digit_lower: "n < 16 \<Longrightarrow> is_lower_hex (hex_digit n)"
  by (auto simp: hex_digit_def is_lower_hex_def is_ascii_digit_def byte_def)

lemma hex_lower_digits: "length (hex_lower s) = 2 * length s" "list_all is_lower_hex (hex_lower s)"
proof -
  have "octet c div 16 < 16" for c by (simp add: octet_def less_mult_imp_div_less)
  then show "list_all is_lower_hex (hex_lower s)" "length (hex_lower s) = 2 * length s"
    by (induction s) (simp_all add: hex_lower_def hex_digit_lower)
qed

lemma digest_is_hex: "suite_ok S \<Longrightarrow> is_sha256_hex (hex_lower (su_sha S p))"
  using hex_lower_digits [of "su_sha S p"]
  by (simp add: suite_ok_def is_sha256_hex_def SHA256_HEX_LEN_def DIGEST_BYTES_def)

lemma close_upload_result:
  assumes "close_upload env i st = (r, st')"
  shows "bs_blob st' = bs_blob st \<and> bs_pin st' = bs_pin st \<and> bs_container st' = bs_container st
    \<and> set (bs_upload st') \<subseteq> set (bs_upload st)"
  using assms set_delete_subset [of i "bs_upload st"]
  by (auto simp: close_upload_def chain_def split: sum.splits)

lemma dedup_moves:
  assumes "uploads_ok st" and "commit_dedup env i m d st = (r, st')"
  shows "(blob_move S kek)\<^sup>*\<^sup>* st st' \<and> bs_blob st' = bs_blob st \<and> bs_container st' = bs_container st"
proof -
  obtain r1 st1 where c: "close_upload env i (discard_upload_files env i st) = (r1, st1)" by fastforce
  from assms(2) have "st' = st1" by (cases r1) (auto simp: commit_dedup_def c)
  with close_upload_result [OF c] uploads_ok_subset [OF assms(1)] show ?thesis by (auto intro: upload_change)
qed

lemma record_moves:
  assumes ok: "blob_ok S kek st" and u: "upload_ok u" "up_written u = up_byte_size u"
    and env: "blob_env_ok S kek env" and p: "length p = nat (up_written u)"
    and none: "map_of (bs_blob st) digest = None" and digest: "digest = hex_lower (su_sha env p)"
    and f: "map_of (bs_container st) digest = Some (sl_container sl)"
    and sl: "seal_with env p (up_media_type u) (be_kek env) (be_kek_id env) (be_dek env)
      (be_wrap_nonce env digest) (be_stream_nonce env) = Inr sl"
    and run: "commit_record env i u digest sl st = (r, st')"
  shows "(blob_move S kek)\<^sup>*\<^sup>* st st'"
    and "r = Inr d \<Longrightarrow> \<exists>row. map_of (bs_blob st') digest = Some row \<and> bl_tombstoned_at row = None
      \<and> bs_container st' = bs_container st \<and> stored_as S kek (sl_container sl) row p"
proof -
  let ?row = "\<lparr>bl_media_type = up_media_type u, bl_byte_size = up_byte_size u, bl_kek_id = be_kek_id env,
    bl_wrap_nonce = Some (sl_wrap_nonce sl), bl_wrapped_dek = Some (sl_wrapped_dek sl),
    bl_created_at = be_now env, bl_tombstoned_at = None\<rparr>"
  let ?st = "st\<lparr>bs_blob := AList.update digest ?row (bs_blob st)\<rparr>"
  have "sl_wrap_nonce sl = be_wrap_nonce env digest" using sl by (auto simp: seal_with_def Let_def result_simps)
  moreover have "seal_args_ok p (up_media_type u) (be_kek_id env) (be_stream_nonce env)"
    using u p env by (auto simp: seal_args_ok_def upload_ok_def blob_env_ok_def)
  ultimately have stored: "stored_as env kek (sl_container sl) ?row p"
    using sl u p env unfolding stored_as_def
    by (intro exI [of _ "be_dek env"] exI [of _ "be_wrap_nonce env digest"] exI [of _ "be_stream_nonce env"] exI [of _ sl])
      (auto simp: upload_ok_def blob_env_ok_def)
  have S: "S = suite.truncate env" "suite_ok env" using env by (auto simp: blob_env_ok_def)
  have "row_ok S kek (map_of (bs_container st) digest) digest ?row"
    using f u digest digest_is_hex [OF S(2), of p] stored
    by (auto simp: row_ok_def upload_ok_def S(1) stored_as_truncate)
  then have step: "blob_move S kek st ?st" by (intro blob_move.record_row [OF none]) simp_all
  have up: "uploads_ok ?st" using ok by (simp add: blob_ok_def uploads_ok_def)
  obtain r1 st1 where c: "close_upload env i ?st = (r1, st1)" by fastforce
  have st': "st' = st \<or> st' = st1 \<or> st' = discard_upload_files env i st1"
    using run c none by (cases r1) (auto simp: commit_record_def chain_def Let_def io_def split: sum.splits if_splits)
  have tail: "(blob_move S kek)\<^sup>*\<^sup>* ?st s" if "s = st1 \<or> s = discard_upload_files env i st1" for s
    using that close_upload_result [OF c] uploads_ok_subset [OF up, of st1] uploads_ok_subset [OF up, of s]
    by (auto intro!: upload_change)
  show "(blob_move S kek)\<^sup>*\<^sup>* st st'" using st' tail step by (metis converse_rtranclp_into_rtranclp rtranclp.rtrancl_refl)
  assume "r = Inr d"
  with run c none have "st' = discard_upload_files env i st1"
    by (cases r1) (auto simp: commit_record_def chain_def Let_def io_def split: sum.splits if_splits)
  with close_upload_result [OF c] stored show "\<exists>row. map_of (bs_blob st') digest = Some row \<and> bl_tombstoned_at row = None
      \<and> bs_container st' = bs_container st \<and> stored_as S kek (sl_container sl) row p"
    by (simp add: S(1) stored_as_truncate)
qed

lemma read_row_Inr:
  "read_row env digest st = Inr None \<Longrightarrow> map_of (bs_blob st) digest = None"
  "read_row env digest st = Inr (Some (d, r)) \<Longrightarrow> map_of (bs_blob st) digest = Some r
     \<and> bd_tombstoned d = (bl_tombstoned_at r \<noteq> None) \<and> bd_pinned d = pinned_blob st digest"
  by (auto simp: read_row_def describe_def result_simps split: option.splits)

definition holds_blob :: "suite \<Rightarrow> string \<Rightarrow> blob_state \<Rightarrow> string \<Rightarrow> string \<Rightarrow> bool" where
  "holds_blob S kek st digest p \<longleftrightarrow> (\<exists>row f. map_of (bs_blob st) digest = Some row \<and> bl_tombstoned_at row = None
     \<and> map_of (bs_container st) digest = Some f \<and> stored_as S kek f row p) \<and> digest = hex_lower (su_sha S p)"

lemma blob_ok_holds:
  "blob_ok S kek st \<Longrightarrow> map_of (bs_blob st) digest = Some r \<Longrightarrow> bl_tombstoned_at r = None \<Longrightarrow>
     \<exists>p. holds_blob S kek st digest p"
  by (fastforce simp: blob_ok_def row_ok_def holds_blob_def)

text \<open>What a commit may leave: on success the address is held, with the staged bytes unless deduplicated.\<close>

definition committed :: "suite \<Rightarrow> string \<Rightarrow> string \<Rightarrow> string \<Rightarrow> blob_state
    \<Rightarrow> blob_error + blob_descriptor \<times> bool \<Rightarrow> blob_state \<Rightarrow> bool" where
  "committed S kek i digest st r st' \<longleftrightarrow> (blob_move S kek)\<^sup>*\<^sup>* st st' \<and> (\<forall>d dup. r = Inr (d, dup) \<longrightarrow>
     (\<exists>p. holds_blob S kek st' digest p \<and> (dup \<or> (\<exists>u f. map_of (bs_upload st) i = Some u
        \<and> map_of (bs_staged st) i = Some f \<and> p = take (nat (up_written u)) f))))"

lemma commit_known:
  assumes ok: "blob_ok S kek st" and row: "read_row env digest st = Inr (Some (e, row))"
    and dd: "commit_dedup env i m e st = (r, st')"
  shows "committed S kek i digest st r st'"
proof -
  note rr = read_row_Inr(2) [OF row]
  note moved = dedup_moves [OF blob_ok_uploads [OF ok] dd]
  moreover have "dup \<and> bl_tombstoned_at row = None" if "r = Inr (d, dup)" for d dup
    using dd that rr by (auto simp: commit_dedup_def chain_def split: prod.splits sum.splits if_splits)
  ultimately show ?thesis using blob_ok_holds [OF ok, of digest row] rr
    by (auto simp: holds_blob_def committed_def)
qed

lemma commit_fresh:
  assumes ok: "blob_ok S kek st" and env: "blob_env_ok S kek env"
    and staged: "staged_plaintext env i address st = Inr (u, p, digest)"
    and none: "map_of (bs_blob st) digest = None"
    and run: "chain (commit_publish env i u p digest st) (\<lambda>sl st. commit_record env i u digest sl st) = (r, st')"
  shows "committed S kek i digest st r st'"
proof -
  note s = staged_plaintext_Inr [OF staged]
  from s have "(i, u) \<in> set (bs_upload st)" by (auto dest: map_of_SomeD)
  with ok have u: "upload_ok u" by (auto simp: blob_ok_def uploads_ok_def)
  obtain r1 st1 where pub: "commit_publish env i u p digest st = (r1, st1)" by fastforce
  note pr = commit_publish_result [OF pub]
  show ?thesis
  proof (cases r1)
    case (Inl e)
    with run pub have "st' = st1" "r = Inl e" by auto
    with pr(1) pr(2) [OF Inl] ok show ?thesis
      by (auto intro!: upload_change simp: blob_ok_def uploads_ok_def committed_def)
  next
    case (Inr sl)
    have rec: "commit_record env i u digest sl st1 = (r, st')" using run pub Inr by simp
    note c = pr(3) [OF Inr]
    have m1: "(blob_move S kek)\<^sup>*\<^sup>* st st1"
      using pr(1) c by (intro publish_moves [OF blob_ok_uploads [OF ok] none, of st1]) auto
    have len: "length p = nat (up_written u)" using s by auto
    have none1: "map_of (bs_blob st1) digest = None" using none pr(1) by simp
    have f: "map_of (bs_container st1) digest = Some (sl_container sl)" using c by simp
    have dg: "digest = hex_lower (su_sha env p)" using s by simp
    note rm = record_moves [OF blob_moves_ok [OF m1 ok] u _ env len none1 dg f _ rec]
    from rm c s f have "(blob_move S kek)\<^sup>*\<^sup>* st1 st'" and "r = Inr d \<Longrightarrow> holds_blob S kek st' digest p" for d
      using env by (auto simp: holds_blob_def blob_env_ok_def)
    with m1 s show ?thesis by (auto simp: committed_def)
  qed
qed

lemma commit_moves:
  assumes ok: "blob_ok S kek st" and env: "blob_env_ok S kek env"
    and run: "blob_commit env i address st = (r, st')"
  shows "committed S kek i (digest_hex address) st r st'"
proof (cases "staged_plaintext env i address st")
  case (Inl e)
  with run show ?thesis by (auto simp: blob_commit_def committed_def)
next
  case (Inr upd)
  then obtain u p digest where upd: "staged_plaintext env i address st = Inr (u, p, digest)" by (cases upd) simp
  then have dg: "digest = digest_hex address" by (simp add: staged_plaintext_Inr)
  consider e where "read_row env digest st = Inl e" | "read_row env digest st = Inr None"
    | e row where "read_row env digest st = Inr (Some (e, row))"
    by (cases "read_row env digest st") (auto, metis not_None_eq surj_pair)
  then show ?thesis
  proof cases
    case 1
    with run upd show ?thesis by (auto simp: blob_commit_def committed_def)
  next
    case 2
    with run upd show ?thesis
      using commit_fresh [OF ok env upd read_row_Inr(1) [OF 2]] by (simp add: blob_commit_def dg)
  next
    case 3
    with run upd show ?thesis using commit_known [OF ok 3] by (simp add: blob_commit_def dg)
  qed
qed

lemma pin_moves:
  assumes "blob_pin env address e st = (r, st')" shows "(blob_move S kek)\<^sup>*\<^sup>* st st'"
proof (cases "readable env address st")
  case (Inr dr)
  then obtain d row where "map_of (bs_blob st) (digest_hex address) = Some row" "bl_tombstoned_at row = None"
    by (cases dr) (auto simp: readable_def result_simps dest: read_row_Inr(2))
  from blob_move.pin [OF this] assms Inr show ?thesis
    by (auto simp: blob_pin_def chain_def split: sum.splits)
qed (use assms in \<open>simp add: blob_pin_def\<close>)

lemma unpin_moves:
  "blob_unpin env address e st = (r, st') \<Longrightarrow> (blob_move S kek)\<^sup>*\<^sup>* st st'"
  using blob_move.unpin [of S kek st "digest_hex address" e]
  by (auto simp: blob_unpin_def chain_def split: sum.splits)

lemma shred_moves:
  assumes "blob_shred env address st = (r, st')" shows "(blob_move S kek)\<^sup>*\<^sup>* st st'"
proof (cases "read_row env (digest_hex address) st")
  case (Inr found)
  let ?digest = "digest_hex address"
  show ?thesis
  proof (cases "found = None \<or> be_fails env ''shred blob''")
    case False
    then obtain d row where f: "found = Some (d, row)" by (cases found) auto
    note rr = read_row_Inr(2) [OF Inr [unfolded f]]
    let ?st = "st\<lparr>bs_blob := AList.update ?digest (row\<lparr>bl_wrap_nonce := None, bl_wrapped_dek := None,
      bl_tombstoned_at := Some (be_now env)\<rparr>) (bs_blob st)\<rparr>"
    have "(blob_move S kek)\<^sup>*\<^sup>* st ?st"
      if "bl_tombstoned_at row = None" "\<not> pinned_blob st ?digest"
      using rr that by (intro r_into_rtranclp blob_move.shred) simp_all
    moreover have "blob_move S kek ?st (?st\<lparr>bs_container := AList.delete ?digest (bs_container ?st)\<rparr>)"
      by (rule blob_move.unlink_dead) auto
    ultimately show ?thesis using assms Inr f rr False
      by (auto simp: blob_shred_def chain_def Let_def unlink_def io_def split: sum.splits if_splits
          intro: rtranclp.rtrancl_into_rtrancl)
  qed (use assms Inr in \<open>auto simp: blob_shred_def chain_def Let_def io_def split: sum.splits if_splits prod.splits\<close>)
qed (use assms in \<open>simp add: blob_shred_def\<close>)

lemma sweep_files_moves:
  "sweep_files env ds st = (r, st') \<Longrightarrow> \<forall>d \<in> set ds. map_of (bs_blob st) d = None \<Longrightarrow>
     (blob_move S kek)\<^sup>*\<^sup>* st st' \<and> bs_blob st' = bs_blob st
     \<and> (\<forall>d. d \<notin> set ds \<longrightarrow> map_of (bs_container st') d = map_of (bs_container st) d)"
proof (induction env ds st arbitrary: r st' rule: sweep_files.induct)
  case (2 env digest ds st)
  let ?st = "st\<lparr>bs_container := unlink env ''remove container'' digest (bs_container st)\<rparr>"
  have m: "(blob_move S kek)\<^sup>*\<^sup>* st ?st"
    using blob_move.unlink_dead [where st = st and digest = digest] 2(3) by (auto simp: unlink_def)
  show ?case
  proof (cases "blob_address_from_digest digest")
    case (Inl e)
    with 2(2) have "st' = ?st" by (simp add: Let_def)
    with m show ?thesis by (simp add: unlink_def)
  next
    case (Inr address)
    obtain r1 st1 where f: "sweep_files env ds ?st = (r1, st1)" by fastforce
    from 2(2) Inr f have "st' = st1" by (cases r1) (simp_all add: Let_def)
    moreover have "(blob_move S kek)\<^sup>*\<^sup>* ?st st1 \<and> bs_blob st1 = bs_blob ?st
        \<and> (\<forall>d. d \<notin> set ds \<longrightarrow> map_of (bs_container st1) d = map_of (bs_container ?st) d)"
      using 2(3) by (intro "2.IH" [OF refl f]) auto
    ultimately show ?thesis using m by (auto simp: unlink_def)
  qed
qed simp

lemma sweep_rows_result:
  assumes ok: "blob_ok S kek st" and run: "sweep_rows env hs st = (r, st')"
  shows "(blob_move S kek)\<^sup>*\<^sup>* st st' \<and> bs_container st' = bs_container st \<and> bs_pin st' = bs_pin st
    \<and> (\<forall>swept. r = Inr swept \<longrightarrow> swept = map fst (filter (unreferenced env hs st) (bs_blob st))
          \<and> bs_blob st' = filter (\<lambda>b. \<not> unreferenced env hs st b) (bs_blob st))
    \<and> (\<forall>e. r = Inl e \<longrightarrow> bs_blob st' = bs_blob st)"
proof -
  obtain r1 st1 where x: "expire_uploads env st = (r1, st1)" by fastforce
  note e = expire_moves [OF blob_ok_uploads [OF ok] x, of S kek]
  have same: "unreferenced env hs st1 = unreferenced env hs st"
    using e by (auto simp: unreferenced_def pinned_blob_def fun_eq_iff)
  let ?st = "st1\<lparr>bs_blob := filter (\<lambda>b. \<not> unreferenced env hs st b) (bs_blob st1)\<rparr>"
  have m: "blob_move S kek st1 ?st"
    using e by (intro blob_move.sweep) (auto simp: unreferenced_def Let_def pinned_blob_def)
  have "filter (\<lambda>(d, _). d \<notin> set (map fst (filter (unreferenced env hs st) (bs_blob st1)))) (bs_pin st1) = bs_pin st1"
    using e by (auto simp: filter_id_conv unreferenced_def Let_def pinned_blob_def list_ex_iff)
  with run x same have "r1 = Inl e \<Longrightarrow> r = Inl e \<and> st' = st1"
    and "r1 = Inr () \<Longrightarrow> st' = st1 \<and> r = Inl Blob_Storage
      \<or> r = Inr (map fst (filter (unreferenced env hs st) (bs_blob st1))) \<and> st' = ?st" for e
    by (auto simp: sweep_rows_def chain_def Let_def io_def guard_that_def split: sum.splits if_splits)
  with e m show ?thesis by (cases r1) (auto intro: rtranclp.rtrancl_into_rtrancl)
qed

lemma swept_rows_gone:
  assumes "distinct (map fst (bs_blob st))" and "d \<in> set (map fst (filter (unreferenced env hs st) (bs_blob st)))"
  shows "map_of (filter (\<lambda>b. \<not> unreferenced env hs st b) (bs_blob st)) d = None"
  using assms by (auto simp: map_of_filter_distinct split: option.splits dest: eq_key_imp_eq_value [OF assms(1)])

lemma sweep_moves:
  assumes ok: "blob_ok S kek st" and run: "blob_sweep env hs st = (r, st')"
  shows "(blob_move S kek)\<^sup>*\<^sup>* st st'"
    and "map_of (bs_blob st) d = Some row \<Longrightarrow> \<not> unreferenced env hs st (d, row) \<Longrightarrow>
      map_of (bs_blob st') d = Some row \<and> map_of (bs_container st') d = map_of (bs_container st) d"
proof -
  obtain r1 st1 where x: "sweep_rows env hs st = (r1, st1)" by fastforce
  note sr = sweep_rows_result [OF ok x]
  have dist: "distinct (map fst (bs_blob st))" using ok by (simp add: blob_ok_def)
  have "(blob_move S kek)\<^sup>*\<^sup>* st st' \<and> (map_of (bs_blob st) d = Some row \<longrightarrow> \<not> unreferenced env hs st (d, row) \<longrightarrow>
      map_of (bs_blob st') d = Some row \<and> map_of (bs_container st') d = map_of (bs_container st) d)"
  proof (cases r1)
    case (Inl e)
    with run x have "st' = st1" by (simp add: blob_sweep_def)
    with sr Inl show ?thesis by auto
  next
    case (Inr swept)
    from sr Inr have sw: "swept = map fst (filter (unreferenced env hs st) (bs_blob st))"
      and b1: "bs_blob st1 = filter (\<lambda>b. \<not> unreferenced env hs st b) (bs_blob st)" by simp_all
    have gone: "\<forall>d \<in> set swept. map_of (bs_blob st1) d = None"
      unfolding sw b1 by (intro ballI swept_rows_gone [OF dist])
    from run x Inr have "sweep_files env swept st1 = (r, st')" by (simp add: blob_sweep_def)
    note f = sweep_files_moves [OF this gone, of S kek]
    have "map_of (bs_blob st') d = Some row \<and> d \<notin> set swept"
      if "map_of (bs_blob st) d = Some row" "\<not> unreferenced env hs st (d, row)"
      using that f by (auto simp: b1 sw map_of_filter_distinct [OF dist] dest: eq_key_imp_eq_value [OF dist map_of_SomeD])
    with f sr show ?thesis by auto
  qed
  then show "(blob_move S kek)\<^sup>*\<^sup>* st st'"
    and "map_of (bs_blob st) d = Some row \<Longrightarrow> \<not> unreferenced env hs st (d, row) \<Longrightarrow>
      map_of (bs_blob st') d = Some row \<and> map_of (bs_container st') d = map_of (bs_container st) d" by auto
qed

end
