(* ===== verification/Gw_Blob_Run.thy ===== *)
theory Gw_Blob_Run
  imports Gw_Retain
begin

text \<open>
  Runs of the blob store: any sequence of its operations, each in its own surroundings (clock, random
  bytes, failures), over one cipher suite and key. What holds over every run: a live blob reads back
  bytes that hash to its address, a shredded address stays shredded, and retention never touches what
  is pinned or referred to.
\<close>

section \<open>Runs\<close>

definition empty_blobs :: blob_state where
  "empty_blobs = \<lparr>bs_blob = [], bs_pin = [], bs_upload = [], bs_container = [], bs_staged = [], bs_sealing = []\<rparr>"

inductive blob_run :: "suite \<Rightarrow> string \<Rightarrow> blob_state \<Rightarrow> blob_state \<Rightarrow> bool" for S kek st0 where
  initial: "blob_run S kek st0 st0"
| begin_upload: "blob_run S kek st0 st \<Longrightarrow> blob_env_ok S kek env \<Longrightarrow> is_utf8 media_type \<Longrightarrow>
    blob_begin env media_type byte_size st = (b, st') \<Longrightarrow> blob_run S kek st0 st'"
| write_part: "blob_run S kek st0 st \<Longrightarrow> blob_env_ok S kek env \<Longrightarrow>
    write_chunk env i sequence chunk st = (u, st') \<Longrightarrow> blob_run S kek st0 st'"
| abort: "blob_run S kek st0 st \<Longrightarrow> blob_env_ok S kek env \<Longrightarrow>
    abort_upload env i st = (u, st') \<Longrightarrow> blob_run S kek st0 st'"
| commit: "blob_run S kek st0 st \<Longrightarrow> blob_env_ok S kek env \<Longrightarrow>
    blob_commit env i address st = (c, st') \<Longrightarrow> blob_run S kek st0 st'"
| pin: "blob_run S kek st0 st \<Longrightarrow> blob_env_ok S kek env \<Longrightarrow>
    blob_pin env address evidence st = (u, st') \<Longrightarrow> blob_run S kek st0 st'"
| unpin: "blob_run S kek st0 st \<Longrightarrow> blob_env_ok S kek env \<Longrightarrow>
    blob_unpin env address evidence st = (u, st') \<Longrightarrow> blob_run S kek st0 st'"
| sweep: "blob_run S kek st0 st \<Longrightarrow> blob_env_ok S kek env \<Longrightarrow>
    blob_sweep env hs st = (w, st') \<Longrightarrow> blob_run S kek st0 st'"
| shred: "blob_run S kek st0 st \<Longrightarrow> blob_env_ok S kek env \<Longrightarrow>
    blob_shred env address st = (u, st') \<Longrightarrow> blob_run S kek st0 st'"

abbreviation blob_reachable :: "suite \<Rightarrow> string \<Rightarrow> blob_state \<Rightarrow> bool" where
  "blob_reachable S kek \<equiv> blob_run S kek empty_blobs"

lemma blob_moves_extend:
  assumes "(blob_move S kek)\<^sup>*\<^sup>* st0 st \<and> blob_ok S kek st" and "(blob_move S kek)\<^sup>*\<^sup>* st st'"
  shows "(blob_move S kek)\<^sup>*\<^sup>* st0 st' \<and> blob_ok S kek st'"
  using assms blob_moves_ok [of S kek st st'] by auto

lemma blob_run_moves:
  assumes "blob_run S kek st0 st" and "blob_ok S kek st0"
  shows "(blob_move S kek)\<^sup>*\<^sup>* st0 st \<and> blob_ok S kek st"
  using assms
proof (induction rule: blob_run.induct)
  case (begin_upload st env media_type byte_size b st')
  note ok = begin_upload.IH [OF begin_upload.prems]
  then show ?case using begin_upload.hyps blob_moves_extend begin_moves blob_ok_uploads by metis
next
  case (write_part st env i sequence chunk u st')
  note ok = write_part.IH [OF write_part.prems]
  then show ?case using write_part.hyps blob_moves_extend write_moves blob_ok_uploads by metis
next
  case (abort st env i u st')
  note ok = abort.IH [OF abort.prems]
  then show ?case using abort.hyps blob_moves_extend abort_moves blob_ok_uploads by metis
next
  case (commit st env i address c st')
  note ok = commit.IH [OF commit.prems]
  then show ?case using commit.hyps blob_moves_extend commit_moves committed_def by metis
next
  case (pin st env address evidence u st')
  note ok = pin.IH [OF pin.prems]
  then show ?case using pin.hyps blob_moves_extend pin_moves by metis
next
  case (unpin st env address evidence u st')
  note ok = unpin.IH [OF unpin.prems]
  then show ?case using unpin.hyps blob_moves_extend unpin_moves by metis
next
  case (sweep st env hs w st')
  note ok = sweep.IH [OF sweep.prems]
  then show ?case using sweep.hyps blob_moves_extend sweep_moves(1) by metis
next
  case (shred st env address u st')
  note ok = shred.IH [OF shred.prems]
  then show ?case using shred.hyps blob_moves_extend shred_moves by metis
qed simp

lemma blob_reachable_ok: "blob_reachable S kek st \<Longrightarrow> blob_ok S kek st"
  using blob_run_moves [of S kek empty_blobs st]
  by (simp add: blob_ok_def uploads_ok_def empty_blobs_def)

section \<open>What a reader may rely on\<close>

text \<open>The read side of the blob port: what is held is read back, a window at a time.\<close>

locale blob_reader =
  fixes holds :: "'s \<Rightarrow> string \<Rightarrow> bool"
    and reads :: "'s \<Rightarrow> nat \<Rightarrow> nat \<Rightarrow> blob_error + string"
  assumes window: "holds s p \<Longrightarrow> reads s offset wanted = Inr (blob_window offset wanted p)"
begin

lemma progress:
  assumes "holds s p" and "offset < length p" and "0 < wanted"
  shows "\<exists>c. reads s offset wanted = Inr c \<and> c \<noteq> [] \<and> length c \<le> wanted \<and> prefix c (drop offset p)"
  using assms by (auto simp: window blob_window_def BLOB_CHUNK_BYTES_def take_is_prefix)

end

definition pg_holds :: "blob_env \<times> blob_address \<times> blob_state \<Rightarrow> string \<Rightarrow> bool" where
  "pg_holds = (\<lambda>(env, address, st) p. suite_ok env \<and> (\<forall>c. \<not> be_fails env c) \<and> length p < 2 ^ 63
     \<and> holds_blob (suite.truncate env) (be_kek env) st (digest_hex address) p)"

definition pg_reads :: "blob_env \<times> blob_address \<times> blob_state \<Rightarrow> nat \<Rightarrow> nat \<Rightarrow> blob_error + string" where
  "pg_reads = (\<lambda>(env, address, st) offset wanted.
     blob_read env address (of_nat (min offset (2 ^ 64 - 1))) (of_nat (min wanted (2 ^ 64 - 1))) st)"

lemma holds_read:
  assumes "suite_ok env" and "\<And>c. \<not> be_fails env c"
    and "holds_blob (suite.truncate env) (be_kek env) st (digest_hex address) p"
  shows "blob_read env address offset wanted st = Inr (blob_window (unat offset) (unat wanted) p)"
proof -
  from assms(3) obtain row f where "map_of (bs_blob st) (digest_hex address) = Some row"
    "bl_tombstoned_at row = None" "map_of (bs_container st) (digest_hex address) = Some f"
    "stored_as env (be_kek env) f row p" and d: "digest_hex address = hex_lower (su_sha env p)"
    by (auto simp: holds_blob_def stored_as_truncate)
  from blob_read_window [OF assms(1) this(1,2) _ this(3,4) assms(2)] digest_is_hex [OF assms(1), of p] d
  show ?thesis by simp
qed

interpretation pg_blobs: blob_reader pg_holds pg_reads
proof
  fix s p offset wanted assume h: "pg_holds s p"
  obtain env address st where s: "s = (env, address, st)" by (cases s)
  have "unat (of_nat (min n (2 ^ 64 - 1)) :: u64) = min n (2 ^ 64 - 1)" for n
    by (simp add: unat_of_nat)
  moreover have "blob_window (min offset (2 ^ 64 - 1)) (min wanted (2 ^ 64 - 1)) p = blob_window offset wanted p"
    using h by (auto simp: s pg_holds_def blob_window_def min_def BLOB_CHUNK_BYTES_def)
  ultimately show "pg_reads s offset wanted = Inr (blob_window offset wanted p)"
    using h holds_read [of env st address p] by (simp add: s pg_holds_def pg_reads_def)
qed

end
