(* ===== verification/Gw_Blob_Demo.thy ===== *)
theory Gw_Blob_Demo
  imports Gw_Blob_Run
begin

text \<open>
  A concrete blob store: a suite that satisfies \<open>suite_ok\<close>, and the first upload of a store that
  uses it, evaluated through the operations.
\<close>

definition demo_tag :: "string \<Rightarrow> string \<Rightarrow> string" where
  "demo_tag k s = take 8 (k @ replicate 8 (byte 0)) @ take 8 (s @ replicate 8 (byte 0))"

definition demo_seal :: "string \<Rightarrow> string \<Rightarrow> string option" where
  "demo_seal tag m = Some (m @ tag)"

definition demo_unseal :: "string \<Rightarrow> string \<Rightarrow> string option" where
  "demo_unseal tag c = (let n = length c - 16 in if 16 \<le> length c \<and> drop n c = tag then Some (take n c) else None)"

lemma demo_unseal_iff: "length tag = 16 \<Longrightarrow> demo_unseal tag c = Some m \<longleftrightarrow> demo_seal tag m = Some c"
proof
  assume "demo_unseal tag c = Some m"
  then have "drop (length c - 16) c = tag" "take (length c - 16) c = m"
    by (auto simp: demo_unseal_def Let_def split: if_splits)
  then show "demo_seal tag m = Some c" unfolding demo_seal_def by (metis append_take_drop_id)
qed (auto simp: demo_seal_def demo_unseal_def Let_def)

definition demo_chunk_tag :: "string \<Rightarrow> nat \<Rightarrow> bool \<Rightarrow> string" where
  "demo_chunk_tag k i l = byte i # (if l then byte 1 else byte 0) # take 14 (k @ replicate 14 (byte 0))"

lemma demo_tag_length [simp]: "length (demo_tag k s) = 16" "length (demo_chunk_tag k i l) = 16"
  by (simp_all add: demo_tag_def demo_chunk_tag_def)

text \<open>A digest that is the content itself for up to 31 bytes.\<close>

definition demo_sha :: "string \<Rightarrow> string" where
  "demo_sha s = byte (min (length s) 32) # take 31 (s @ replicate 31 (byte 0))"

lemma demo_sha_length [simp]: "length (demo_sha s) = 32"
  by (simp add: demo_sha_def)

lemma demo_sha_inj: "length s \<le> 31 \<Longrightarrow> demo_sha q = demo_sha s \<Longrightarrow> q = s"
proof -
  assume s: "length s \<le> 31" and e: "demo_sha q = demo_sha s"
  have "octet (byte (min (length q) 32)) = octet (byte (min (length s) 32))" using e by (simp add: demo_sha_def)
  then have "min (length q) 32 = min (length s) 32" by (simp add: octet_def byte_def)
  with s have l: "length q = length s" by (simp add: min_def split: if_splits)
  have "take (length s) (tl (demo_sha q)) = take (length s) (tl (demo_sha s))" using e by simp
  with s l show "q = s" by (simp add: demo_sha_def min_def)
qed

definition demo_suite :: suite where
  "demo_suite =
     \<lparr>su_sha = demo_sha,
      su_wrap = (\<lambda>k n a. demo_seal (demo_tag k (drop 50 a))),
      su_unwrap = (\<lambda>k n a. demo_unseal (demo_tag k (drop 50 a))),
      su_seal = (\<lambda>k n i l a. demo_seal (demo_chunk_tag k i l)),
      su_open = (\<lambda>k n i l a. demo_unseal (demo_chunk_tag k i l))\<rparr>"

lemma demo_suite_ok: "suite_ok demo_suite"
  by (simp add: suite_ok_def demo_suite_def demo_unseal_iff) (auto simp: demo_sha_def demo_seal_def TAG_BYTES_def DIGEST_BYTES_def)

definition demo_kek :: string where "demo_kek = replicate 32 (byte 3)"

definition demo_blob_env :: "nat \<Rightarrow> blob_env" where
  "demo_blob_env n = suite.extend demo_suite
     (blob_env.fields (\<lambda>_. False) (\<lambda>_. False) (\<lambda>_ _. True) ''2026-01-02''
        (replicate 16 (byte n)) (replicate 32 (byte n)) (\<lambda>_. replicate 24 (byte n)) (replicate 19 (byte n))
        demo_kek ''k1'' 30 [])"

lemma demo_blob_fields:
  "su_sha (demo_blob_env n) = demo_sha"
  "su_wrap (demo_blob_env n) = (\<lambda>k n a. demo_seal (demo_tag k (drop 50 a)))"
  "su_unwrap (demo_blob_env n) = (\<lambda>k n a. demo_unseal (demo_tag k (drop 50 a)))"
  "su_seal (demo_blob_env n) = (\<lambda>k n i l a. demo_seal (demo_chunk_tag k i l))"
  "su_open (demo_blob_env n) = (\<lambda>k n i l a. demo_unseal (demo_chunk_tag k i l))"
  "be_fails (demo_blob_env n) = (\<lambda>_. False)" "be_expired (demo_blob_env n) = (\<lambda>_. False)"
  "be_now (demo_blob_env n) = ''2026-01-02''" "be_upload_bytes (demo_blob_env n) = replicate 16 (byte n)"
  "be_dek (demo_blob_env n) = replicate 32 (byte n)" "be_wrap_nonce (demo_blob_env n) = (\<lambda>_. replicate 24 (byte n))"
  "be_stream_nonce (demo_blob_env n) = replicate 19 (byte n)" "be_kek (demo_blob_env n) = demo_kek"
  "be_kek_id (demo_blob_env n) = ''k1''"
  by (simp_all add: demo_blob_env_def suite.defs blob_env.defs demo_suite_def)

lemma demo_blob_env_ok: "blob_env_ok demo_suite demo_kek (demo_blob_env n)"
proof -
  have "suite.truncate (demo_blob_env n) = demo_suite"
    by (simp add: demo_blob_env_def suite.defs blob_env.defs demo_suite_def)
  then show ?thesis
    by (simp add: blob_env_ok_def demo_suite_ok demo_blob_fields container_sizes
        utf8_lead_def in_octets_def octet_def)
qed

definition demo_digest :: string where
  "demo_digest = hex_lower (demo_sha ''ab'')"

definition demo_address :: blob_address where
  "demo_address = BlobAddress (BLOB_ADDRESS_SCHEME @ demo_digest)"

lemma demo_digest_hex: "digest_hex demo_address = demo_digest" "is_sha256_hex demo_digest"
  using hex_lower_digits [of "demo_sha ''ab''"]
  by (simp_all add: demo_sha_def demo_address_def demo_digest_def is_sha256_hex_def SHA256_HEX_LEN_def)

definition demo_upload :: "nat \<Rightarrow> string" where
  "demo_upload n = hex_lower (replicate 16 (byte n))"

lemma demo_upload_id: "is_upload_id (demo_upload n)"
  by (simp add: demo_upload_def is_upload_id_def UPLOAD_ID_HEX_LEN_def hex_lower_digits)

lemma demo_uploads_differ: "demo_upload 1 \<noteq> demo_upload 2"
proof -
  have "replicate 16 x = x # replicate 15 x" for x :: char using replicate_Suc [of 15 x] by simp
  then have "demo_upload n ! 1 = hex_digit (octet (byte n) mod 16)" for n
    by (simp add: demo_upload_def hex_lower_def)
  then have "octet (demo_upload 1 ! 1) = 49" "octet (demo_upload 2 ! 1) = 50"
    by (simp_all add: hex_digit_def byte_def octet_def)
  then show ?thesis by auto
qed

lemma chunks_one: "xs \<noteq> [] \<Longrightarrow> length xs \<le> n \<Longrightarrow> chunks n xs = [xs]"
  by (cases xs; subst chunks.simps) auto

text \<open>Two uploads of the same two bytes, both complete, neither committed.\<close>

definition demo_upload_row :: upload_row where
  "demo_upload_row = \<lparr>up_media_type = ''text'', up_byte_size = 2, up_written = 2, up_next_chunk = 1,
     up_started_at = ''2026-01-02''\<rparr>"

definition demo_uploaded :: "nat list \<Rightarrow> blob_state" where
  "demo_uploaded ns = empty_blobs\<lparr>bs_upload := map (\<lambda>n. (demo_upload n, demo_upload_row)) ns,
     bs_staged := map (\<lambda>n. (demo_upload n, ''ab'')) ns\<rparr>"

lemmas blob_run_defs = blob_begin_def expire_uploads_def io_def demo_blob_fields empty_blobs_def Let_def
  write_chunk_def open_upload_def write_at_def demo_upload_row_def demo_uploaded_def demo_upload_def [symmetric]

definition demo_opened :: "nat \<Rightarrow> blob_state \<Rightarrow> blob_state" where
  "demo_opened n st = st\<lparr>bs_upload := AList.update (demo_upload n) \<lparr>up_media_type = ''text'', up_byte_size = 2,
       up_written = 0, up_next_chunk = 0, up_started_at = ''2026-01-02''\<rparr> (bs_upload st),
     bs_staged := AList.update (demo_upload n) [] (bs_staged st)\<rparr>"

lemma demo_begin_blob:
  assumes "map_of (bs_upload st) (demo_upload n) = None"
  shows "blob_begin (demo_blob_env n) ''text'' 2 st = (Inr (demo_upload n), demo_opened n st)"
  using assms by (simp add: blob_run_defs demo_opened_def)

lemma demo_write_blob:
  "write_chunk (demo_blob_env n) (demo_upload n) 0 ''ab'' (demo_opened n st)
     = (Inr (), st\<lparr>bs_upload := AList.update (demo_upload n) demo_upload_row (bs_upload st),
          bs_staged := AList.update (demo_upload n) ''ab'' (bs_staged st)\<rparr>)"
  by (simp add: blob_run_defs demo_opened_def demo_upload_id)

lemma demo_uploaded_reachable:
  "blob_reachable demo_suite demo_kek (demo_uploaded [1])" "blob_reachable demo_suite demo_kek (demo_uploaded [1, 2])"
proof -
  have utf8: "is_utf8 ''text''" by (simp add: utf8_lead_def in_octets_def octet_def)
  have step: "blob_reachable demo_suite demo_kek (st\<lparr>bs_upload := AList.update (demo_upload n) demo_upload_row (bs_upload st),
      bs_staged := AList.update (demo_upload n) ''ab'' (bs_staged st)\<rparr>)"
    if r: "blob_reachable demo_suite demo_kek st" and new: "map_of (bs_upload st) (demo_upload n) = None" for st n
    by (rule blob_run.write_part [OF blob_run.begin_upload [OF r demo_blob_env_ok utf8 demo_begin_blob [OF new]]
          demo_blob_env_ok demo_write_blob])
  show one: "blob_reachable demo_suite demo_kek (demo_uploaded [1])"
    using step [OF blob_run.initial, of 1] by (simp add: demo_uploaded_def empty_blobs_def)
  show "blob_reachable demo_suite demo_kek (demo_uploaded [1, 2])"
    using step [OF one, of 2] demo_uploads_differ by (simp add: demo_uploaded_def empty_blobs_def)
qed

definition demo_sealed_by :: "nat \<Rightarrow> sealed" where
  "demo_sealed_by n = (case seal_with (demo_blob_env n) ''ab'' ''text'' demo_kek ''k1'' (replicate 32 (byte n))
     (replicate 24 (byte n)) (replicate 19 (byte n)) of Inr sl \<Rightarrow> sl)"

lemma demo_seal_with:
  "seal_with (demo_blob_env n) ''ab'' ''text'' demo_kek ''k1'' (replicate 32 (byte n))
     (replicate 24 (byte n)) (replicate 19 (byte n)) = Inr (demo_sealed_by n)"
  and demo_sealed_nonce: "sl_wrap_nonce (demo_sealed_by n) = replicate 24 (byte n)"
proof -
  have "sealed_chunks ''ab'' = [''ab'']" by (simp add: sealed_chunks_def BLOB_CHUNK_BYTES_def chunks_one)
  then obtain sl where sl: "seal_with (demo_blob_env n) ''ab'' ''text'' demo_kek ''k1'' (replicate 32 (byte n))
     (replicate 24 (byte n)) (replicate 19 (byte n)) = Inr sl"
    by (simp add: seal_with_def demo_blob_fields wrap_dek_def demo_seal_def container_sizes Let_def push_chunk_def)
  then show "seal_with (demo_blob_env n) ''ab'' ''text'' demo_kek ''k1'' (replicate 32 (byte n))
     (replicate 24 (byte n)) (replicate 19 (byte n)) = Inr (demo_sealed_by n)" by (simp add: demo_sealed_by_def)
  from sl show "sl_wrap_nonce (demo_sealed_by n) = replicate 24 (byte n)"
    by (auto simp: demo_sealed_by_def seal_with_def Let_def result_simps)
qed

definition demo_blob_row :: "nat \<Rightarrow> blob_row" where
  "demo_blob_row n = \<lparr>bl_media_type = ''text'', bl_byte_size = 2, bl_kek_id = ''k1'',
     bl_wrap_nonce = Some (replicate 24 (byte n)), bl_wrapped_dek = Some (sl_wrapped_dek (demo_sealed_by n)),
     bl_created_at = ''2026-01-02'', bl_tombstoned_at = None\<rparr>"

definition demo_descriptor :: blob_descriptor where
  "demo_descriptor = \<lparr>bd_address = demo_address, bd_media_type = ''text'', bd_byte_size = 2, bd_kek_id = ''k1'',
     bd_created_at = ''2026-01-02'', bd_pinned = False, bd_tombstoned = False\<rparr>"

lemmas blob_commit_defs = staged_plaintext_def open_upload_def demo_upload_id demo_digest_hex read_exact_def
  slice_of_def demo_digest_def [symmetric] read_row_def commit_publish_def commit_record_def close_upload_def
  discard_upload_files_def unlink_def describe_def blob_address_from_digest_def demo_address_def [symmetric]
  demo_seal_with demo_sealed_nonce demo_blob_row_def demo_descriptor_def pinned_blob_def

definition demo_stored :: blob_state where
  "demo_stored = empty_blobs\<lparr>bs_blob := [(demo_digest, demo_blob_row 1)],
     bs_container := [(demo_digest, sl_container (demo_sealed_by 1))]\<rparr>"

lemma demo_commit_run:
  "blob_commit (demo_blob_env 1) (demo_upload 1) demo_address (demo_uploaded [1])
     = (Inr (demo_descriptor, False), demo_stored)"
  by (simp add: blob_commit_def blob_commit_defs blob_run_defs demo_stored_def)

lemma demo_stored_reachable: "blob_reachable demo_suite demo_kek demo_stored"
  by (rule blob_run.commit [OF demo_uploaded_reachable(1) demo_blob_env_ok demo_commit_run])

end
