(* ===== verification/Gw_Rotate.thy ===== *)
theory Gw_Rotate
  imports Gw_Blob_Run
begin

text \<open>
  Key rotation: \<open>rewrap_all\<close> moves the wrapped key of every blob to a new key, one row at a time, and
  can be interrupted after any of them. The rows then hold under one key or the other, and a second
  run finishes the job.
\<close>

text \<open>
  Two keys a rotation can tell apart: data keys can always be wrapped, and no wrapped key opens under
  both.
\<close>

definition rotatable :: "'m suite_scheme \<Rightarrow> string \<Rightarrow> string \<Rightarrow> bool" where
  "rotatable S old new \<longleftrightarrow>
     (\<forall>n a d. length d = DEK_BYTES \<longrightarrow> su_wrap S new n a d \<noteq> None)
     \<and> (\<forall>n a d d' w. su_wrap S old n a d = Some w \<longrightarrow> su_wrap S new n a d' \<noteq> Some w)"

definition held_under :: "suite \<Rightarrow> string \<Rightarrow> string \<Rightarrow> blob_state \<Rightarrow> string \<Rightarrow> string \<Rightarrow> bool" where
  "held_under S old new st d p \<longleftrightarrow> holds_blob S old st d p \<or> holds_blob S new st d p"

lemma unwrap_stored:
  assumes "unwrap_dek S wrapped kek nonce aad = Inr dek" and "suite_ok S"
  shows "su_wrap S kek nonce aad dek = Some wrapped \<and> length dek = DEK_BYTES"
  using assms by (auto simp: unwrap_dek_def result_simps suite_ok_def)

lemma stored_rewrapped:
  assumes S: "suite_ok S" and stored: "stored_as S kek file r p"
    and wrap: "wrap_dek S dek new nn (header_encode (header_of S p (bl_media_type r) (bl_kek_id r) nonce)) = Inr w"
    and bytes: "file = header_encode (header_of S p (bl_media_type r) (bl_kek_id r) nonce) @ body"
    and seal: "seal_stream S (header_encode (header_of S p (bl_media_type r) (bl_kek_id r) nonce)) dek nonce 0
      (sealed_chunks p) = Inr body"
    and h: "header_ok (header_of S p (bl_media_type r) (bl_kek_id r) nonce)" and n: "length nn = WRAP_NONCE_BYTES"
  shows "stored_as S new file (r\<lparr>bl_wrap_nonce := Some nn, bl_wrapped_dek := Some w\<rparr>) p"
proof -
  let ?sl = "\<lparr>sl_container = file, sl_wrap_nonce = nn, sl_wrapped_dek = w, sl_digest_hex = hex_lower (su_sha S p)\<rparr>"
  from stored have len: "bl_byte_size r = int (length p)" "length p < 2 ^ 63" by (auto simp: stored_as_def)
  have "seal_with S p (bl_media_type r) new (bl_kek_id r) dek nn nonce = Inr ?sl"
    using wrap seal h by (simp add: seal_with_def bytes Let_def header_ok_def header_of_def)
  moreover have "seal_args_ok p (bl_media_type r) (bl_kek_id r) nonce"
    using h len by (simp add: seal_args_ok_def header_ok_def header_of_def)
  ultimately show ?thesis using n len
    by (simp add: stored_as_def) (intro exI [of _ dek] exI [of _ nonce] exI [of _ ?sl], simp)
qed

lemma rewrap_header:
  assumes "header_ok h"
  shows "rewrap S (header_encode h) old new nonce wrapped nn
    = and_then (unwrap_dek S wrapped old nonce (header_encode h)) (\<lambda>dek. wrap_dek S dek new nn (header_encode h))"
  using header_roundtrip [OF assms, of "[]"] length_header_encode [OF assms] by (simp add: rewrap_def Let_def)

lemma open_container_Inr:
  assumes "open_container env d st = Inr (f, h, head)"
  shows "map_of (bs_container st) (digest_hex (bd_address d)) = Some f
    \<and> head = take (header_len (bd_media_type d) (bd_kek_id d)) f"
  using assms by (auto simp: open_container_def Let_def result_simps read_exact_def slice_of_def split: if_splits)

lemma readable_Inr:
  assumes "readable env address st = Inr (d, r)"
  shows "map_of (bs_blob st) (digest_hex address) = Some r \<and> bl_tombstoned_at r = None
    \<and> bd_media_type d = bl_media_type r \<and> bd_kek_id d = bl_kek_id r \<and> digest_hex (bd_address d) = digest_hex address"
  using assms
  by (auto simp: readable_def read_row_def describe_def blob_address_from_digest_def result_simps split: option.splits if_splits)

lemma rewrap_stored:
  assumes S: "suite_ok S" and k: "rotatable S old new" and nn: "length nn = WRAP_NONCE_BYTES"
    and key: "key_material r = Inr (wn, wrapped)" and head: "head = take (header_len (bl_media_type r) (bl_kek_id r)) file"
  shows "stored_as S old file r p \<Longrightarrow> \<exists>w. rewrap S head old new wn wrapped nn = Inr w
      \<and> stored_as S new file (r\<lparr>bl_wrap_nonce := Some nn, bl_wrapped_dek := Some w\<rparr>) p"
    and "stored_as S new file r p \<Longrightarrow> (\<exists>e. rewrap S head old new wn wrapped nn = Inl e)
      \<and> (\<exists>dek. unwrap_dek S wrapped new wn head = Inr dek)"
proof -
  have parts: "\<exists>dek nonce body. header_ok (header_of S p (bl_media_type r) (bl_kek_id r) nonce)
      \<and> head = header_encode (header_of S p (bl_media_type r) (bl_kek_id r) nonce)
      \<and> file = head @ body \<and> unwrap_dek S wrapped kek wn head = Inr dek
      \<and> seal_stream S head dek nonce 0 (sealed_chunks p) = Inr body"
    if st: "stored_as S kek file r p" for kek
  proof -
    obtain dek wn' nonce body wrapped' where "key_material r = Inr (wn', wrapped')"
      and h: "header_ok (header_of S p (bl_media_type r) (bl_kek_id r) nonce)"
      and fl: "file = header_encode (header_of S p (bl_media_type r) (bl_kek_id r) nonce) @ body"
      and "unwrap_dek S wrapped' kek wn' (header_encode (header_of S p (bl_media_type r) (bl_kek_id r) nonce)) = Inr dek"
      and "seal_stream S (header_encode (header_of S p (bl_media_type r) (bl_kek_id r) nonce)) dek nonce 0 (sealed_chunks p) = Inr body"
      by (rule stored_key_material [OF S st])
    moreover have "head = header_encode (header_of S p (bl_media_type r) (bl_kek_id r) nonce)"
      using length_header_encode [OF h] by (simp add: head fl header_of_def)
    ultimately show ?thesis using key by auto
  qed
  show "\<exists>w. rewrap S head old new wn wrapped nn = Inr w
      \<and> stored_as S new file (r\<lparr>bl_wrap_nonce := Some nn, bl_wrapped_dek := Some w\<rparr>) p"
    if st: "stored_as S old file r p"
  proof -
    from parts [OF st] obtain dek nonce body where h: "header_ok (header_of S p (bl_media_type r) (bl_kek_id r) nonce)"
      and hd: "head = header_encode (header_of S p (bl_media_type r) (bl_kek_id r) nonce)" "file = head @ body"
      and u: "unwrap_dek S wrapped old wn head = Inr dek"
      and seal: "seal_stream S head dek nonce 0 (sealed_chunks p) = Inr body" by blast
    have len: "length dek = DEK_BYTES" using unwrap_stored [OF u S] by simp
    with k obtain w where "su_wrap S new nn head dek = Some w" unfolding rotatable_def by blast
    with len have w: "wrap_dek S dek new nn head = Inr w" using S by (auto simp: wrap_dek_def suite_ok_def WRAPPED_DEK_BYTES_def)
    with u have "rewrap S head old new wn wrapped nn = Inr w" by (simp add: hd(1) rewrap_header [OF h])
    with stored_rewrapped [OF S st w [unfolded hd(1)] hd(2) [unfolded hd(1)] seal [unfolded hd(1)] h nn]
    show ?thesis by blast
  qed
  show "(\<exists>e. rewrap S head old new wn wrapped nn = Inl e) \<and> (\<exists>dek. unwrap_dek S wrapped new wn head = Inr dek)"
    if st: "stored_as S new file r p"
  proof -
    from parts [OF st] obtain dek nonce where h: "header_ok (header_of S p (bl_media_type r) (bl_kek_id r) nonce)"
      and hd: "head = header_encode (header_of S p (bl_media_type r) (bl_kek_id r) nonce)"
      and u: "unwrap_dek S wrapped new wn head = Inr dek" by blast
    from unwrap_stored [OF u S] k have "su_wrap S old wn head d \<noteq> Some wrapped" for d by (auto simp: rotatable_def)
    then obtain e where "unwrap_dek S wrapped old wn head = Inl e"
      using unwrap_stored [OF _ S, of wrapped old wn head] by (cases "unwrap_dek S wrapped old wn head") auto
    with u show ?thesis by (simp add: hd rewrap_header [OF h])
  qed
qed

section \<open>One row, then all of them\<close>

lemma rewrap_one_result:
  assumes env: "blob_env_ok S old env" and k: "rotatable S old new"
    and run: "rewrap_one env new address st = (res, st')"
  shows "bs_container st' = bs_container st
    \<and> (\<forall>d. d \<noteq> digest_hex address \<longrightarrow> map_of (bs_blob st') d = map_of (bs_blob st) d)
    \<and> (\<forall>p. holds_blob S new st (digest_hex address) p \<longrightarrow> holds_blob S new st' (digest_hex address) p)
    \<and> (\<forall>p. held_under S old new st (digest_hex address) p \<longrightarrow> held_under S old new st' (digest_hex address) p
         \<and> (\<forall>b. res = Inr b \<longrightarrow> holds_blob S new st' (digest_hex address) p))"
proof -
  let ?d = "digest_hex address" and ?nn = "be_wrap_nonce env (digest_hex address)"
  let ?pre = "and_then (readable env address st) (\<lambda>(d, r). and_then (key_material r) (\<lambda>(nonce, wrapped).
    and_then (open_container env d st) (\<lambda>(_, _, head). and_then (io env ''random'') (\<lambda>_. Inr (r, nonce, wrapped, head)))))"
  from env have S: "S = suite.truncate env" "suite_ok env" "be_kek env = old" "length ?nn = WRAP_NONCE_BYTES"
    by (auto simp: blob_env_ok_def)
  have k': "rotatable env old new" using k by (simp add: S(1) rotatable_def)
  show ?thesis
  proof (cases ?pre)
    case (Inl e)
    with run have "st' = st" "res = Inl e" by (simp_all add: rewrap_one_def)
    then show ?thesis by simp
  next
    case (Inr x)
    then obtain d r wn wrapped f h head where read: "readable env address st = Inr (d, r)"
      and key: "key_material r = Inr (wn, wrapped)" and oc: "open_container env d st = Inr (f, h, head)"
      and x: "x = (r, wn, wrapped, head)" by (auto simp: result_simps)
    note rd = readable_Inr [OF read] and fo = open_container_Inr [OF oc]
    then have f: "map_of (bs_container st) ?d = Some f" and head: "head = take (header_len (bl_media_type r) (bl_kek_id r)) f"
      by simp_all
    note rw = rewrap_stored [OF S(2) k' S(4) key head]
    have eq: "holds_blob S kek st ?d p \<longleftrightarrow> stored_as env kek f r p \<and> ?d = hex_lower (su_sha S p)" for kek p
      using rd f by (auto simp: holds_blob_def S(1) stored_as_truncate)
    show ?thesis
    proof (cases "rewrap env head old new wn wrapped ?nn")
      case (Inl e)
      then have "st' = st" using run \<open>?pre = Inr x\<close> x S(3)
        by (auto simp: rewrap_one_def Let_def split: sum.splits)
      moreover have "holds_blob S new st ?d p" if "held_under S old new st ?d p" for p
        using that rw(1) [of p] Inl by (auto simp: held_under_def eq)
      ultimately show ?thesis by simp
    next
      case (Inr w)
      let ?st = "st\<lparr>bs_blob := AList.update ?d (r\<lparr>bl_wrap_nonce := Some ?nn, bl_wrapped_dek := Some w\<rparr>) (bs_blob st)\<rparr>"
      have "st' = st \<and> (\<exists>e. res = Inl e) \<or> st' = ?st" using run \<open>?pre = Inr x\<close> x S(3) Inr
        by (auto simp: rewrap_one_def Let_def chain_def io_def guard_that_def split: if_splits)
      moreover have "holds_blob S new ?st ?d p" if "held_under S old new st ?d p" for p
      proof -
        have "stored_as env old f r p" "?d = hex_lower (su_sha S p)" using that rw(2) [of p] Inr by (auto simp: held_under_def eq)
        with rw(1) [of p] Inr f rd show ?thesis by (auto simp: holds_blob_def S(1) stored_as_truncate)
      qed
      moreover have "\<not> holds_blob S new st ?d p" for p using rw(2) [of p] Inr by (auto simp: eq)
      ultimately show ?thesis by (auto simp: held_under_def)
    qed
  qed
qed

lemma holds_same:
  assumes "bs_container st' = bs_container st" and "map_of (bs_blob st') d = map_of (bs_blob st) d"
  shows "holds_blob S kek st' d p = holds_blob S kek st d p"
  using assms by (simp add: holds_blob_def)

lemma rewrap_each_result:
  assumes env: "blob_env_ok S old env" and k: "rotatable S old new"
    and run: "rewrap_each env new ds n st = (res, st')"
  shows "(\<forall>d p. held_under S old new st d p \<longrightarrow> held_under S old new st' d p)
    \<and> (\<forall>d p. holds_blob S new st d p \<longrightarrow> holds_blob S new st' d p)
    \<and> (\<forall>d p. d \<in> set ds \<longrightarrow> held_under S old new st d p \<longrightarrow> (\<exists>m. res = Inr m) \<longrightarrow> holds_blob S new st' d p)"
  using run
proof (induction ds arbitrary: n st)
  case Nil
  then show ?case by simp
next
  case (Cons d ds)
  obtain moved already where n: "n = (moved, already)" by (cases n)
  show ?case
  proof (cases "blob_address_from_digest d")
    case (Inl e)
    with Cons.prems have "st' = st" "res = Inl Blob_Storage" by (simp_all add: n)
    then show ?thesis by simp
  next
    case (Inr address)
    then have dh: "digest_hex address = d" by (auto simp: blob_address_from_digest_def split: if_splits)
    obtain b st1 where one: "rewrap_one env new address st = (b, st1)" by fastforce
    note step = rewrap_one_result [OF env k one, unfolded dh]
    then have other: "holds_blob S kek st1 d' p = holds_blob S kek st d' p" if "d' \<noteq> d" for kek d' p
      using that by (intro holds_same) auto
    have s1: "held_under S old new st d' p \<Longrightarrow> held_under S old new st1 d' p"
      and s2: "holds_blob S new st d' p \<Longrightarrow> holds_blob S new st1 d' p" for d' p
      using step other [of d' _ p] by (cases "d' = d"; auto simp: held_under_def)+
    show ?thesis
    proof (cases b)
      case (Inl e)
      with Cons.prems Inr one n have "st' = st1" "res = Inl e"
        using \<open>blob_address_from_digest d = Inr address\<close> by simp_all
      then show ?thesis using s1 s2 by simp
    next
      case bb: (Inr c)
      have "rewrap_each env new ds (if c then (Suc moved, already) else (moved, Suc already)) st1 = (res, st')"
        using Cons.prems Inr one bb n by simp
      note rest = Cons.IH [OF this]
      have "holds_blob S new st1 d p" if "held_under S old new st d p" for p using step that bb by blast
      then show ?thesis using rest s1 s2 by (metis set_ConsD)
    qed
  qed
qed

end
