(* ===== verification/Gw_Blob_Safety.thy ===== *)
theory Gw_Blob_Safety
  imports Gw_Blob_Demo Gw_Rotate
begin

text \<open>
  Properties of the blob store: what a committed blob reads back, what a shred and a sweep may and
  may not do, what a key rotation keeps, and what two commits of the same bytes can do to each other.
\<close>

section \<open>Containers\<close>

text \<open>
  C34: The header of a container is read exactly as it is written. The decoder accepts a byte sequence
  if and only if it starts with the encoding of a well-formed header, and then returns that header and
  its length; a short, foreign, differently versioned, overrunning or non-UTF-8 header is refused.
\<close>

theorem header_codec_exact:
  "header_decode bytes = Inr (h, n) \<longleftrightarrow>
     header_ok h \<and> n = header_len (hd_media_type h) (hd_kek_id h) \<and> prefix (header_encode h) bytes"
proof
  assume "header_decode bytes = Inr (h, n)"
  from header_decode_exact [OF this] show "header_ok h \<and> n = header_len (hd_media_type h) (hd_kek_id h)
      \<and> prefix (header_encode h) bytes" by (metis take_is_prefix)
next
  assume "header_ok h \<and> n = header_len (hd_media_type h) (hd_kek_id h) \<and> prefix (header_encode h) bytes"
  then show "header_decode bytes = Inr (h, n)" using header_roundtrip [of h] by (auto simp: prefix_def)
qed

text \<open>
  C31: What is sealed opens again. A container sealed from any plaintext opens under the key, the nonce
  and the wrapped data key that sealing returned, and yields the header and the plaintext; after the
  data key is rewrapped under another key it opens under that one, with the container untouched.
\<close>

theorem sealed_containers_open:
  assumes "suite_ok S" and "seal_args_ok plaintext media_type kek_id stream_nonce"
    and "seal_with S plaintext media_type kek kek_id dek wrap_nonce stream_nonce = Inr sl"
    and "rewrap S (sl_container sl) kek new_kek wrap_nonce (sl_wrapped_dek sl) new_nonce = Inr wrapped"
  shows "open_container_bytes S (sl_container sl) kek wrap_nonce (sl_wrapped_dek sl)
      = Inr (header_of S plaintext media_type kek_id stream_nonce, plaintext)
    \<and> open_container_bytes S (sl_container sl) new_kek new_nonce wrapped
      = Inr (header_of S plaintext media_type kek_id stream_nonce, plaintext)"
  using seal_then_open [OF assms(1-3)] rewrap_then_open [OF assms(1) _ assms(4)] by blast

lemma demo_seal_args: "seal_args_ok ''ab'' ''text'' ''k1'' (replicate 19 (byte n))"
  by (simp add: seal_args_ok_def container_sizes utf8_lead_def in_octets_def octet_def)

lemma demo_suite_env: "suite_ok (demo_blob_env n)"
  using demo_blob_env_ok [of n] suite_ok_truncate [of "demo_blob_env n"] by (simp add: blob_env_ok_def)

theorem sealed_containers_open_witness:
  "\<exists>w. open_container_bytes (demo_blob_env 1) (sl_container (demo_sealed_by 1)) demo_kek (replicate 24 (byte 1)) w
     = Inr (header_of (demo_blob_env 1) ''ab'' ''text'' ''k1'' (replicate 19 (byte 1)), ''ab'')"
proof -
  let ?S = "demo_blob_env 1" and ?h = "header_of (demo_blob_env 1) ''ab'' ''text'' ''k1'' (replicate 19 (byte 1))"
  have "\<exists>w. rewrap ?S (sl_container (demo_sealed_by 1)) demo_kek demo_kek (replicate 24 (byte 1))
      (sl_wrapped_dek (demo_sealed_by 1)) (replicate 24 (byte 1)) = Inr w"
  proof -
    obtain body where c: "sl_container (demo_sealed_by 1) = header_encode ?h @ body"
      and w: "wrap_dek ?S (replicate 32 (byte 1)) demo_kek (replicate 24 (byte 1)) (header_encode ?h)
        = Inr (sl_wrapped_dek (demo_sealed_by 1))" and h: "header_ok ?h"
      by (rule seal_with_parts [OF demo_suite_env demo_seal_args demo_seal_with])
    from header_roundtrip [OF h, of body] length_header_encode [OF h] unwrap_wrap [OF demo_suite_env w] w show ?thesis
      by (simp only: rewrap_def c and_then_simps prod.case Let_def) simp
  qed
  then show ?thesis
    using sealed_containers_open [OF demo_suite_env demo_seal_args demo_seal_with] by blast
qed

text \<open>
  C32: Only what was sealed opens. When opening a container succeeds, the container is, byte for byte,
  the encoding of the returned header followed by a stream of chunks sealed under the unwrapped data
  key with that header as associated data; the plaintext is the concatenation of the chunks, has the
  declared length and hashes to the declared digest.
\<close>

theorem only_sealed_containers_open:
  assumes "suite_ok S" and "open_container_bytes S container kek wrap_nonce wrapped = Inr (h, plaintext)"
  shows "\<exists>dek cs body. plaintext = concat cs \<and> wrap_dek S dek kek wrap_nonce (header_encode h) = Inr wrapped
    \<and> seal_stream S (header_encode h) dek (hd_stream_nonce h) 0 cs = Inr body
    \<and> container = header_encode h @ body
    \<and> hd_digest h = su_sha S plaintext \<and> hd_byte_size h = of_nat (length plaintext)"
  by (rule open_only_sealed [OF assms])

theorem only_sealed_containers_open_witness:
  "\<exists>dek cs. ''ab'' = concat cs \<and> wrap_dek (demo_blob_env 1) dek demo_kek (replicate 24 (byte 1))
     (header_encode (header_of (demo_blob_env 1) ''ab'' ''text'' ''k1'' (replicate 19 (byte 1))))
       = Inr (sl_wrapped_dek (demo_sealed_by 1))"
  using only_sealed_containers_open [OF demo_suite_env seal_then_open [OF demo_suite_env demo_seal_args demo_seal_with]]
  by blast

section \<open>Reading back\<close>



section \<open>Shredding\<close>

lemma move_keeps_tombstone:
  assumes "blob_move S kek st st'" and "blob_ok S kek st" and "map_of (bs_blob st) d = Some r" and "bl_tombstoned_at r \<noteq> None"
  shows "map_of (bs_blob st') d = Some r"
  using assms
proof (cases rule: blob_move.cases)
  case (sweep keep)
  have "keep (d, r)" using sweep(2) [of "(d, r)"] assms(3,4) map_of_SomeD by fastforce
  with sweep assms(2,3) show ?thesis by (simp add: blob_ok_def map_of_filter_distinct)
qed auto

lemma run_keeps_tombstone:
  assumes "(blob_move S kek)\<^sup>*\<^sup>* st st'" and "blob_ok S kek st" and "map_of (bs_blob st) d = Some r"
    and "bl_tombstoned_at r \<noteq> None"
  shows "map_of (bs_blob st') d = Some r"
  using assms(1)
proof (induction rule: rtranclp_induct)
  case (step st1 st2)
  then show ?case using move_keeps_tombstone [OF step(2) blob_moves_ok [OF step(1) assms(2)] _ assms(4)] by simp
qed (use assms in simp)

lemma tombstoned_refuses:
  assumes "map_of (bs_blob st) (digest_hex address) = Some r" and "bl_tombstoned_at r \<noteq> None" and "0 \<le> bl_byte_size r"
    and "is_sha256_hex (digest_hex address)" and "\<And>c. \<not> be_fails env c"
  shows "blob_read env address offset wanted st = Inl Blob_Tombstoned"
    and "blob_stat env address st = Inl Blob_Tombstoned"
  using assms by (auto simp: blob_read_def readable_def blob_stat_def read_row_def io_def describe_def blob_address_from_digest_def)

lemma tombstoned_not_committed:
  assumes "blob_ok S kek st" and "blob_env_ok S kek env" and "map_of (bs_blob st) (digest_hex address) = Some r"
    and "bl_tombstoned_at r \<noteq> None" and "blob_commit env i address st = (c, st')"
  shows "c \<noteq> Inr (d, dup)"
proof
  assume "c = Inr (d, dup)"
  with commit_moves [OF assms(1,2,5)] obtain p where "holds_blob S kek st' (digest_hex address) p"
    and m: "(blob_move S kek)\<^sup>*\<^sup>* st st'" by (auto simp: committed_def)
  with run_keeps_tombstone [OF m assms(1,3,4)] assms(4) show False by (auto simp: holds_blob_def)
qed

text \<open>
  C30: A shredded address stays shredded. Once a reachable row is tombstoned it keeps its tombstone
  through any further run; reading and describing it answer tombstoned, and no commit of those bytes
  succeeds again.
\<close>

theorem shredded_stays_shredded:
  assumes "blob_reachable S kek st" and "map_of (bs_blob st) (digest_hex address) = Some r"
    and "bl_tombstoned_at r \<noteq> None" and "blob_run S kek st st'" and "blob_env_ok S kek env" and "\<And>c. \<not> be_fails env c"
  shows "map_of (bs_blob st') (digest_hex address) = Some r
    \<and> blob_read env address offset wanted st' = Inl Blob_Tombstoned
    \<and> blob_stat env address st' = Inl Blob_Tombstoned
    \<and> fst (blob_commit env i address st') \<noteq> Inr (d, dup)"
proof -
  note ok = blob_reachable_ok [OF assms(1)]
  note run = blob_run_moves [OF assms(4) ok]
  have row: "map_of (bs_blob st') (digest_hex address) = Some r"
    using run_keeps_tombstone [OF _ ok assms(2,3)] run by blast
  then have "row_ok S kek (map_of (bs_container st') (digest_hex address)) (digest_hex address) r"
    using run by (auto simp: blob_ok_def)
  then have "0 \<le> bl_byte_size r" "is_sha256_hex (digest_hex address)" by (simp_all add: row_ok_def)
  with row tombstoned_refuses [OF row assms(3) _ _ assms(6)]
    tombstoned_not_committed [OF conjunct2 [OF run] assms(5) row assms(3)] show ?thesis
    by (metis prod.collapse)
qed

definition demo_shredded :: blob_state where
  "demo_shredded = demo_stored\<lparr>bs_blob := [(demo_digest, (demo_blob_row 1)\<lparr>bl_wrap_nonce := None,
     bl_wrapped_dek := None, bl_tombstoned_at := Some ''2026-01-02''\<rparr>)], bs_container := []\<rparr>"

lemma demo_shred_run: "blob_shred (demo_blob_env 1) demo_address demo_stored = (Inr (), demo_shredded)"
  by (simp add: blob_shred_def blob_commit_defs blob_run_defs demo_stored_def demo_shredded_def)

theorem shredded_stays_shredded_witness:
  "blob_read (demo_blob_env 2) demo_address 0 2 demo_shredded = Inl Blob_Tombstoned
   \<and> fst (blob_commit (demo_blob_env 2) (demo_upload 2) demo_address demo_shredded) \<noteq> Inr (demo_descriptor, True)"
proof -
  have r: "blob_reachable demo_suite demo_kek demo_shredded"
    by (rule blob_run.shred [OF demo_stored_reachable demo_blob_env_ok demo_shred_run])
  have "map_of (bs_blob demo_shredded) (digest_hex demo_address) = Some ((demo_blob_row 1)\<lparr>bl_wrap_nonce := None,
      bl_wrapped_dek := None, bl_tombstoned_at := Some ''2026-01-02''\<rparr>)"
    by (simp add: demo_shredded_def demo_digest_hex)
  from shredded_stays_shredded [OF r this _ blob_run.initial demo_blob_env_ok, of 2] show ?thesis
    by (simp add: demo_blob_fields)
qed

section \<open>Sweeping\<close>

text \<open>
  C29: Retention spares what is held. A sweep, whether it succeeds or fails half-way, keeps the row and
  the container of every blob that is pinned, or referred to by an event, a checkpoint, evidence that
  still holds its bytes or a retention class; a shred of a pinned blob is refused and changes nothing.
\<close>

theorem retention_spares_what_is_held:
  assumes "blob_reachable S kek st" and "map_of (bs_blob st) (digest_hex address) = Some r"
    and "pinned_blob st (digest_hex address) \<or> held_by_event hs (BLOB_ADDRESS_SCHEME @ digest_hex address)
      \<or> held_by_checkpoint hs (BLOB_ADDRESS_SCHEME @ digest_hex address)
      \<or> held_by_evidence env hs (BLOB_ADDRESS_SCHEME @ digest_hex address)
      \<or> held_by_class env hs (BLOB_ADDRESS_SCHEME @ digest_hex address)"
  shows "(let st' = snd (blob_sweep env hs st) in
      map_of (bs_blob st') (digest_hex address) = Some r
      \<and> map_of (bs_container st') (digest_hex address) = map_of (bs_container st) (digest_hex address))
    \<and> (pinned_blob st (digest_hex address) \<and> bl_tombstoned_at r = None \<and> \<not> be_fails env ''read blob row'' \<longrightarrow>
         blob_shred env address st = (Inl Blob_Pinned, st))"
proof -
  note ok = blob_reachable_ok [OF assms(1)]
  have row: "is_sha256_hex (digest_hex address)" "0 \<le> bl_byte_size r"
    using ok assms(2) by (auto simp: blob_ok_def row_ok_def)
  obtain w st' where run: "blob_sweep env hs st = (w, st')" by fastforce
  have "\<not> unreferenced env hs st (digest_hex address, r)" using assms(3) by (auto simp: unreferenced_def Let_def)
  from sweep_moves(2) [OF ok run assms(2) this] row assms(2) run show ?thesis
    by (auto simp: blob_shred_def read_row_def io_def describe_def blob_address_from_digest_def Let_def)
qed

theorem retention_spares_what_is_held_witness:
  "\<exists>hs. map_of (bs_blob (snd (blob_sweep (demo_blob_env 1) hs demo_stored))) demo_digest = Some (demo_blob_row 1)"
proof -
  let ?hs = "\<lparr>ho_events = [], ho_checkpoints = [\<lparr>cp_schema_version = 1, cp_through_sequence = 1,
    cp_projection_hash = demo_digest, cp_records_ref = \<lparr>ref_digest = BLOB_ADDRESS_SCHEME @ demo_digest,
      ref_media_type = ''text'', ref_byte_size = 2, ref_retention_class = None, ref_evidence_pin = None\<rparr>,
    cp_created_at = ''2026-01-02''\<rparr>], ho_evidence = [], ho_context = []\<rparr>"
  have "map_of (bs_blob demo_stored) (digest_hex demo_address) = Some (demo_blob_row 1)"
    by (simp add: demo_stored_def demo_digest_hex)
  from retention_spares_what_is_held [OF demo_stored_reachable this, of ?hs "demo_blob_env 1"] show ?thesis
    by (intro exI [of _ ?hs]) (simp add: held_by_checkpoint_def demo_digest_hex Let_def)
qed

section \<open>Two commits of the same bytes\<close>

lemma demo_tag_nonce:
  "demo_tag kek (drop 50 (header_encode (header_of (demo_blob_env n) p m k nonce))) = demo_tag kek (take 8 nonce)"
  if "length nonce = 19" for n p m k nonce
  using that by (simp add: header_encode_def header_of_def demo_blob_fields demo_tag_def)

abbreviation demo_header :: "nat \<Rightarrow> header" where
  "demo_header n \<equiv> header_of (demo_blob_env n) ''ab'' ''text'' ''k1'' (replicate 19 (byte n))"

lemma seal_with_wrapped:
  assumes "seal_with S p m kek kid dek wn n = Inr sl"
  shows "prefix (header_encode (header_of S p m kid n)) (sl_container sl)
    \<and> wrap_dek S dek kek wn (header_encode (header_of S p m kid n)) = Inr (sl_wrapped_dek sl)"
  using assms by (auto simp: seal_with_def Let_def result_simps)

lemma demo_sealed_wrap:
  "sl_wrapped_dek (demo_sealed_by n) = replicate 32 (byte n) @ demo_tag demo_kek (replicate 8 (byte n))"
  "prefix (header_encode (demo_header n)) (sl_container (demo_sealed_by n))"
proof -
  have "demo_tag demo_kek (drop 50 (header_encode (demo_header n))) = demo_tag demo_kek (replicate 8 (byte n))"
    by (subst demo_tag_nonce) simp_all
  with seal_with_wrapped [OF demo_seal_with [of n]] show "sl_wrapped_dek (demo_sealed_by n) = replicate 32 (byte n) @ demo_tag demo_kek (replicate 8 (byte n))"
    and "prefix (header_encode (demo_header n)) (sl_container (demo_sealed_by n))"
    by (auto simp: wrap_dek_def demo_blob_fields demo_seal_def result_simps)
qed

lemma demo_header_ok: "header_ok (demo_header n)"
  by (simp add: header_ok_def header_of_def demo_blob_fields container_sizes utf8_lead_def in_octets_def octet_def)

lemma demo_opens:
  assumes "map_of (bs_container st) demo_digest = Some (sl_container (demo_sealed_by n))"
  shows "\<exists>body. open_container (demo_blob_env m) demo_descriptor st
    = Inr (header_encode (demo_header n) @ body, demo_header n, header_encode (demo_header n))"
proof -
  obtain body where c: "sl_container (demo_sealed_by n) = header_encode (demo_header n) @ body"
    using demo_sealed_wrap(2) [of n] by (auto simp: prefix_def)
  have "length (header_encode (demo_header n)) = header_len ''text'' ''k1''"
    using length_header_encode [OF demo_header_ok [of n]] by (simp add: header_of_def)
  with assms c header_roundtrip [OF demo_header_ok [of n], of "[]"] show ?thesis
    by (simp add: open_container_def io_def demo_blob_fields demo_descriptor_def demo_digest_hex
        read_exact_def slice_of_def Let_def header_of_def)
qed

definition demo_torn :: blob_state where
  "demo_torn = demo_stored\<lparr>bs_container := [(demo_digest, sl_container (demo_sealed_by 2))]\<rparr>"

lemma demo_torn_read: "blob_read (demo_blob_env 3) demo_address 0 2 demo_torn = Inl Blob_Integrity"
proof -
  let ?head = "header_encode (demo_header 2)"
  obtain body where "open_container (demo_blob_env 3) demo_descriptor demo_torn = Inr (?head @ body, demo_header 2, ?head)"
    using demo_opens [of demo_torn 2 3] by (auto simp: demo_torn_def)
  moreover have "readable (demo_blob_env 3) demo_address demo_torn = Inr (demo_descriptor, demo_blob_row 1)"
    by (simp add: readable_def blob_commit_defs blob_run_defs demo_torn_def demo_stored_def)
  moreover have "key_material (demo_blob_row 1) = Inr (replicate 24 (byte 1), sl_wrapped_dek (demo_sealed_by 1))"
    by (simp add: key_material_def demo_blob_row_def demo_sealed_wrap container_sizes)
  moreover have "unwrap_dek (demo_blob_env 3) (sl_wrapped_dek (demo_sealed_by 1)) demo_kek n ?head = Inl Blob_Integrity" for n
  proof -
    have "demo_tag demo_kek (replicate 8 (byte i)) ! 8 = byte i" for i by (simp add: demo_tag_def nth_append demo_kek_def)
    from this [of 1] this [of 2] have "demo_tag demo_kek (replicate 8 (byte 1)) \<noteq> demo_tag demo_kek (replicate 8 (byte 2))"
      by (auto simp: byte_def)
    moreover have "demo_tag demo_kek (drop 50 ?head) = demo_tag demo_kek (replicate 8 (byte 2))"
      by (subst demo_tag_nonce) simp_all
    ultimately show ?thesis by (simp add: unwrap_dek_def demo_blob_fields demo_unseal_def demo_sealed_wrap)
  qed
  ultimately show ?thesis
    by (simp add: blob_read_def demo_descriptor_def Let_def BLOB_CHUNK_BYTES_def header_of_def demo_blob_fields)
qed


section \<open>Rotating the key\<close>


definition demo_new_kek :: string where "demo_new_kek = replicate 32 (byte 4)"

lemma demo_rotatable: "rotatable demo_suite demo_kek demo_new_kek"
proof -
  have tags: "octet (demo_tag demo_kek s ! 0) = 3" "octet (demo_tag demo_new_kek s ! 0) = 4" for s
    by (simp_all add: demo_tag_def nth_append demo_kek_def demo_new_kek_def octet_def byte_def)
  have "demo_tag demo_new_kek s \<noteq> demo_tag demo_kek s" for s using tags(1) [of s] tags(2) [of s] by auto
  then show ?thesis by (auto simp: rotatable_def demo_suite_def demo_seal_def)
qed


lemma demo_stored_holds: "holds_blob demo_suite demo_kek demo_stored demo_digest ''ab''"
proof -
  have "seal_args_ok ''ab'' ''text'' ''k1'' (replicate 19 (byte 1))"
    by (simp add: seal_args_ok_def container_sizes utf8_lead_def in_octets_def octet_def)
  then have "stored_as (demo_blob_env 1) demo_kek (sl_container (demo_sealed_by 1)) (demo_blob_row 1) ''ab''"
    using demo_seal_with [of 1] unfolding stored_as_def
    by (intro exI [of _ "replicate 32 (byte 1)"] exI [of _ "replicate 24 (byte 1)"] exI [of _ "replicate 19 (byte 1)"]
        exI [of _ "demo_sealed_by 1"]) (simp add: demo_blob_row_def container_sizes)
  moreover have "suite.truncate (demo_blob_env 1) = demo_suite" using demo_blob_env_ok [of 1] by (simp add: blob_env_ok_def)
  ultimately have "stored_as demo_suite demo_kek (sl_container (demo_sealed_by 1)) (demo_blob_row 1) ''ab''"
    using stored_as_truncate [of "demo_blob_env 1"] by metis
  then show ?thesis
    by (simp add: holds_blob_def demo_stored_def demo_blob_row_def demo_digest_def demo_suite_def)
qed

lemma demo_rotation_run: "\<exists>st'. rewrap_all (demo_blob_env 2) demo_new_kek demo_stored = (Inr (1, 0), st')"
proof -
  let ?env = "demo_blob_env 2" and ?head = "header_encode (demo_header 1)"
  obtain body where "open_container ?env demo_descriptor demo_stored = Inr (?head @ body, demo_header 1, ?head)"
    using demo_opens [of demo_stored 1 2] by (auto simp: demo_stored_def)
  moreover have "readable ?env demo_address demo_stored = Inr (demo_descriptor, demo_blob_row 1)"
    by (simp add: readable_def blob_commit_defs blob_run_defs demo_stored_def)
  moreover have "key_material (demo_blob_row 1) = Inr (replicate 24 (byte 1), sl_wrapped_dek (demo_sealed_by 1))"
    by (simp add: key_material_def demo_blob_row_def demo_sealed_wrap container_sizes)
  moreover have "demo_tag demo_kek (drop 50 ?head) = demo_tag demo_kek (replicate 8 (byte 1))"
    by (subst demo_tag_nonce) simp_all
  then obtain w where "rewrap ?env ?head demo_kek demo_new_kek (replicate 24 (byte 1)) (sl_wrapped_dek (demo_sealed_by 1))
      (replicate 24 (byte 2)) = Inr w"
    by (simp add: rewrap_header [OF demo_header_ok] unwrap_dek_def wrap_dek_def demo_blob_fields demo_unseal_def
        demo_seal_def demo_sealed_wrap container_sizes)
  ultimately have "\<exists>st'. rewrap_one ?env demo_new_kek demo_address demo_stored = (Inr True, st')"
    by (simp add: rewrap_one_def io_def demo_blob_fields Let_def)
  moreover have "blob_address_from_digest demo_digest = Inr demo_address"
    by (simp add: blob_address_from_digest_def demo_digest_hex demo_address_def)
  ultimately show ?thesis
    by (auto simp: rewrap_all_def io_def demo_blob_fields demo_stored_def demo_blob_row_def)
qed


end
