(* ===== verification/Gw_Canon.thy ===== *)
theory Gw_Canon
  imports Gw_Schema "HOL-Library.List_Lexorder" "HOL-Library.Char_ord" "HOL-Library.Product_Lexorder"
    "HOL-Library.Multiset"
begin

text \<open>
  Projection kinds and records (\<open>gwk-domain/src/protocol.rs\<close>) and the canonical bytes of the
  projection tables (\<open>gwk-kernel/src/checkpoint.rs\<close>): one line per row, tables in alphabetical order,
  rows in key order, the free-form JSON values with their object keys sorted. The serializer and the
  database's collation are the fields of \<open>records_env\<close>.
\<close>

section \<open>Kinds and records\<close>

datatype projection_kind =
    Kind_Task | Kind_Attempt | Kind_EngineSession | Kind_Message | Kind_Command | Kind_Gate
  | Kind_AuthorityGrant | Kind_Receipt | Kind_Evidence | Kind_AttentionItem | Kind_Worktree | Kind_Lease
  | Kind_DispatchNode | Kind_OrchestratorCheckpoint | Kind_IngestedRecord | Kind_CostEntry
  | Kind_WorkspaceNode | Kind_WorkflowRun | Kind_PtySession | Kind_PtySessionTemplate
  | Kind_ContextRelease | Kind_ContextObservation | Kind_ContextFinalization

definition projection_kinds :: "projection_kind list" where
  "projection_kinds =
     [Kind_Task, Kind_Attempt, Kind_EngineSession, Kind_Message, Kind_Command, Kind_Gate,
      Kind_AuthorityGrant, Kind_Receipt, Kind_Evidence, Kind_AttentionItem, Kind_Worktree, Kind_Lease,
      Kind_DispatchNode, Kind_OrchestratorCheckpoint, Kind_IngestedRecord, Kind_CostEntry,
      Kind_WorkspaceNode, Kind_WorkflowRun, Kind_PtySession, Kind_PtySessionTemplate,
      Kind_ContextRelease, Kind_ContextObservation, Kind_ContextFinalization]"

definition served_in_v1 :: "projection_kind \<Rightarrow> bool" where
  "served_in_v1 k = (case k of
       Kind_ContextRelease \<Rightarrow> False | Kind_ContextObservation \<Rightarrow> False | Kind_ContextFinalization \<Rightarrow> False
     | _ \<Rightarrow> True)"

fun projection_kind_str :: "projection_kind \<Rightarrow> string" where
  "projection_kind_str Kind_Task = ''task''"
| "projection_kind_str Kind_Attempt = ''attempt''"
| "projection_kind_str Kind_EngineSession = ''engine_session''"
| "projection_kind_str Kind_Message = ''message''"
| "projection_kind_str Kind_Command = ''command''"
| "projection_kind_str Kind_Gate = ''gate''"
| "projection_kind_str Kind_AuthorityGrant = ''authority_grant''"
| "projection_kind_str Kind_Receipt = ''receipt''"
| "projection_kind_str Kind_Evidence = ''evidence''"
| "projection_kind_str Kind_AttentionItem = ''attention_item''"
| "projection_kind_str Kind_Worktree = ''worktree''"
| "projection_kind_str Kind_Lease = ''lease''"
| "projection_kind_str Kind_DispatchNode = ''dispatch_node''"
| "projection_kind_str Kind_OrchestratorCheckpoint = ''orchestrator_checkpoint''"
| "projection_kind_str Kind_IngestedRecord = ''ingested_record''"
| "projection_kind_str Kind_CostEntry = ''cost_entry''"
| "projection_kind_str Kind_WorkspaceNode = ''workspace_node''"
| "projection_kind_str Kind_WorkflowRun = ''workflow_run''"
| "projection_kind_str Kind_PtySession = ''pty_session''"
| "projection_kind_str Kind_PtySessionTemplate = ''pty_session_template''"
| "projection_kind_str Kind_ContextRelease = ''context_release''"
| "projection_kind_str Kind_ContextObservation = ''context_observation''"
| "projection_kind_str Kind_ContextFinalization = ''context_finalization''"

text \<open>A record is a row with its key; the three Context supplements have no table in this model.\<close>

datatype projection_record =
    Rec_Task string task_row
  | Rec_Attempt string attempt_row
  | Rec_EngineSession string engine_session_row
  | Rec_Message string message_row
  | Rec_Command string command_row
  | Rec_Gate string gate_row
  | Rec_AuthorityGrant string authority_grant_row
  | Rec_Receipt string receipt_row
  | Rec_Evidence string evidence_row
  | Rec_AttentionItem string attention_item_row
  | Rec_Worktree string worktree_row
  | Rec_Lease string lease_row
  | Rec_DispatchNode string dispatch_node_row
  | Rec_OrchestratorCheckpoint string orchestrator_checkpoint
  | Rec_IngestedRecord string ingested_record_row
  | Rec_CostEntry string cost_entry_row
  | Rec_WorkspaceNode string workspace_node_row
  | Rec_WorkflowRun string workflow_run_row
  | Rec_PtySession string pty_session_row
  | Rec_PtySessionTemplate string pty_template_row

fun record_kind :: "projection_record \<Rightarrow> projection_kind" where
  "record_kind (Rec_Task _ _) = Kind_Task"
| "record_kind (Rec_Attempt _ _) = Kind_Attempt"
| "record_kind (Rec_EngineSession _ _) = Kind_EngineSession"
| "record_kind (Rec_Message _ _) = Kind_Message"
| "record_kind (Rec_Command _ _) = Kind_Command"
| "record_kind (Rec_Gate _ _) = Kind_Gate"
| "record_kind (Rec_AuthorityGrant _ _) = Kind_AuthorityGrant"
| "record_kind (Rec_Receipt _ _) = Kind_Receipt"
| "record_kind (Rec_Evidence _ _) = Kind_Evidence"
| "record_kind (Rec_AttentionItem _ _) = Kind_AttentionItem"
| "record_kind (Rec_Worktree _ _) = Kind_Worktree"
| "record_kind (Rec_Lease _ _) = Kind_Lease"
| "record_kind (Rec_DispatchNode _ _) = Kind_DispatchNode"
| "record_kind (Rec_OrchestratorCheckpoint _ _) = Kind_OrchestratorCheckpoint"
| "record_kind (Rec_IngestedRecord _ _) = Kind_IngestedRecord"
| "record_kind (Rec_CostEntry _ _) = Kind_CostEntry"
| "record_kind (Rec_WorkspaceNode _ _) = Kind_WorkspaceNode"
| "record_kind (Rec_WorkflowRun _ _) = Kind_WorkflowRun"
| "record_kind (Rec_PtySession _ _) = Kind_PtySession"
| "record_kind (Rec_PtySessionTemplate _ _) = Kind_PtySessionTemplate"

section \<open>Sorted object keys\<close>

fun sort_object_keys :: "json \<Rightarrow> json" where
  "sort_object_keys (JObject entries) =
     JObject (map (\<lambda>(k, nested). (k, sort_object_keys nested)) (sort_key fst entries))"
| "sort_object_keys (JArray items) = JArray (map sort_object_keys items)"
| "sort_object_keys v = v"

text \<open>A \<open>serde_json\<close> map has each key once; two values are the same when their maps agree key by key.\<close>

fun json_wf :: "json \<Rightarrow> bool" where
  "json_wf (JObject entries) \<longleftrightarrow> distinct (map fst entries) \<and> (\<forall>(k, v) \<in> set entries. json_wf v)"
| "json_wf (JArray items) \<longleftrightarrow> (\<forall>v \<in> set items. json_wf v)"
| "json_wf v \<longleftrightarrow> True"

function (sequential) same_json :: "json \<Rightarrow> json \<Rightarrow> bool" where
  "same_json (JObject es) (JObject fs) \<longleftrightarrow> set (map fst es) = set (map fst fs)
     \<and> (\<forall>(k, v) \<in> set es. case map_of fs k of None \<Rightarrow> False | Some w \<Rightarrow> same_json v w)"
| "same_json (JArray xs) (JArray ys) \<longleftrightarrow> length xs = length ys \<and> (\<forall>(x, y) \<in> set (zip xs ys). same_json x y)"
| "same_json v w \<longleftrightarrow> v = w"
  by pat_completeness auto
termination
proof (relation "measure (\<lambda>(v, _). size v)", goal_cases)
  case (2 es fs x k v w)
  then have "(k, v) \<in> set es" by simp
  then show ?case using size_list_estimation' [of "(k, v)" es "size v" "size_prod (\<lambda>_. 0) size"]
    by (simp add: less_Suc_eq_le)
next
  case (3 xs ys z x y)
  then have "x \<in> set xs" by (auto dest: set_zip_leftD)
  then show ?case by (auto simp: less_Suc_eq_le intro!: size_list_estimation' [where f = size])
qed simp

lemma sort_key_keys:
  fixes es :: "(string \<times> 'v) list"
  shows "map fst (sort_key fst es) = sort (map fst es)"
  by (rule properties_for_sort [symmetric]) (simp_all add: mset_map)

lemma sort_entries:
  fixes es :: "(string \<times> 'v) list"
  assumes "distinct (map fst es)"
  shows "sort_key fst es = map (\<lambda>k. (k, the (map_of es k))) (sort (map fst es))"
proof -
  have "map (\<lambda>k. (k, the (map_of es k))) (map fst (sort_key fst es)) = map id (sort_key fst es)"
    unfolding map_map by (rule map_cong) (use map_of_is_SomeI [OF assms] in auto)
  then show ?thesis by (simp only: sort_key_keys list.map_id)
qed

lemma sorted_object:
  assumes "distinct (map fst es)"
  shows "sort_object_keys (JObject es)
    = JObject (map (\<lambda>k. (k, sort_object_keys (the (map_of es k)))) (sort (map fst es)))"
  by (simp add: sort_entries [OF assms] comp_def)

lemma sorted_keys_eq:
  fixes xs ys :: "string list"
  assumes "distinct xs" and "distinct ys"
  shows "sort xs = sort ys \<longleftrightarrow> set xs = set ys"
  using assms by (metis set_sort sorted_list_of_set_sort_remdups distinct_remdups_id)

lemma map_pairs_eq:
  "map (\<lambda>k. (k, f k)) xs = map (\<lambda>k. (k, g k)) ys \<longleftrightarrow> xs = ys \<and> (\<forall>k \<in> set xs. f k = g k)"
proof
  assume eq: "map (\<lambda>k. (k, f k)) xs = map (\<lambda>k. (k, g k)) ys"
  from arg_cong [OF eq, of "map fst"] have "xs = ys" by (simp add: comp_def)
  with eq show "xs = ys \<and> (\<forall>k \<in> set xs. f k = g k)" by simp
qed auto

lemma sort_object_keys_scalar [simp]:
  "sort_object_keys w = JNull \<longleftrightarrow> w = JNull" "sort_object_keys w = JBool b \<longleftrightarrow> w = JBool b"
  "sort_object_keys w = JNumber n \<longleftrightarrow> w = JNumber n" "sort_object_keys w = JString t \<longleftrightarrow> w = JString t"
  "JNull = sort_object_keys w \<longleftrightarrow> JNull = w" "JBool b = sort_object_keys w \<longleftrightarrow> JBool b = w"
  "JNumber n = sort_object_keys w \<longleftrightarrow> JNumber n = w" "JString t = sort_object_keys w \<longleftrightarrow> JString t = w"
  by (cases w; simp)+

text \<open>
  C36: sorting the keys is canonical. Two values come out as the same bytes to serialize exactly when
  they are the same JSON value, whatever order their objects' keys were written in, at any depth.
\<close>

theorem sort_object_keys_canonical:
  "json_wf a \<Longrightarrow> json_wf b \<Longrightarrow> sort_object_keys a = sort_object_keys b \<longleftrightarrow> same_json a b"
proof (induction a b rule: same_json.induct)
  case (1 es fs)
  then have d: "distinct (map fst es)" "distinct (map fst fs)" by auto
  have v: "sort_object_keys v = sort_object_keys w \<longleftrightarrow> same_json v w"
    if "(k, v) \<in> set es" "map_of fs k = Some w" for k v w
  proof (rule "1.IH" [OF that(1) refl that(2)])
    show "json_wf v" "json_wf w" using "1.prems" that map_of_SomeD [OF that(2)] by fastforce+
  qed
  have "sort_object_keys (JObject es) = sort_object_keys (JObject fs) \<longleftrightarrow> set (map fst es) = set (map fst fs)
      \<and> (\<forall>k \<in> set (map fst es). sort_object_keys (the (map_of es k)) = sort_object_keys (the (map_of fs k)))"
    unfolding sorted_object [OF d(1)] sorted_object [OF d(2)] json.inject map_pairs_eq sorted_keys_eq [OF d] set_sort ..
  also have "\<dots> \<longleftrightarrow> same_json (JObject es) (JObject fs)"
  proof (cases "set (map fst es) = set (map fst fs)")
    case True
    have "(\<forall>k \<in> set (map fst es). sort_object_keys (the (map_of es k)) = sort_object_keys (the (map_of fs k)))
        \<longleftrightarrow> (\<forall>(k, u) \<in> set es. sort_object_keys u = sort_object_keys (the (map_of fs k)))"
      using map_of_is_SomeI [OF d(1)] by fastforce
    also have "\<dots> \<longleftrightarrow> (\<forall>(k, u) \<in> set es. case map_of fs k of None \<Rightarrow> False | Some w \<Rightarrow> same_json u w)"
    proof (intro ball_cong refl)
      fix x assume x: "x \<in> set es"
      obtain k u where ku: "x = (k, u)" by (cases x)
      with x True have "k \<in> fst ` set fs" by force
      then obtain w where "map_of fs k = Some w" by (metis map_of_eq_None_iff option.exhaust)
      with v x ku show "(case x of (k, u) \<Rightarrow> sort_object_keys u = sort_object_keys (the (map_of fs k)))
          = (case x of (k, u) \<Rightarrow> case map_of fs k of None \<Rightarrow> False | Some w \<Rightarrow> same_json u w)" by auto
    qed
    finally show ?thesis unfolding same_json.simps using True by blast
  qed auto
  finally show ?case .
next
  case (2 xs ys)
  have "map sort_object_keys xs = map sort_object_keys ys \<longleftrightarrow> length xs = length ys
      \<and> (\<forall>(x, y) \<in> set (zip xs ys). sort_object_keys x = sort_object_keys y)"
    by (auto simp: list_eq_iff_zip_eq [of "map sort_object_keys xs"] zip_map_map)
  also have "\<dots> \<longleftrightarrow> length xs = length ys \<and> (\<forall>(x, y) \<in> set (zip xs ys). same_json x y)"
    using 2 by (fastforce dest: set_zip_leftD set_zip_rightD)
  finally show ?case by simp
qed (simp_all)

theorem sort_object_keys_canonical_witness:
  "sort_object_keys (JObject [(''b'', JNull), (''a'', JArray [JObject [(''d'', JNull), (''c'', JBool True)]])])
     = sort_object_keys (JObject [(''a'', JArray [JObject [(''c'', JBool True), (''d'', JNull)]]), (''b'', JNull)])"
  by (subst sort_object_keys_canonical) (simp_all add: insert_commute)

section \<open>The canonical records\<close>

record records_env =
  re_sha :: "string \<Rightarrow> string"
  re_line :: "projection_record \<Rightarrow> string option"
  re_reads :: "string \<Rightarrow> bool"
  re_collate :: "string \<Rightarrow> string"

record projection =
  pj_tag :: string
  pj_key :: string
  pj_derived :: bool
  pj_rows :: "(string \<Rightarrow> string) \<Rightarrow> json db \<Rightarrow> projection_record list"

text \<open>\<open>ORDER BY\<close> the key under the database's collation, which breaks ties by the bytes of the key.\<close>

definition ordered_rows :: "(string \<Rightarrow> 'r \<Rightarrow> projection_record) \<Rightarrow> (string \<Rightarrow> string) \<Rightarrow> 'r table \<Rightarrow> projection_record list" where
  "ordered_rows shape collate t = map (\<lambda>(i, r). shape i r) (sort_key (\<lambda>(i, _). (collate i, i)) t)"

definition derived_projection ::
  "string \<Rightarrow> string \<Rightarrow> ((string \<Rightarrow> string) \<Rightarrow> json db \<Rightarrow> projection_record list) \<Rightarrow> projection" where
  "derived_projection tag key rows = \<lparr>pj_tag = tag, pj_key = key, pj_derived = True, pj_rows = rows\<rparr>"

definition written_beside_the_log ::
  "string \<Rightarrow> string \<Rightarrow> ((string \<Rightarrow> string) \<Rightarrow> json db \<Rightarrow> projection_record list) \<Rightarrow> projection" where
  "written_beside_the_log tag key rows = \<lparr>pj_tag = tag, pj_key = key, pj_derived = False, pj_rows = rows\<rparr>"

definition PROJECTIONS :: "projection list" where
  "PROJECTIONS =
     [derived_projection ''attempt'' ''id'' (\<lambda>c db. ordered_rows Rec_Attempt c (t_attempt db)),
      written_beside_the_log ''attention_item'' ''id'' (\<lambda>c db. ordered_rows Rec_AttentionItem c (t_attention_item db)),
      derived_projection ''authority_grant'' ''id'' (\<lambda>c db. ordered_rows Rec_AuthorityGrant c (t_authority_grant db)),
      derived_projection ''command'' ''id'' (\<lambda>c db. ordered_rows Rec_Command c (t_command db)),
      derived_projection ''cost_entry'' ''id'' (\<lambda>c db. ordered_rows Rec_CostEntry c (t_cost_entry db)),
      derived_projection ''dispatch_node'' ''id'' (\<lambda>c db. ordered_rows Rec_DispatchNode c (t_dispatch_node db)),
      derived_projection ''engine_session'' ''id'' (\<lambda>c db. ordered_rows Rec_EngineSession c (t_engine_session db)),
      derived_projection ''evidence'' ''id'' (\<lambda>c db. ordered_rows Rec_Evidence c (t_evidence db)),
      derived_projection ''gate'' ''id'' (\<lambda>c db. ordered_rows Rec_Gate c (t_gate db)),
      derived_projection ''ingested_record'' ''id'' (\<lambda>c db. ordered_rows Rec_IngestedRecord c (t_ingested_record db)),
      derived_projection ''lease'' ''id'' (\<lambda>c db. ordered_rows Rec_Lease c (t_lease db)),
      derived_projection ''message'' ''id'' (\<lambda>c db. ordered_rows Rec_Message c (t_message db)),
      derived_projection ''orchestrator_checkpoint'' ''orchestrator_id''
        (\<lambda>c db. ordered_rows (\<lambda>i r. Rec_OrchestratorCheckpoint i (oc_body r)) c (t_checkpoint db)),
      derived_projection ''pty_session'' ''id'' (\<lambda>c db. ordered_rows Rec_PtySession c (t_pty_session db)),
      derived_projection ''pty_session_template'' ''name'' (\<lambda>c db. ordered_rows Rec_PtySessionTemplate c (t_pty_template db)),
      written_beside_the_log ''receipt'' ''id'' (\<lambda>c db. ordered_rows Rec_Receipt c (t_receipt db)),
      derived_projection ''task'' ''id'' (\<lambda>c db. ordered_rows Rec_Task c (t_task db)),
      derived_projection ''workflow_run'' ''id'' (\<lambda>c db. ordered_rows Rec_WorkflowRun c (t_workflow_run db)),
      derived_projection ''workspace_node'' ''id'' (\<lambda>c db. ordered_rows Rec_WorkspaceNode c (t_workspace_node db)),
      derived_projection ''worktree'' ''id'' (\<lambda>c db. ordered_rows Rec_Worktree c (t_worktree db))]"

definition read_key :: "projection_kind \<Rightarrow> string option" where
  "read_key kind = map_option pj_key (find (\<lambda>p. pj_tag p = projection_kind_str kind) PROJECTIONS)"

text \<open>One page of a projection: keys after the cursor in byte order, at most \<open>n\<close> rows, or the one row named.\<close>

definition read_rows :: "'r table \<Rightarrow> string option \<Rightarrow> string option \<Rightarrow> nat \<Rightarrow> (string \<times> 'r) list" where
  "read_rows t cursor key n =
     take n (sort_key fst (filter (\<lambda>(i, _). (case cursor of None \<Rightarrow> True | Some c \<Rightarrow> c < i)
       \<and> (case key of None \<Rightarrow> True | Some k \<Rightarrow> i = k)) t))"

definition canonical_record :: "projection_record \<Rightarrow> projection_record" where
  "canonical_record r =
     (case r of
        Rec_Message i m \<Rightarrow> Rec_Message i (m\<lparr>ms_payload := map_option sort_object_keys (ms_payload m)\<rparr>)
      | Rec_IngestedRecord i g \<Rightarrow> Rec_IngestedRecord i (g\<lparr>ir_payload := sort_object_keys (ir_payload g)\<rparr>)
      | _ \<Rightarrow> r)"

definition newline :: char where "newline = byte 10"

definition canonical_line :: "'m records_env_scheme \<Rightarrow> projection_record \<Rightarrow> refusal + string" where
  "canonical_line re r =
     and_then (ok_or storage_failed (re_line re (canonical_record r))) (\<lambda>s. Inr (s @ [newline]))"

fun canonical_lines :: "'m records_env_scheme \<Rightarrow> projection_record list \<Rightarrow> refusal + string" where
  "canonical_lines re [] = Inr []"
| "canonical_lines re (r # rs) =
     and_then (canonical_line re r) (\<lambda>l. and_then (canonical_lines re rs) (\<lambda>ls. Inr (l @ ls)))"

fun records_from ::
  "('p, 'n) store_env_scheme \<Rightarrow> 'm records_env_scheme \<Rightarrow> bool \<Rightarrow> projection list \<Rightarrow> json db \<Rightarrow> refusal + string" where
  "records_from env re derived_only [] db = Inr []"
| "records_from env re derived_only (p # ps) db =
     (if derived_only \<and> \<not> pj_derived p then records_from env re derived_only ps db
      else
        and_then (sql env (''read '' @ pj_tag p @ '' projections'')) (\<lambda>_.
        and_then (canonical_lines re (pj_rows p (re_collate re) db)) (\<lambda>out.
        and_then (records_from env re derived_only ps db) (\<lambda>rest. Inr (out @ rest)))))"

definition canonical_records ::
  "('p, 'n) store_env_scheme \<Rightarrow> 'm records_env_scheme \<Rightarrow> json db \<Rightarrow> refusal + string" where
  "canonical_records env re db = records_from env re False PROJECTIONS db"

definition derived_records ::
  "('p, 'n) store_env_scheme \<Rightarrow> 'm records_env_scheme \<Rightarrow> json db \<Rightarrow> refusal + string" where
  "derived_records env re db = records_from env re True PROJECTIONS db"


end
