(* ===== verification/Gw_Recover.thy ===== *)
theory Gw_Recover
  imports Gw_Reach
begin

text \<open>
  Replaying the log (\<open>gwk-kernel/src/recover.rs\<close>). \<open>replay_loop\<close> reads the log page by page and
  hands every event but genesis to the projector, into an empty database. The log rebuilds the
  derived projections of any kernel, provided every attention item its events touch was raised by
  an event; an item raised by a page has no event behind it.
\<close>

section \<open>The replay loop\<close>

definition is_genesis :: "json event_envelope \<Rightarrow> bool" where
  "is_genesis e \<longleftrightarrow> aggregate_type e = KERNEL_AGGREGATE \<and> event_type e = GENESIS_EVENT_TYPE"

fun replay_page ::
  "'m kernel_env_scheme \<Rightarrow> json event_envelope list \<Rightarrow> nat \<times> json db \<Rightarrow> refusal + nat \<times> json db" where
  "replay_page env [] acc = Inr acc"
| "replay_page env (e # es) (n, target) =
     (if is_genesis e then replay_page env es (n, target)
      else and_then (apply_event env e target) (\<lambda>target1. replay_page env es (Suc n, target1)))"

fun replay_loop ::
  "'m kernel_env_scheme \<Rightarrow> json db \<Rightarrow> nat \<Rightarrow> u64 option \<Rightarrow> nat \<times> json db
     \<Rightarrow> (refusal + nat \<times> json db) option" where
  "replay_loop env source 0 cursor acc = None"
| "replay_loop env source (Suc fuel) cursor acc =
     (case read_page env source cursor REPLAY_PAGE of
        Inl _ \<Rightarrow> Some (Inl storage_failed)
      | Inr page \<Rightarrow>
          if page = [] then Some (Inr acc)
          else (case replay_page env page acc of
                  Inl refusal \<Rightarrow> Some (Inl refusal)
                | Inr acc1 \<Rightarrow>
                    if length page < REPLAY_PAGE then Some (Inr acc1)
                    else replay_loop env source fuel (Some (global_sequence (last page))) acc1))"

lemma replay_page_append:
  "replay_page env (xs @ ys) acc = and_then (replay_page env xs acc) (replay_page env ys)"
proof (induction xs arbitrary: acc)
  case (Cons e xs)
  obtain n target where "acc = (n, target)" by (cases acc)
  with Cons show ?case by (cases "apply_event env e target") simp_all
qed simp

lemma replay_loop_drain:
  assumes "drain (read_page env source) REPLAY_PAGE fuel cursor = Some (Inr es)"
  shows "replay_loop env source fuel cursor acc = Some (replay_page env es acc)"
  using assms
proof (induction fuel arbitrary: cursor acc es)
  case (Suc fuel)
  from Suc.prems obtain page where page: "read_page env source cursor REPLAY_PAGE = Inr page"
    by (auto split: sum.splits)
  show ?case
  proof (cases "page = [] \<or> length page < REPLAY_PAGE")
    case True
    with Suc.prems page show ?thesis by (auto split: if_splits sum.splits)
  next
    case False
    with Suc.prems page obtain rest where es: "es = page @ rest"
      and rest: "drain (read_page env source) REPLAY_PAGE fuel (Some (global_sequence (last page)))
        = Some (Inr rest)"
      by (auto split: option.splits sum.splits)
    from False page show ?thesis
      by (cases "replay_page env page acc") (simp_all add: es replay_page_append Suc.IH [OF rest])
  qed
qed simp

section \<open>What the projector reads of its surroundings\<close>

definition calm :: "kernel_env \<Rightarrow> kernel_env \<Rightarrow> bool" where
  "calm k env \<longleftrightarrow> speaks k env \<and> (\<forall>c. \<not> se_fails env c)"

lemma apply_command_env:
  assumes "apply_command env e c db = Inr db'" and "se_timestamptz env0 = se_timestamptz env"
    and "\<forall>x. \<not> se_fails env0 x"
  shows "apply_command env0 e c db = Inr db'"
  using assms
  by (cases c) (auto simp: apply_command_def Let_def project_defs statement_simps result_simps
      split: option.splits if_splits)

definition attention_command :: "kernel_command \<Rightarrow> string option" where
  "attention_command c =
     (case c of
        RaiseAttention i _ _ _ _ _ \<Rightarrow> Some i
      | ResolveAttention i _ \<Rightarrow> Some i
      | AckAttention i \<Rightarrow> Some i
      | MuteAttention i _ \<Rightarrow> Some i
      | UnmuteAttention i \<Rightarrow> Some i
      | _ \<Rightarrow> None)"

lemma apply_command_attention:
  assumes "attention_command c = None"
  shows "apply_command env e c (db\<lparr>t_attention_item := x\<rparr>)
    = map_sum id (\<lambda>d. d\<lparr>t_attention_item := x\<rparr>) (apply_command env e c db)"
  using assms
  by (cases c; cases db)
    (simp_all add: apply_command_def Let_def project_defs attention_command_def map_sum_and_then split: option.split)

section \<open>Rebuilding the derived tables\<close>

text \<open>The tables a replay can rebuild: all but those written beside the log.\<close>

definition derived :: "json db \<Rightarrow> json db" where
  "derived db = frame [] None [] [] (db\<lparr>t_attention_item := []\<rparr>)"

definition raised :: "json event_envelope list \<Rightarrow> string set" where
  "raised log = {aggregate_id e |e. e \<in> set log \<and> aggregate_type e = ''attention_item''
     \<and> event_type e = ''attention_raised''}"

definition touched :: "json event_envelope list \<Rightarrow> string set" where
  "touched log = {aggregate_id e |e. e \<in> set log \<and> aggregate_type e = ''attention_item''}"

definition restricts :: "string set \<Rightarrow> 'r table \<Rightarrow> 'r table \<Rightarrow> bool" where
  "restricts ids t live \<longleftrightarrow> distinct (map fst t) \<and> map_of t = map_of live |` ids"

lemma derived_target:
  assumes "derived target = derived db"
  shows "target = frame (pg_events target) (pg_writer target) (t_receipt target) (t_pty_delivery target)
    (db\<lparr>t_attention_item := t_attention_item target\<rparr>)"
  using assms by (cases target; cases db) (simp add: derived_def frame_def)

lemma derived_frame [simp]:
  "derived (frame es w rs ds db) = derived db" "derived (db\<lparr>t_attention_item := x\<rparr>) = derived db"
  by (simp_all add: derived_def frame_def)

lemma frame_attention [simp]: "t_attention_item (frame es w rs ds db) = t_attention_item db"
  by (simp add: frame_def)

lemma restricts_subset:
  assumes "restricts ids t live" shows "set t \<subseteq> set live"
proof
  fix x assume "x \<in> set t"
  moreover obtain i r where "x = (i, r)" by (cases x)
  ultimately have "map_of t i = Some r"
    using assms map_of_is_SomeI [of t i r] by (simp only: restricts_def)
  then have "map_of live i = Some r"
    using assms by (auto simp: restricts_def restrict_map_def split: if_splits)
  then show "x \<in> set live" using \<open>x = (i, r)\<close> by (simp add: map_of_SomeD)
qed

lemma restricts_update:
  assumes "restricts ids t live"
  shows "restricts (insert i ids) (AList.update i r t) (AList.update i r live)"
  using assms by (auto simp: restricts_def distinct_update restrict_map_def update_conv')

lemma attention_dedup_subset:
  "attention_dedup live kind s \<Longrightarrow> set t \<subseteq> set live \<Longrightarrow> attention_dedup t kind s"
  by (auto simp: attention_dedup_def list_all_iff split: option.splits)

text \<open>
  An attention command rewrites one row, and does the same to a table that agrees on that row; for
  a raise it is enough that the table holds fewer items.
\<close>

lemma attention_row:
  assumes "apply_command env e c db = Inr db'" and "attention_command c = Some i"
    and "se_timestamptz env0 = se_timestamptz env" and "\<forall>x. \<not> se_fails env0 x"
    and "set (t_attention_item target) \<subseteq> set (t_attention_item db)"
    and "map_of (t_attention_item target) i = map_of (t_attention_item db) i"
  shows "\<exists>r. db' = db\<lparr>t_attention_item := AList.update i r (t_attention_item db)\<rparr>
    \<and> apply_command env0 e c target = Inr (target\<lparr>t_attention_item := AList.update i r (t_attention_item target)\<rparr>)"
  using assms
  by (cases c) (auto simp: apply_command_def Let_def project_defs statement_simps result_simps
      attention_command_def intro: attention_dedup_subset split: option.splits if_splits)

lemma apply_command_rebuilds:
  assumes A: "apply_command env e c db = Inr dbA" and d: "derived target = derived db"
    and r: "restricts ids (t_attention_item target) (t_attention_item db)"
    and env: "se_timestamptz env0 = se_timestamptz env" "\<forall>x. \<not> se_fails env0 x"
    and i: "\<And>i. attention_command c = Some i \<Longrightarrow>
      map_of (t_attention_item target) i = map_of (t_attention_item db) i"
  shows "\<exists>target'. apply_command env0 e c target = Inr target' \<and> derived target' = derived dbA
    \<and> restricts (case attention_command c of None \<Rightarrow> ids | Some i \<Rightarrow> insert i ids)
        (t_attention_item target') (t_attention_item dbA)"
proof (cases "attention_command c")
  case None
  have "apply_command env0 e c db = Inr dbA" by (rule apply_command_env [OF A env])
  then have "apply_command env0 e c (db\<lparr>t_attention_item := t_attention_item target\<rparr>)
      = Inr (dbA\<lparr>t_attention_item := t_attention_item target\<rparr>)"
    by (simp add: apply_command_attention [OF None])
  then have "apply_command env0 e c target = Inr (frame (pg_events target) (pg_writer target)
      (t_receipt target) (t_pty_delivery target) (dbA\<lparr>t_attention_item := t_attention_item target\<rparr>))"
    by (subst derived_target [OF d]) (simp add: apply_command_frame)
  moreover have "t_attention_item dbA = t_attention_item db"
  proof -
    have "dbA = dbA\<lparr>t_attention_item := t_attention_item db\<rparr>"
      using A apply_command_attention [OF None, where env = env and e = e and db = db
          and x = "t_attention_item db"] by simp
    from arg_cong [OF this, of t_attention_item] show ?thesis by simp
  qed
  ultimately show ?thesis using None r by auto
next
  case (Some i)
  from attention_row [OF A Some env restricts_subset [OF r] i [OF Some]] obtain r'
    where "dbA = db\<lparr>t_attention_item := AList.update i r' (t_attention_item db)\<rparr>"
      and "apply_command env0 e c target
        = Inr (target\<lparr>t_attention_item := AList.update i r' (t_attention_item target)\<rparr>)" by blast
  with Some d restricts_update [OF r] show ?thesis by auto
qed

lemma attention_kept:
  assumes "apply_command env e c db = Inr db'"
  shows "dom (map_of (t_attention_item db)) \<subseteq> dom (map_of (t_attention_item db'))"
    and "attention_command c = Some i \<Longrightarrow> i \<in> dom (map_of (t_attention_item db'))"
proof -
  let ?ids = "dom (map_of (t_attention_item db))"
  have one: "\<exists>r. db' = db\<lparr>t_attention_item := AList.update i r (t_attention_item db)\<rparr>"
    if "attention_command c = Some i" for i
    using attention_row [OF assms that, of "env\<lparr>se_fails := \<lambda>_. False\<rparr>" db] by auto
  then show "attention_command c = Some i \<Longrightarrow> i \<in> dom (map_of (t_attention_item db'))" by fastforce
  show "?ids \<subseteq> dom (map_of (t_attention_item db'))"
  proof (cases "attention_command c")
    case None
    have "db' = db'\<lparr>t_attention_item := t_attention_item db\<rparr>"
      using assms apply_command_attention [OF None, where env = env and e = e and db = db
          and x = "t_attention_item db"] by simp
    from arg_cong [OF this, of t_attention_item] show ?thesis by simp
  next
    case (Some i)
    with one show ?thesis by fastforce
  qed
qed

lemma route_attention:
  assumes "route_arm envelope c = Inr (aty, aid, ety)"
  shows "attention_command c = (if aty = ''attention_item'' then Some aid else None)"
    and "ety = ''attention_raised'' \<longleftrightarrow> (\<exists>i k s r b p. c = RaiseAttention i k s r b p)"
    and "ety = GENESIS_EVENT_TYPE \<Longrightarrow> False"
  using assms by (cases c; auto simp: route_arm_defs attention_command_def kernel_names and_then_Inr)+

section \<open>The log rebuilds the projections\<close>

definition rebuilds :: "kernel_env \<Rightarrow> json db \<Rightarrow> bool" where
  "rebuilds k db \<longleftrightarrow> (\<forall>env. calm k env \<longrightarrow>
     (\<exists>n target. replay_page env (pg_events db) (0, fresh_db) = Inr (n, target)
        \<and> derived target = derived db
        \<and> restricts (raised (pg_events db)) (t_attention_item target) (t_attention_item db)))"

definition rebuildable :: "kernel_env \<Rightarrow> json db \<Rightarrow> bool" where
  "rebuildable k db \<longleftrightarrow> raised (pg_events db) \<subseteq> dom (map_of (t_attention_item db))
     \<and> (touched (pg_events db) \<subseteq> raised (pg_events db) \<longrightarrow> rebuilds k db)"

lemma raised_snoc:
  "raised (log @ [row]) = (if aggregate_type row = ''attention_item'' \<and> event_type row = ''attention_raised''
     then insert (aggregate_id row) (raised log) else raised log)"
  by (auto simp: raised_def)

lemma touched_snoc:
  "touched (log @ [row]) = (if aggregate_type row = ''attention_item''
     then insert (aggregate_id row) (touched log) else touched log)"
  by (auto simp: touched_def)

lemma landing_attention:
  assumes l: "landing env envelope p epoch decision row db db'" and good: "pg_good db"
  shows "attention_command (pr_command p)
      = (if aggregate_type row = ''attention_item'' then Some (aggregate_id row) else None)"
    and "event_type row = ''attention_raised'' \<Longrightarrow> aggregate_type row = ''attention_item''
      \<and> aggregate_id row \<notin> touched (pg_events db)
      \<and> aggregate_id row \<notin> dom (map_of (t_attention_item db))"
    and "\<not> is_genesis row"
proof -
  from l have route: "route_arm envelope (pr_command p) = Inr (aggregate_type row, aggregate_id row, event_type row)"
    and d: "decide env envelope (pr_command p) (pr_route p) db = Inr (log_version (agg_key_of row) (pg_events db))"
    by (auto simp: landing_def prepared_ok_def route_of_Inr agg_key_of_def)
  from l obtain dbA where A: "apply_command env row (pr_command p) db = Inr dbA"
    by (auto simp: landing_def projected_as_def)
  show "attention_command (pr_command p)
      = (if aggregate_type row = ''attention_item'' then Some (aggregate_id row) else None)"
    by (rule route_attention(1) [OF route])
  show "\<not> is_genesis row" using route_attention(3) [OF route] by (auto simp: is_genesis_def)
  assume "event_type row = ''attention_raised''"
  then obtain i k s r b q where c: "pr_command p = RaiseAttention i k s r b q"
    using route_attention(2) [OF route] by blast
  with route have key: "aggregate_type row = ''attention_item''" "aggregate_id row = i"
    by (simp_all add: route_arm_def)
  from d c have "of_key (agg_key_of row) (pg_events db) = []"
    by (intro log_version_zero [OF good]) (simp add: decide_def)
  then have "i \<notin> touched (pg_events db)"
    using key by (auto simp: touched_def of_key_def filter_empty_conv agg_key_of_def)
  moreover have "i \<notin> dom (map_of (t_attention_item db))"
    using A c by (auto simp: apply_command_def project_raise_attention_def Let_def statement_simps result_simps)
  ultimately show "aggregate_type row = ''attention_item'' \<and> aggregate_id row \<notin> touched (pg_events db)
      \<and> aggregate_id row \<notin> dom (map_of (t_attention_item db))" using key by simp
qed

lemma rebuilds_snoc:
  assumes l: "landing env envelope p epoch decision row db db'" and good: "pg_good db" and s: "speaks k env"
    and r: "rebuilds k db" and t: "touched (pg_events db') \<subseteq> raised (pg_events db')"
  shows "rebuilds k db'"
  unfolding rebuilds_def
proof (intro allI impI)
  fix env0 assume c: "calm k env0"
  note att = landing_attention [OF l good]
  from l have log: "pg_events db' = pg_events db @ [row]" and dec: "ke_decode env (payload row) = Some (pr_command p)"
    by (auto simp: landing_def)
  from l obtain dbA where A: "apply_command env row (pr_command p) db = Inr dbA"
    and db': "db' = frame (pg_events db @ [row]) (pg_writer db') (t_receipt db') (t_pty_delivery db') dbA"
    unfolding landing_def projected_as_def by blast
  from r c obtain n target where run: "replay_page env0 (pg_events db) (0, fresh_db) = Inr (n, target)"
    and d: "derived target = derived db"
    and rs: "restricts (raised (pg_events db)) (t_attention_item target) (t_attention_item db)"
    unfolding rebuilds_def by blast
  have same: "map_of (t_attention_item target) i = map_of (t_attention_item db) i"
    and ids: "raised (pg_events db') = insert i (raised (pg_events db))"
    if "attention_command (pr_command p) = Some i" for i
  proof -
    from that att(1) have i: "aggregate_type row = ''attention_item''" "aggregate_id row = i"
      by (auto split: if_splits)
    from rs have m: "map_of (t_attention_item target) = map_of (t_attention_item db) |` raised (pg_events db)"
      by (simp add: restricts_def)
    show "map_of (t_attention_item target) i = map_of (t_attention_item db) i"
      using att(2) t i by (cases "event_type row = ''attention_raised''")
        (auto simp: m log raised_snoc touched_snoc restrict_map_def)
    show "raised (pg_events db') = insert i (raised (pg_events db))"
      using t i by (auto simp: log raised_snoc touched_snoc)
  qed
  have none: "raised (pg_events db') = raised (pg_events db)" if "attention_command (pr_command p) = None"
    using that att(1) by (simp add: log raised_snoc split: if_splits)
  obtain target' where run': "apply_command env0 row (pr_command p) target = Inr target'"
    and d': "derived target' = derived dbA"
    and rs': "restricts (raised (pg_events db')) (t_attention_item target') (t_attention_item dbA)"
    using apply_command_rebuilds [OF A d rs, of env0] s c same ids none
    by (cases "attention_command (pr_command p)") (auto simp: calm_def speaks_def)
  have "ke_decode env0 (payload row) = Some (pr_command p)" using dec s c by (simp add: calm_def speaks_def)
  then have "replay_page env0 (pg_events db') (0, fresh_db) = Inr (Suc n, target')"
    using run run' att(3) by (simp add: log replay_page_append apply_event_def)
  moreover have "derived db' = derived dbA" by (subst db') simp
  moreover have "t_attention_item db' = t_attention_item dbA" by (subst db') simp
  ultimately show "\<exists>n target. replay_page env0 (pg_events db') (0, fresh_db) = Inr (n, target)
      \<and> derived target = derived db'
      \<and> restricts (raised (pg_events db')) (t_attention_item target) (t_attention_item db')"
    using d' rs' by auto
qed

lemma touched_before:
  assumes l: "landing env envelope p epoch decision row db db'" and good: "pg_good db"
    and t: "touched (pg_events db') \<subseteq> raised (pg_events db')"
  shows "touched (pg_events db) \<subseteq> raised (pg_events db)"
proof -
  from l have log: "pg_events db' = pg_events db @ [row]" by (simp add: landing_def)
  from t landing_attention(2) [OF l good] show ?thesis
    by (auto simp: log raised_snoc touched_snoc split: if_splits)
qed

lemma rebuilds_cong:
  assumes "rebuilds k db" and "pg_events db' = pg_events db" and "derived db' = derived db"
    and "map_of (t_attention_item db) |` raised (pg_events db) = map_of (t_attention_item db') |` raised (pg_events db)"
  shows "rebuilds k db'"
  using assms by (simp add: rebuilds_def restricts_def)

interpretation rebuild_law: kernel_law k "rebuildable k" for k
proof
  show "rebuildable k fresh_db"
    by (simp add: rebuildable_def rebuilds_def raised_def fresh_db_def restricts_def)
  show "rebuildable k db'" if i: "rebuildable k db" and b: "beside_log db db'" for db db'
  proof -
    from b obtain rs ats where db': "db' = db\<lparr>t_receipt := rs, t_attention_item := ats\<rparr>"
      and le: "map_of (t_attention_item db) \<subseteq>\<^sub>m map_of (t_attention_item db')"
      unfolding beside_log_def by blast
    then have same: "pg_events db' = pg_events db" "derived db' = derived db"
      by (simp_all add: derived_def frame_def)
    moreover from i have "raised (pg_events db) \<subseteq> dom (map_of (t_attention_item db))"
      by (simp add: rebuildable_def)
    moreover from this le have "map_of (t_attention_item db) |` raised (pg_events db)
        = map_of (t_attention_item db') |` raised (pg_events db)"
      by (auto simp: restrict_map_def map_le_def fun_eq_iff)
    ultimately have "raised (pg_events db') \<subseteq> dom (map_of (t_attention_item db'))"
      and "rebuilds k db \<Longrightarrow> rebuilds k db'"
      using map_le_implies_dom_le [OF le] rebuilds_cong [of k db db'] by (metis subset_trans, blast)
    with i same(1) show ?thesis by (simp add: rebuildable_def)
  qed
  show "rebuildable k (db\<lparr>pg_writer := w\<rparr>)" if "rebuildable k db" for db w
    using that rebuilds_cong [of k db "db\<lparr>pg_writer := w\<rparr>"]
    by (simp add: rebuildable_def derived_def frame_def)
  show "rebuildable k db'" if i: "rebuildable k db" and g: "genesis_step db db'" for db db'
  proof -
    from g obtain row w where key: "agg_key_of row = (KERNEL_AGGREGATE, KERNEL_SINGLETON)"
      "event_type row = GENESIS_EVENT_TYPE" and db': "db' = db\<lparr>pg_events := pg_events db @ [row], pg_writer := w\<rparr>"
      unfolding genesis_step_def by blast
    then have "is_genesis row" "aggregate_type row \<noteq> ''attention_item''"
      by (simp_all add: is_genesis_def agg_key_of_def kernel_names)
    then have "raised (pg_events db') = raised (pg_events db)" "touched (pg_events db') = touched (pg_events db)"
      "replay_page env (pg_events db') acc = replay_page env (pg_events db) acc"
      "derived db' = derived db" "t_attention_item db' = t_attention_item db" for env :: kernel_env and acc
      by (simp_all add: db' raised_snoc touched_snoc replay_page_append derived_def frame_def
          split: prod.split) (cases "replay_page env (pg_events db) acc"; auto)
    with i show ?thesis by (simp add: rebuildable_def rebuilds_def)
  qed
  show "rebuildable k db'" if i: "rebuildable k db" and good: "pg_good db" and s: "speaks k env"
    and l: "landing env envelope p epoch decision row db db'"
    for db db' env envelope p epoch decision row
  proof -
    from l obtain dbA where A: "apply_command env row (pr_command p) db = Inr dbA"
      and db': "db' = frame (pg_events db @ [row]) (pg_writer db') (t_receipt db') (t_pty_delivery db') dbA"
      unfolding landing_def projected_as_def by blast
    have "t_attention_item db' = t_attention_item dbA" by (subst db') simp
    moreover have "pg_events db' = pg_events db @ [row]" using l by (simp add: landing_def)
    ultimately have "raised (pg_events db') \<subseteq> dom (map_of (t_attention_item db'))"
      using i attention_kept [OF A] landing_attention(1) [OF l good]
      by (auto simp: rebuildable_def raised_snoc split: if_splits)
    with i touched_before [OF l good] rebuilds_snoc [OF l good s] show ?thesis
      by (simp add: rebuildable_def)
  qed
qed

end
