(* ===== verification/Gw_Checkpoint.thy ===== *)
theory Gw_Checkpoint
  imports Gw_Canon Gw_Blob_Run Gw_Recover
begin

text \<open>
  Checkpoints (\<open>gwk-kernel/src/checkpoint.rs\<close>) and recovery (\<open>gwk-kernel/src/recover.rs\<close>): a snapshot
  stores the canonical records of the derived projections as a blob and records its address; a restart
  walks the checkpoints from the newest until one validates and compares its hash with the live
  projections, or replays the log when there are none.
\<close>

section \<open>Snapshots\<close>

definition CHECKPOINT_SCHEMA_VERSION :: u32 where "CHECKPOINT_SCHEMA_VERSION = 1"
definition RECORDS_MEDIA_TYPE :: string where "RECORDS_MEDIA_TYPE = ''application/x-ndjson''"

definition projection_hash :: "'m records_env_scheme \<Rightarrow> string \<Rightarrow> string" where
  "projection_hash re records = hex_lower (re_sha re records)"

definition blob_refused :: "(blob_error + 'a) \<times> blob_state \<Rightarrow> (refusal + 'a) \<times> blob_state" where
  "blob_refused r = map_prod (map_sum (\<lambda>_. storage_failed) id) id r"

fun upload_chunks ::
  "'m blob_env_scheme \<Rightarrow> string \<Rightarrow> nat \<Rightarrow> string list \<Rightarrow> blob_state \<Rightarrow> (blob_error + unit) \<times> blob_state" where
  "upload_chunks benv i k [] st = (Inr (), st)"
| "upload_chunks benv i k (c # cs) st =
     chain (guard_that (k < 2 ^ 32) Blob_Storage, st) (\<lambda>_ st.
     chain (write_chunk benv i (of_nat k) c st) (\<lambda>_ st.
       upload_chunks benv i (Suc k) cs st))"

definition store_blob ::
  "'m blob_env_scheme \<Rightarrow> string \<Rightarrow> blob_address \<Rightarrow> blob_state \<Rightarrow> (blob_error + blob_descriptor \<times> bool) \<times> blob_state" where
  "store_blob benv records address st =
     chain (blob_begin benv RECORDS_MEDIA_TYPE (of_nat (length records)) st) (\<lambda>i st.
     chain (upload_chunks benv i 0 (chunks BLOB_CHUNK_BYTES records) st) (\<lambda>_ st.
     chain (if records = [] then write_chunk benv i 0 [] st else (Inr (), st)) (\<lambda>_ st.
       blob_commit benv i address st)))"

definition checkpoint_for :: "blob_address \<Rightarrow> string \<Rightarrow> string \<Rightarrow> u64 \<Rightarrow> timestamp \<Rightarrow> checkpoint" where
  "checkpoint_for address hash records through created_at =
     \<lparr>cp_schema_version = CHECKPOINT_SCHEMA_VERSION, cp_through_sequence = through, cp_projection_hash = hash,
      cp_records_ref = \<lparr>ref_digest = blob_address_as_str address, ref_media_type = RECORDS_MEDIA_TYPE,
        ref_byte_size = of_nat (length records), ref_retention_class = None, ref_evidence_pin = None\<rparr>,
      cp_created_at = created_at\<rparr>"

definition record_checkpoint :: "checkpoint \<Rightarrow> checkpoint list \<Rightarrow> checkpoint list" where
  "record_checkpoint cp cps =
     (if list_ex (\<lambda>c. cp_through_sequence c = cp_through_sequence cp) cps then cps else cps @ [cp])"

definition snapshot ::
  "('p, 'n) store_env_scheme \<Rightarrow> 'm records_env_scheme \<Rightarrow> 'b blob_env_scheme \<Rightarrow> u64 \<Rightarrow> timestamp
     \<Rightarrow> json db \<Rightarrow> checkpoint list \<Rightarrow> blob_state
     \<Rightarrow> (refusal + checkpoint \<times> json db \<times> checkpoint list) \<times> blob_state" where
  "snapshot env re benv through created_at db cps bst =
     chain (derived_records env re db, bst) (\<lambda>records bst.
     let hash = projection_hash re records in
     chain (map_sum (\<lambda>_. storage_failed) id (blob_address_from_digest hash), bst) (\<lambda>address bst.
     chain (blob_refused (store_blob benv records address bst)) (\<lambda>_ bst.
     let cp = checkpoint_for address hash records through created_at in
     chain (sql env ''record checkpoint'', bst) (\<lambda>_ bst.
     chain (sql env ''advance the checkpoint barrier'', bst) (\<lambda>_ bst.
       (Inr (cp, db\<lparr>pg_writer := map_option (\<lambda>w. w\<lparr>w_checkpoint_seq := through\<rparr>) (pg_writer db)\<rparr>,
          record_checkpoint cp cps), bst))))))"

definition newest_first :: "checkpoint list \<Rightarrow> checkpoint list" where
  "newest_first cps = rev (sort_key cp_through_sequence cps)"

definition read_checkpoints :: "('p, 'n) store_env_scheme \<Rightarrow> checkpoint list \<Rightarrow> refusal + checkpoint list" where
  "read_checkpoints env cps = and_then (sql env ''read checkpoints'') (\<lambda>_. Inr (newest_first cps))"

definition census :: "('p, 'n) store_env_scheme \<Rightarrow> checkpoint list \<Rightarrow> refusal + nat \<times> u64 option" where
  "census env cps = and_then (sql env ''count checkpoints'') (\<lambda>_.
     Inr (length cps, if cps = [] then None else Some (foldr max (map cp_through_sequence cps) 0)))"

definition discard_all ::
  "('p, 'n) store_env_scheme \<Rightarrow> json db \<Rightarrow> checkpoint list \<Rightarrow> refusal + nat \<times> json db \<times> checkpoint list" where
  "discard_all env db cps = and_then (sql env ''discard checkpoints'') (\<lambda>_.
     Inr (length cps, db\<lparr>pg_writer := map_option (\<lambda>w. w\<lparr>w_checkpoint_seq := 0\<rparr>) (pg_writer db)\<rparr>, []))"

section \<open>Validation\<close>

function read_blob :: "(nat \<Rightarrow> nat \<Rightarrow> blob_error + string) \<Rightarrow> nat \<Rightarrow> string \<Rightarrow> blob_error + string" where
  "read_blob rd len out =
     (if length out < len then
        (case rd (length out) (min (len - length out) BLOB_CHUNK_BYTES) of
           Inl e \<Rightarrow> Inl e
         | Inr chunk \<Rightarrow> if chunk = [] then Inl Blob_Integrity else read_blob rd len (out @ chunk))
      else Inr out)"
  by auto
termination
  by (relation "measure (\<lambda>(rd, len, out). len - length out)") (auto simp: neq_Nil_conv)

declare read_blob.simps [simp del]

fun split_lines :: "string \<Rightarrow> string list" where
  "split_lines [] = [[]]"
| "split_lines (c # s) =
     (if c = newline then [] # split_lines s
      else case split_lines s of [] \<Rightarrow> [[c]] | l # ls \<Rightarrow> (c # l) # ls)"

datatype checkpoint_reject =
    Other_Schema | Past_The_Log | Log_Is_Empty | Other_Media_Type | Bad_Address | Other_Address
  | Unreadable blob_error | Other_Hash | Bad_Line nat

fun check_lines :: "'m records_env_scheme \<Rightarrow> nat \<Rightarrow> string list \<Rightarrow> checkpoint_reject + unit" where
  "check_lines re n [] = Inr ()"
| "check_lines re n (l # ls) =
     (if l = [] \<or> re_reads re l then check_lines re (Suc n) ls else Inl (Bad_Line (Suc n)))"

definition validate ::
  "'m records_env_scheme \<Rightarrow> (blob_address \<Rightarrow> nat \<Rightarrow> nat \<Rightarrow> blob_error + string) \<Rightarrow> checkpoint \<Rightarrow> u64 option
     \<Rightarrow> checkpoint_reject + unit" where
  "validate re rd cp watermark =
     and_then (guard_that (cp_schema_version cp = CHECKPOINT_SCHEMA_VERSION) Other_Schema) (\<lambda>_.
     and_then (case watermark of
                 None \<Rightarrow> Inl Log_Is_Empty
               | Some mark \<Rightarrow> guard_that (cp_through_sequence cp \<le> mark) Past_The_Log) (\<lambda>_.
     and_then (guard_that (ref_media_type (cp_records_ref cp) = RECORDS_MEDIA_TYPE) Other_Media_Type) (\<lambda>_.
     and_then (map_sum (\<lambda>_. Bad_Address) id (blob_address_parse (ref_digest (cp_records_ref cp)))) (\<lambda>address.
     and_then (guard_that (digest_hex address = cp_projection_hash cp) Other_Address) (\<lambda>_.
     and_then (map_sum Unreadable id
        (read_blob (rd address) (unat (ref_byte_size (cp_records_ref cp))) [])) (\<lambda>records.
     and_then (guard_that (projection_hash re records = cp_projection_hash cp) Other_Hash) (\<lambda>_.
     check_lines re 0 (split_lines records))))))))"

fun first_valid ::
  "'m records_env_scheme \<Rightarrow> (blob_address \<Rightarrow> nat \<Rightarrow> nat \<Rightarrow> blob_error + string) \<Rightarrow> u64 option \<Rightarrow> checkpoint list
     \<Rightarrow> checkpoint option \<times> (u64 \<times> checkpoint_reject) list" where
  "first_valid re rd watermark [] = (None, [])"
| "first_valid re rd watermark (cp # cps) =
     (case validate re rd cp watermark of
        Inr _ \<Rightarrow> (Some cp, [])
      | Inl reason \<Rightarrow>
          (let (found, rejected) = first_valid re rd watermark cps in
           (found, (cp_through_sequence cp, reason) # rejected)))"

definition newest_valid ::
  "('p, 'n) store_env_scheme \<Rightarrow> 'm records_env_scheme \<Rightarrow> (blob_address \<Rightarrow> nat \<Rightarrow> nat \<Rightarrow> blob_error + string) option
     \<Rightarrow> u64 option \<Rightarrow> checkpoint list \<Rightarrow> refusal + checkpoint option \<times> (u64 \<times> checkpoint_reject) list" where
  "newest_valid env re blobs watermark cps =
     (case blobs of
        None \<Rightarrow> Inr (None, [])
      | Some rd \<Rightarrow> and_then (read_checkpoints env cps) (\<lambda>found. Inr (first_valid re rd watermark found)))"

section \<open>Recovery\<close>

datatype unverified_reason = Nothing_Appended | Checkpoint_Behind u64 u64 | No_Blob_Store | No_Valid_Checkpoint

datatype verdict =
    Verified u64
  | Replayed nat
  | Unverified unverified_reason
  | Diverged string string

record recovery_report =
  rr_watermark :: "u64 option"
  rr_live_hash :: string
  rr_verdict :: verdict
  rr_rejected :: "(u64 \<times> checkpoint_reject) list"
  rr_uncertain :: "string list"

definition ready :: "recovery_report \<Rightarrow> bool" where
  "ready r = (case rr_verdict r of Diverged _ _ \<Rightarrow> False | _ \<Rightarrow> True)"

record rebuild_report =
  rb_through_sequence :: "u64 option"
  rb_live_hash :: string
  rb_rebuilt_hash :: string
  rb_agrees :: bool

record replayed =
  rp_events :: nat
  rp_watermark :: "u64 option"
  rp_live_hash :: string
  rp_rebuilt_hash :: string

definition watermark_of :: "('p, 'n) store_env_scheme \<Rightarrow> json db \<Rightarrow> refusal + u64 option" where
  "watermark_of env db = and_then (sql env ''watermark'') (\<lambda>_.
     Inr (if pg_events db = [] then None else Some (foldr max (map global_sequence (pg_events db)) 0)))"

definition uncertain_states :: "attempt_state list" where
  "uncertain_states = filter (\<lambda>s. can_transition attempt_edges s Attempt_Unknown) attempt_states"

definition uncertain_attempts ::
  "('p, 'n) store_env_scheme \<Rightarrow> 'm records_env_scheme \<Rightarrow> json db \<Rightarrow> refusal + string list" where
  "uncertain_attempts env re db = and_then (sql env ''read attempts'') (\<lambda>_.
     Inr (map fst (sort_key (\<lambda>(i, _). (re_collate re i, i))
       (filter (\<lambda>(_, a). List.member uncertain_states (at_state a)) (t_attempt db)))))"

text \<open>\<open>replay\<close> reads the source under one snapshot; \<open>target\<close> is the database it projects into.\<close>

definition replay ::
  "kernel_env \<Rightarrow> 'm records_env_scheme \<Rightarrow> nat \<Rightarrow> json db \<Rightarrow> json db \<Rightarrow> (refusal + replayed \<times> json db) option" where
  "replay env re fuel source target =
     (case and_then (watermark_of env source) (\<lambda>mark.
           and_then (derived_records env re source) (\<lambda>live. Inr (mark, live))) of
        Inl e \<Rightarrow> Some (Inl e)
      | Inr (mark, live) \<Rightarrow>
          (case replay_loop env source fuel None (0, target) of
             None \<Rightarrow> None
           | Some (Inl e) \<Rightarrow> Some (Inl e)
           | Some (Inr (n, built)) \<Rightarrow>
               Some (and_then (derived_records env re built) (\<lambda>rebuilt.
                 Inr (\<lparr>rp_events = n, rp_watermark = mark, rp_live_hash = projection_hash re live,
                       rp_rebuilt_hash = projection_hash re rebuilt\<rparr>, built)))))"

definition cold_verdict :: "checkpoint option \<Rightarrow> replayed \<Rightarrow> verdict" where
  "cold_verdict anchor built =
     (case anchor of
        None \<Rightarrow> Replayed (rp_events built)
      | Some cp \<Rightarrow>
          if Some (cp_through_sequence cp) = rp_watermark built \<and> cp_projection_hash cp \<noteq> rp_rebuilt_hash built
          then Diverged (cp_projection_hash cp) (rp_rebuilt_hash built)
          else Replayed (rp_events built))"

definition warm_verdict :: "bool \<Rightarrow> u64 \<Rightarrow> string \<Rightarrow> checkpoint option \<Rightarrow> verdict" where
  "warm_verdict has_blobs mark live_hash anchor =
     (case anchor of
        Some cp \<Rightarrow>
          if cp_through_sequence cp = mark then
            if cp_projection_hash cp = live_hash then Verified (cp_through_sequence cp)
            else Diverged (cp_projection_hash cp) live_hash
          else Unverified (Checkpoint_Behind (cp_through_sequence cp) mark)
      | None \<Rightarrow> Unverified (if has_blobs then No_Valid_Checkpoint else No_Blob_Store))"

definition recovery_verdict ::
  "kernel_env \<Rightarrow> 'm records_env_scheme \<Rightarrow> nat \<Rightarrow> bool \<Rightarrow> u64 option \<Rightarrow> string \<Rightarrow> checkpoint option \<Rightarrow> json db
     \<Rightarrow> (refusal + verdict \<times> json db) option" where
  "recovery_verdict env re fuel has_blobs watermark live anchor db =
     (case (watermark, live = []) of
        (None, True) \<Rightarrow> Some (Inr (Unverified Nothing_Appended, db))
      | (None, False) \<Rightarrow> Some (Inr (Diverged (projection_hash re []) (projection_hash re live), db))
      | (Some _, True) \<Rightarrow>
          map_option (\<lambda>r. and_then r (\<lambda>(built, db'). Inr (cold_verdict anchor built, db')))
            (replay env re fuel db db)
      | (Some mark, False) \<Rightarrow> Some (Inr (warm_verdict has_blobs mark (projection_hash re live) anchor, db)))"

definition recover ::
  "kernel_env \<Rightarrow> 'm records_env_scheme \<Rightarrow> nat \<Rightarrow> (blob_address \<Rightarrow> nat \<Rightarrow> nat \<Rightarrow> blob_error + string) option
     \<Rightarrow> checkpoint list \<Rightarrow> json db \<Rightarrow> (refusal + recovery_report \<times> json db) option" where
  "recover env re fuel blobs cps db =
     (case and_then (watermark_of env db) (\<lambda>mark.
           and_then (derived_records env re db) (\<lambda>live.
           and_then (newest_valid env re blobs mark cps) (\<lambda>(anchor, rejected).
           Inr (mark, live, anchor, rejected)))) of
        Inl e \<Rightarrow> Some (Inl e)
      | Inr (mark, live, anchor, rejected) \<Rightarrow>
          map_option (\<lambda>r. and_then r (\<lambda>(v, db').
             and_then (uncertain_attempts env re db') (\<lambda>uncertain.
             Inr (\<lparr>rr_watermark = mark, rr_live_hash = projection_hash re live, rr_verdict = v,
                   rr_rejected = rejected, rr_uncertain = uncertain\<rparr>, db'))))
            (recovery_verdict env re fuel (blobs \<noteq> None) mark live anchor db))"

definition rebuild_into ::
  "kernel_env \<Rightarrow> 'm records_env_scheme \<Rightarrow> nat \<Rightarrow> json db \<Rightarrow> json db \<Rightarrow> (refusal + rebuild_report \<times> json db) option" where
  "rebuild_into env re fuel db scratch =
     (case and_then (derived_records env re scratch) (\<lambda>held. guard_that (held = []) validation) of
        Inl e \<Rightarrow> Some (Inl e)
      | Inr _ \<Rightarrow>
          map_option (\<lambda>r. and_then r (\<lambda>(built, scratch').
             Inr (\<lparr>rb_through_sequence = rp_watermark built, rb_live_hash = rp_live_hash built,
                   rb_rebuilt_hash = rp_rebuilt_hash built,
                   rb_agrees = (rp_live_hash built = rp_rebuilt_hash built)\<rparr>, scratch')))
            (replay env re fuel db scratch))"

end
