(* ===== verification/Gw_Restart.thy ===== *)
theory Gw_Restart
  imports Gw_Checkpoint
begin

text \<open>
  Lemmas about recovery: the canonical records depend on the derived tables only, a replay of a
  reachable log into an empty database rebuilds them, reading a blob back chunk by chunk yields its
  plaintext, and what each verdict of a restart rests on.
\<close>

section \<open>Canonical records\<close>

lemma sql_calm [simp]: "\<forall>c. \<not> se_fails env c \<Longrightarrow> sql env c = Inr ()"
  by (simp add: sql_def query_def lift_append_def guard_that_def)

lemma derived_tables:
  assumes "derived a = derived b" and "p \<in> set PROJECTIONS" and "pj_derived p"
  shows "pj_rows p collate a = pj_rows p collate b"
  using assms by (cases a; cases b)
    (auto simp: PROJECTIONS_def derived_projection_def written_beside_the_log_def derived_def frame_def)

lemma records_from_cong:
  assumes "\<And>p. p \<in> set ps \<Longrightarrow> pj_derived p \<Longrightarrow> pj_rows p (re_collate re) a = pj_rows p (re_collate re) b"
  shows "records_from env re True ps a = records_from env re True ps b"
  using assms by (induction ps) simp_all

lemma derived_records_cong:
  "derived a = derived b \<Longrightarrow> derived_records env re a = derived_records env re b"
  unfolding derived_records_def by (intro records_from_cong derived_tables)

lemma canonical_lines_total:
  "\<forall>r. re_line re r \<noteq> None \<Longrightarrow> \<exists>s. canonical_lines re rs = Inr s"
  by (induction rs) (auto simp: canonical_line_def ok_or_def split: option.split)

lemma records_from_total:
  assumes "\<forall>c. \<not> se_fails env c" and "\<forall>r. re_line re r \<noteq> None"
  shows "\<exists>s. records_from env re only ps db = Inr s"
proof (induction ps)
  case (Cons p ps)
  obtain out where "canonical_lines re (pj_rows p (re_collate re) db) = Inr out"
    using canonical_lines_total [OF assms(2)] by blast
  with Cons assms(1) show ?case by auto
qed simp

lemma derived_records_fresh:
  assumes "\<forall>c. \<not> se_fails env c" shows "derived_records env re fresh_db = Inr []"
  using assms by (simp add: derived_records_def PROJECTIONS_def derived_projection_def
      written_beside_the_log_def ordered_rows_def fresh_db_def)

section \<open>Replaying a reachable log\<close>

lemma replay_loop_all:
  assumes "pg_good db" and "\<not> se_fails env ''read_from''" and "length (pg_events db) < fuel"
  shows "replay_loop env db fuel None acc = Some (replay_page env (pg_events db) acc)"
proof (rule replay_loop_drain)
  have "drain (read_page env db) REPLAY_PAGE fuel None = Some (Inr (filter (after_cursor None) (pg_events db)))"
  proof (rule postgres.recovers [OF assms(1)])
    show "read_page env db c REPLAY_PAGE \<noteq> Inl x" for c x
      using assms(2) by (simp add: read_page_def query_def)
    show "length (filter (after_cursor None) (pg_events db)) < fuel"
      using assms(3) length_filter_le order.strict_trans1 by blast
  qed (simp_all add: REPLAY_PAGE_def MAX_READ_LIMIT_def)
  then show "drain (read_page env db) REPLAY_PAGE fuel None = Some (Inr (pg_events db))"
    by (simp add: after_cursor_def)
qed

lemma replay_rebuilds:
  assumes k: "kernel_reachable k db" and t: "touched (pg_events db) \<subseteq> raised (pg_events db)"
    and c: "calm k env" and l: "\<forall>r. re_line re r \<noteq> None" and f: "length (pg_events db) < fuel"
  obtains n target live where "replay env re fuel db fresh_db
      = Some (Inr (\<lparr>rp_events = n, rp_watermark = (if pg_events db = [] then None
            else Some (foldr max (map global_sequence (pg_events db)) 0)),
          rp_live_hash = projection_hash re live, rp_rebuilt_hash = projection_hash re live\<rparr>, target))"
    and "derived target = derived db" and "derived_records env re db = Inr live"
proof -
  from c have quiet: "\<forall>c. \<not> se_fails env c" by (simp add: calm_def)
  from rebuild_law.reachable [OF k] t c obtain n target
    where run: "replay_page env (pg_events db) (0, fresh_db) = Inr (n, target)" and d: "derived target = derived db"
    unfolding rebuildable_def rebuilds_def by blast
  obtain live where live: "derived_records env re db = Inr live"
    using records_from_total [OF quiet l] unfolding derived_records_def by blast
  moreover have "derived_records env re target = Inr live"
    using derived_records_cong [OF d, of env re] live by simp
  ultimately show thesis
    using that d run replay_loop_all [OF reachable_good [OF k] _ f, of env "(0, fresh_db)"] quiet
    by (simp add: replay_def watermark_of_def)
qed

text \<open>A restart always returns: the loop ends within one page more than the log has events.\<close>

lemma replay_loop_returns:
  assumes "pg_good db" and "length (pg_events db) < fuel"
  shows "\<exists>r. replay_loop env db fuel None acc = Some r"
proof (cases "se_fails env ''read_from''")
  case True
  moreover from assms(2) obtain n where "fuel = Suc n" by (cases fuel) auto
  ultimately show ?thesis by (simp add: read_page_def query_def)
next
  case False
  then show ?thesis using replay_loop_all [OF assms(1) _ assms(2)] by blast
qed

lemma replay_returns:
  assumes "pg_good db" and "length (pg_events db) < fuel"
  shows "\<exists>r. replay env re fuel db target = Some r"
  using replay_loop_returns [OF assms, of env "(0, target)"]
  by (auto simp: replay_def split: sum.split prod.split)

section \<open>Reading a blob back\<close>

context blob_reader
begin

lemma read_back:
  assumes "holds s p" and "prefix out p"
  shows "read_blob (reads s) (length p) out = Inr p"
  using assms(2)
proof (induction "length p - length out" arbitrary: out rule: less_induct)
  case less
  show ?case
  proof (cases "length out < length p")
    case True
    let ?chunk = "blob_window (length out) (min (length p - length out) BLOB_CHUNK_BYTES) p"
    have chunk: "?chunk \<noteq> []" using True by (simp add: blob_window_def BLOB_CHUNK_BYTES_def)
    have "out @ ?chunk = take (length (out @ ?chunk)) p"
      using less.prems by (auto simp: prefix_def blob_window_def)
    then have "prefix (out @ ?chunk) p" by (metis take_is_prefix)
    with True chunk less.hyps [of "out @ ?chunk"] show ?thesis
      by (subst read_blob.simps) (simp add: window [OF assms(1)] diff_less_mono2)
  next
    case False
    with less.prems have "out = p" by (auto simp: prefix_def)
    then show ?thesis by (subst read_blob.simps) simp
  qed
qed

end

section \<open>Storing the records\<close>

lemma upload_chunks_run:
  assumes "blob_run S kek st0 st" and "blob_env_ok S kek benv" and "upload_chunks benv i n cs st = (r, st')"
  shows "blob_run S kek st0 st'"
  using assms
proof (induction cs arbitrary: n st)
  case (Cons c cs)
  obtain w st1 where w: "write_chunk benv i (of_nat n) c st = (w, st1)" by fastforce
  note run = blob_run.write_part [OF Cons.prems(1,2) w]
  show ?case
  proof (cases "n < 2 ^ 32")
    case True
    with Cons.prems(3) w Cons.IH [OF run Cons.prems(2), of "Suc n"] run show ?thesis
      by (cases w) auto
  next
    case False
    with Cons.prems show ?thesis by (simp add: guard_that_def)
  qed
qed simp

lemma store_blob_holds:
  assumes run: "blob_run S kek st0 st" and ok: "blob_ok S kek st0" and env: "blob_env_ok S kek benv"
    and store: "store_blob benv records address st = (Inr r, st')"
  shows "\<exists>p. holds_blob S kek st' (digest_hex address) p" and "blob_run S kek st0 st'"
proof -
  from store obtain i st1 st2 u where b: "blob_begin benv RECORDS_MEDIA_TYPE (of_nat (length records)) st = (Inr i, st1)"
    and w: "upload_chunks benv i 0 (chunks BLOB_CHUNK_BYTES records) st1 = (Inr u, st2)"
    and rest: "chain (if records = [] then write_chunk benv i 0 [] st2 else (Inr (), st2)) (\<lambda>_ st.
       blob_commit benv i address st) = (Inr r, st')"
    by (auto simp: store_blob_def chain_Inr)
  from rest obtain v st3 where e: "(if records = [] then write_chunk benv i 0 [] st2 else (Inr (), st2)) = (Inr v, st3)"
    and c: "blob_commit benv i address st3 = (Inr r, st')"
    by (auto simp: chain_Inr)
  have "is_utf8 RECORDS_MEDIA_TYPE" by (simp add: RECORDS_MEDIA_TYPE_def utf8_lead_def in_octets_def octet_def)
  from blob_run.begin_upload [OF run env this b] have "blob_run S kek st0 st2"
    by (rule upload_chunks_run [OF _ env w])
  with e have r3: "blob_run S kek st0 st3"
    using blob_run.write_part [OF _ env] by (metis prod.inject)
  then show "blob_run S kek st0 st'" by (rule blob_run.commit [OF _ env c])
  from commit_moves [OF _ env c] blob_run_moves [OF r3 ok] show "\<exists>p. holds_blob S kek st' (digest_hex address) p"
    by (cases r) (auto simp: committed_def)
qed

section \<open>Validating what was stored\<close>

definition clean :: "'m records_env_scheme \<Rightarrow> string \<Rightarrow> bool" where
  "clean re s \<longleftrightarrow> (\<forall>n. check_lines re n (split_lines s) = Inr ())"

text \<open>A serializer whose lines hold no newline and can be read back.\<close>

definition serializer_ok :: "'m records_env_scheme \<Rightarrow> bool" where
  "serializer_ok re \<longleftrightarrow> (\<forall>r l. re_line re r = Some l \<longrightarrow> newline \<notin> set l \<and> re_reads re l)"

lemma split_lines_line: "newline \<notin> set l \<Longrightarrow> split_lines (l @ newline # s) = l # split_lines s"
  by (induction l) auto

lemma clean_lines:
  assumes "serializer_ok re" and "canonical_lines re rs = Inr out" and "clean re rest"
  shows "clean re (out @ rest)"
  using assms(2,3)
proof (induction rs arbitrary: out)
  case (Cons r rs)
  from Cons.prems(1) obtain l ls where "re_line re (canonical_record r) = Some l"
    and ls: "canonical_lines re rs = Inr ls" and out: "out = l @ newline # ls"
    by (auto simp: canonical_line_def ok_or_Inr and_then_Inr)
  moreover from this(1) assms(1) have "newline \<notin> set l" "re_reads re l" by (auto simp: serializer_ok_def)
  ultimately show ?case using Cons.IH [OF ls Cons.prems(2)] by (simp add: clean_def split_lines_line)
qed simp

lemma records_clean:
  assumes "serializer_ok re" and "records_from env re only ps db = Inr s"
  shows "clean re s"
  using assms(2)
proof (induction ps arbitrary: s)
  case Nil
  then show ?case by (simp add: clean_def)
next
  case (Cons p ps)
  then show ?case by (auto simp: and_then_Inr intro: clean_lines [OF assms(1)] split: if_splits)
qed

lemma records_env:
  assumes "records_from env re only ps db = Inr s" and "\<forall>c. \<not> se_fails env2 c"
  shows "records_from env2 re only ps db = Inr s"
  using assms(1) by (induction ps arbitrary: s) (auto simp: and_then_Inr assms(2) split: if_splits)

lemma insort_key_last:
  "f x \<le> f y \<Longrightarrow> insort_key f x (zs @ [y]) = insort_key f x zs @ [y]"
  by (induction zs) auto

lemma sort_key_newest:
  "\<forall>x \<in> set xs. f x \<le> f y \<Longrightarrow> sort_key f (xs @ [y]) = sort_key f xs @ [y]"
  by (induction xs) (simp_all add: insort_key_last)

lemma newest_first_recorded:
  assumes "\<forall>c \<in> set cps. cp_through_sequence c < cp_through_sequence cp"
  shows "newest_first (record_checkpoint cp cps) = cp # newest_first cps"
proof -
  from assms have "record_checkpoint cp cps = cps @ [cp]" by (auto simp: record_checkpoint_def list_ex_iff)
  with assms show ?thesis by (simp add: newest_first_def sort_key_newest less_imp_le)
qed

lemma map_error_Inr: "map_sum f id r = Inr x \<longleftrightarrow> r = Inr x"
  by (cases r) simp_all

lemma snapshot_parts:
  assumes "snapshot env re benv through created_at db cps bst = (Inr (cp, db', cps'), bst')"
    and "derived_records env re db = Inr live"
  obtains address r where "blob_address_from_digest (projection_hash re live) = Inr address"
    and "store_blob benv live address bst = (Inr r, bst')"
    and "cp = checkpoint_for address (projection_hash re live) live through created_at"
    and "cps' = record_checkpoint cp cps"
    and "derived db' = derived db" and "pg_events db' = pg_events db" and "t_attempt db' = t_attempt db"
proof -
  from assms obtain address r bst1 where a: "blob_address_from_digest (projection_hash re live) = Inr address"
    and s: "blob_refused (store_blob benv live address bst) = (Inr r, bst')"
    and cp: "cp = checkpoint_for address (projection_hash re live) live through created_at"
    and rest: "cps' = record_checkpoint cp cps"
      "db' = db\<lparr>pg_writer := map_option (\<lambda>w. w\<lparr>w_checkpoint_seq := through\<rparr>) (pg_writer db)\<rparr>"
    by (auto simp: snapshot_def chain_Inr Let_def map_error_Inr)
  from s have "store_blob benv live address bst = (Inr r, bst')"
    by (cases "store_blob benv live address bst"; cases "fst (store_blob benv live address bst)")
      (auto simp: blob_refused_def)
  with a cp rest show thesis by (intro that) (simp_all add: derived_def frame_def)
qed

lemma snapshot_validates:
  assumes run: "blob_reachable S kek bst" and env: "blob_env_ok S kek benv" "blob_env_ok S kek benv2"
    and quiet: "\<forall>c. \<not> be_fails benv2 c" and sha: "re_sha re = su_sha S" and ser: "serializer_ok re"
    and live: "derived_records env re db = Inr live"
    and collision: "\<forall>q. projection_hash re q = projection_hash re live \<longrightarrow> q = live"
    and snap: "snapshot env re benv through created_at db cps bst = (Inr (cp, db', cps'), bst')"
    and mark: "through \<le> mark"
  shows "validate re (\<lambda>a. pg_reads (benv2, a, bst')) cp (Some mark) = Inr ()"
proof -
  obtain address r where a: "blob_address_from_digest (projection_hash re live) = Inr address"
    and st: "store_blob benv live address bst = (Inr r, bst')"
    and cp: "cp = checkpoint_for address (projection_hash re live) live through created_at"
    by (rule snapshot_parts [OF snap live])
  from blob_address_roundtrip [OF a]
  have parse: "blob_address_parse (blob_address_as_str address) = Inr address" "digest_hex address = projection_hash re live"
    by simp_all
  have "blob_ok S kek empty_blobs" using blob_reachable_ok blob_run.initial by blast
  from store_blob_holds(1) [OF run this env(1) st] obtain p where p: "holds_blob S kek bst' (digest_hex address) p" ..
  with collision parse(2) sha have "p = live" by (auto simp: holds_blob_def projection_hash_def)
  with p have "length live < 2 ^ 63" by (auto simp: holds_blob_def stored_as_def)
  moreover from this p \<open>p = live\<close> env(2) quiet have h: "pg_holds (benv2, address, bst') live"
    by (auto simp: pg_holds_def blob_env_ok_def suite_ok_truncate)
  ultimately have "read_blob (pg_reads (benv2, address, bst')) (unat (of_nat (length live) :: u64)) [] = Inr live"
    using pg_blobs.read_back [OF h, of "[]"] by (simp add: unat_of_nat)
  moreover have "check_lines re 0 (split_lines live) = Inr ()"
    using records_clean [OF ser live [unfolded derived_records_def]] by (simp add: clean_def)
  ultimately show ?thesis using parse mark
    by (simp add: validate_def cp checkpoint_for_def)
qed

section \<open>What a verdict rests on\<close>

lemma first_valid_found:
  assumes "first_valid re rd mark cps = (Some cp, rejected)"
  shows "cp \<in> set cps" and "validate re rd cp mark = Inr ()"
  using assms by (induction cps arbitrary: rejected) (auto split: sum.splits prod.splits)

lemma newest_valid_found:
  assumes "newest_valid env re blobs mark cps = Inr (Some cp, rejected)"
  obtains rd where "blobs = Some rd" and "cp \<in> set cps" and "validate re rd cp mark = Inr ()"
proof -
  from assms obtain rd where b: "blobs = Some rd" and f: "first_valid re rd mark (newest_first cps) = (Some cp, rejected)"
    by (auto simp: newest_valid_def read_checkpoints_def and_then_Inr split: option.splits)
  from first_valid_found [OF f] b show thesis by (intro that) (simp_all add: newest_first_def)
qed

lemma validated:
  assumes "validate re rd cp mark = Inr ()"
  obtains address records where "blob_address_parse (ref_digest (cp_records_ref cp)) = Inr address"
    and "read_blob (rd address) (unat (ref_byte_size (cp_records_ref cp))) [] = Inr records"
    and "projection_hash re records = cp_projection_hash cp"
  using assms by (auto simp: validate_def and_then_Inr map_error_Inr guard_that_Inr)

lemma recovery_verified:
  assumes "recovery_verdict env re fuel b mark live anchor db = Some (Inr (Verified m, db'))"
  obtains cp where "anchor = Some cp" and "cp_through_sequence cp = m" and "mark = Some m"
    and "cp_projection_hash cp = projection_hash re live" and "db' = db"
  using assms
  by (cases mark; cases "live = []")
    (auto simp: recovery_verdict_def warm_verdict_def cold_verdict_def and_then_Inr split: option.splits if_splits)

lemma recover_parts:
  assumes "recover env re fuel blobs cps db = Some (Inr (report, db'))"
  obtains live anchor where "derived_records env re db = Inr live"
    and "watermark_of env db = Inr (rr_watermark report)"
    and "newest_valid env re blobs (rr_watermark report) cps = Inr (anchor, rr_rejected report)"
    and "rr_live_hash report = projection_hash re live"
    and "recovery_verdict env re fuel (blobs \<noteq> None) (rr_watermark report) live anchor db
      = Some (Inr (rr_verdict report, db'))"
  using assms
  by (auto simp: recover_def and_then_Inr split: sum.splits prod.splits option.splits)

lemma recover_warm:
  assumes quiet: "\<forall>c. \<not> se_fails env c" and mark: "watermark_of env db = Inr (Some mark)"
    and live: "derived_records env re db = Inr live" "live \<noteq> []"
    and valid: "newest_valid env re (Some rd) (Some mark) cps = Inr (anchor, rejected)"
  shows "\<exists>u. recover env re fuel (Some rd) cps db = Some (Inr (\<lparr>rr_watermark = Some mark,
    rr_live_hash = projection_hash re live, rr_verdict = warm_verdict True mark (projection_hash re live) anchor,
    rr_rejected = rejected, rr_uncertain = u\<rparr>, db))"
  using assms by (simp add: recover_def recovery_verdict_def uncertain_attempts_def)

lemma snapshot_recovers:
  assumes "blob_reachable S kek bst" and "blob_env_ok S kek benv" and "blob_env_ok S kek benv2"
    and "\<forall>c. \<not> be_fails benv2 c" and "\<forall>c. \<not> se_fails env2 c"
    and "re_sha re = su_sha S" and "serializer_ok re"
    and "derived_records env re db = Inr live" and "live \<noteq> []"
    and "\<forall>q. projection_hash re q = projection_hash re live \<longrightarrow> q = live"
    and "watermark_of env2 db = Inr (Some through)"
    and "\<forall>c \<in> set cps. cp_through_sequence c < through"
    and "snapshot env re benv through created_at db cps bst = (Inr (cp, db', cps'), bst')"
  shows "\<exists>report. recover env2 re fuel (Some (\<lambda>a. pg_reads (benv2, a, bst'))) cps' db' = Some (Inr (report, db'))
    \<and> rr_verdict report = Verified through \<and> rr_rejected report = []"
proof -
  let ?rd = "\<lambda>a. pg_reads (benv2, a, bst')"
  obtain address r where cp: "cp = checkpoint_for address (projection_hash re live) live through created_at"
    and cps': "cps' = record_checkpoint cp cps"
    and db': "derived db' = derived db" "pg_events db' = pg_events db"
    by (rule snapshot_parts [OF assms(13,8)])
  have seq: "cp_through_sequence cp = through" and hash: "cp_projection_hash cp = projection_hash re live"
    by (simp_all add: cp checkpoint_for_def)
  have "derived_records env2 re db' = Inr live"
    using records_env [OF assms(8) [unfolded derived_records_def] assms(5)] derived_records_cong [OF db'(1), of env2 re]
    by (simp add: derived_records_def)
  moreover have "watermark_of env2 db' = Inr (Some through)" using assms(11) unfolding watermark_of_def db'(2) .
  moreover have "validate re ?rd cp (Some through) = Inr ()"
    by (rule snapshot_validates [OF assms(1-4,6-8,10,13) order_refl])
  then have "newest_valid env2 re (Some ?rd) (Some through) cps' = Inr (Some cp, [])"
    using assms(5,12) by (simp add: newest_valid_def read_checkpoints_def cps' newest_first_recorded seq)
  ultimately obtain u where "recover env2 re fuel (Some ?rd) cps' db' = Some (Inr (\<lparr>rr_watermark = Some through,
    rr_live_hash = projection_hash re live, rr_verdict = warm_verdict True through (projection_hash re live) (Some cp),
    rr_rejected = [], rr_uncertain = u\<rparr>, db'))"
    using recover_warm [OF assms(5) _ _ assms(9)] by blast
  then show ?thesis by (simp add: warm_verdict_def seq hash)
qed

end
