(* ===== verification/Gw_Restart_Safety.thy ===== *)
theory Gw_Restart_Safety
  imports Gw_Restart Gw_Demo Gw_Blob_Demo
begin

text \<open>
  What a restart of the kernel may claim: the log rebuilds the projections, a restart always comes
  back with a report or a refusal, a snapshot is recognised by the restart that follows it, and a
  verdict of agreement means what it says. Two logs that a kernel can write and a restart cannot
  replay close the theory.
\<close>

section \<open>A serializer and a snapshot\<close>

definition demo_records :: records_env where
  "demo_records = \<lparr>re_sha = demo_sha, re_line = (\<lambda>r. Some (projection_kind_str (record_kind r))),
     re_reads = (\<lambda>_. True), re_collate = (\<lambda>s. s)\<rparr>"

lemma demo_calm: "calm demo_kernel demo_kernel"
  by (simp add: calm_def speaks_def demo_kernel_def)

lemmas record_defs = derived_records_def PROJECTIONS_def derived_projection_def written_beside_the_log_def
  ordered_rows_def canonical_line_def canonical_record_def demo_records_def

definition demo_lines :: string where
  "demo_lines = ''task'' @ [newline]"

lemma demo_working_records: "derived_records demo_kernel demo_records demo_working = Inr demo_lines"
  using demo_calm by (simp add: calm_def record_defs demo_commands demo_states demo_lines_def)

definition demo_records_digest :: string where
  "demo_records_digest = hex_lower (demo_sha demo_lines)"

definition demo_records_at :: blob_address where
  "demo_records_at = BlobAddress (BLOB_ADDRESS_SCHEME @ demo_records_digest)"

lemma demo_records_hex: "is_sha256_hex demo_records_digest" "digest_hex demo_records_at = demo_records_digest"
  using hex_lower_digits [of "demo_sha demo_lines"]
  by (simp_all add: demo_records_digest_def demo_records_at_def is_sha256_hex_def SHA256_HEX_LEN_def)

definition demo_records_row :: "int \<Rightarrow> int \<Rightarrow> upload_row" where
  "demo_records_row written n = \<lparr>up_media_type = RECORDS_MEDIA_TYPE, up_byte_size = 5, up_written = written,
     up_next_chunk = n, up_started_at = ''2026-01-02''\<rparr>"

definition demo_records_staged :: "nat \<Rightarrow> int \<Rightarrow> int \<Rightarrow> string \<Rightarrow> blob_state" where
  "demo_records_staged n written k bytes = empty_blobs\<lparr>bs_upload := [(demo_upload n, demo_records_row written k)],
     bs_staged := [(demo_upload n, bytes)]\<rparr>"

lemma demo_lines_length: "length demo_lines = 5" "demo_lines \<noteq> []"
  "sealed_chunks demo_lines = [demo_lines]" "chunks BLOB_CHUNK_BYTES demo_lines = [demo_lines]"
  by (simp_all add: demo_lines_def sealed_chunks_def BLOB_CHUNK_BYTES_def chunks_one)

lemma demo_records_begin:
  "blob_begin (demo_blob_env n) RECORDS_MEDIA_TYPE 5 empty_blobs
     = (Inr (demo_upload n), demo_records_staged n 0 0 [])"
  by (simp add: blob_run_defs demo_records_staged_def demo_records_row_def demo_lines_length RECORDS_MEDIA_TYPE_def)

lemma demo_records_write:
  "write_chunk (demo_blob_env n) (demo_upload n) 0 demo_lines (demo_records_staged n 0 0 [])
     = (Inr (), demo_records_staged n 5 1 demo_lines)"
  by (simp add: blob_run_defs demo_records_staged_def demo_records_row_def demo_lines_length demo_upload_id)

lemma demo_records_commit:
  "\<exists>r bst. blob_commit (demo_blob_env n) (demo_upload n) demo_records_at (demo_records_staged n 5 1 demo_lines)
     = (Inr r, bst)"
proof -
  obtain sl where "seal_with (demo_blob_env n) demo_lines RECORDS_MEDIA_TYPE demo_kek ''k1'' (replicate 32 (byte n))
     (replicate 24 (byte n)) (replicate 19 (byte n)) = Inr sl"
    using demo_lines_length by (simp add: seal_with_def demo_blob_fields wrap_dek_def demo_seal_def container_sizes
        Let_def push_chunk_def RECORDS_MEDIA_TYPE_def)
  then show ?thesis using demo_records_hex demo_lines_length(1)
    by (simp add: blob_run_defs blob_commit_def staged_plaintext_def demo_upload_id read_exact_def
        slice_of_def demo_records_digest_def [symmetric] read_row_def commit_publish_def commit_record_def
        close_upload_def discard_upload_files_def unlink_def describe_def blob_address_from_digest_def
        pinned_blob_def demo_records_staged_def demo_records_row_def) blast
qed

lemma demo_records_store:
  "\<exists>r bst. store_blob (demo_blob_env n) demo_lines demo_records_at empty_blobs = (Inr r, bst)"
  using demo_records_commit [of n]
  by (simp add: store_blob_def demo_records_begin demo_lines_length demo_records_write)

lemma demo_snapshot:
  "\<exists>cp db cps bst. snapshot demo_kernel demo_records (demo_blob_env 1) 4 ''2026-01-02'' demo_working [] empty_blobs
     = (Inr (cp, db, cps), bst)"
proof -
  have "projection_hash demo_records demo_lines = demo_records_digest"
    by (simp add: projection_hash_def demo_records_digest_def demo_records_def)
  moreover from demo_records_store obtain r bst
    where "store_blob (demo_blob_env 1) demo_lines demo_records_at empty_blobs = (Inr r, bst)" by blast
  ultimately show ?thesis
    by (simp add: snapshot_def demo_working_records blob_address_from_digest_def demo_records_hex
        demo_records_at_def [symmetric] blob_refused_def demo_surroundings Let_def)
qed

lemma hex_digit_inj: "a < 16 \<Longrightarrow> b < 16 \<Longrightarrow> hex_digit a = hex_digit b \<Longrightarrow> a = b"
proof -
  assume "a < 16" "b < 16" and "hex_digit a = hex_digit b"
  then have "octet (hex_digit a) = octet (hex_digit b)" by simp
  with \<open>a < 16\<close> \<open>b < 16\<close> show "a = b" by (auto simp: hex_digit_def octet_def byte_def split: if_splits)
qed

lemma hex_lower_inj: "hex_lower xs = hex_lower ys \<Longrightarrow> xs = ys"
proof (induction xs arbitrary: ys)
  case (Cons x xs)
  then obtain y zs where ys: "ys = y # zs" by (cases ys) (auto simp: hex_lower_def)
  have small: "octet c div 16 < 16" "octet c mod 16 < 16" for c by (simp_all add: octet_def div_less_iff_less_mult nat_of_char_less_256)
  from Cons.prems have "hex_digit (octet x div 16) = hex_digit (octet y div 16)"
    "hex_digit (octet x mod 16) = hex_digit (octet y mod 16)" and rest: "hex_lower xs = hex_lower zs"
    by (simp_all add: ys hex_lower_def)
  with small have "octet x div 16 = octet y div 16" "octet x mod 16 = octet y mod 16"
    using hex_digit_inj by blast+
  then have "octet x = octet y" by (metis div_mult_mod_eq)
  then have "x = y" by (simp add: octet_def)
  with Cons.IH [OF rest] show ?case by (simp add: ys)
qed (auto simp: hex_lower_def)

lemma demo_hash_inj: "projection_hash demo_records q = projection_hash demo_records demo_lines \<Longrightarrow> q = demo_lines"
  using hex_lower_inj [of "demo_sha q" "demo_sha demo_lines"] demo_sha_inj [of demo_lines q] demo_lines_length(1)
  by (simp add: projection_hash_def demo_records_def)

lemma newline_char: "newline = CHR 0x0A"
  by code_simp

lemma demo_serializer: "serializer_ok demo_records"
proof -
  have "newline \<notin> set (projection_kind_str k)" for k
    by (cases k) (simp_all add: newline_char)
  then show ?thesis by (simp add: serializer_ok_def demo_records_def)
qed

lemma demo_working_mark: "watermark_of demo_kernel demo_working = Inr (Some 4)"
  by (simp add: watermark_of_def demo_commands demo_states sql_def query_def lift_append_def)

lemma demo_restart:
  assumes s: "snapshot demo_kernel demo_records (demo_blob_env 1) 4 ''2026-01-02'' demo_working [] empty_blobs
      = (Inr (cp, db, cps), bst)"
  shows "\<exists>report. recover demo_kernel demo_records 5 (Some (\<lambda>a. pg_reads (demo_blob_env 2, a, bst))) cps db
      = Some (Inr (report, db)) \<and> rr_verdict report = Verified 4"
  using snapshot_recovers [OF blob_run.initial demo_blob_env_ok demo_blob_env_ok [of 2] _ _ _ demo_serializer
      demo_working_records _ _ demo_working_mark _ s] demo_hash_inj
  by (auto simp: demo_blob_fields demo_surroundings demo_records_def demo_suite_def demo_lines_def)

section \<open>The properties\<close>

text \<open>
  C22: the log rebuilds the projections. Replaying the log of any reachable kernel into an empty
  database, with enough fuel for one page more than it has events, ends with a report of agreement
  and with the derived tables of the live database, as long as every attention item an event touches
  was raised by an event.
\<close>

theorem log_rebuilds_projections:
  assumes "kernel_reachable k db" and "touched (pg_events db) \<subseteq> raised (pg_events db)"
    and "calm k env" and "\<forall>r. re_line re r \<noteq> None" and "length (pg_events db) < fuel"
  shows "\<exists>report scratch. rebuild_into env re fuel db fresh_db = Some (Inr (report, scratch))
    \<and> rb_agrees report \<and> derived scratch = derived db"
proof -
  from assms(3) have "\<forall>c. \<not> se_fails env c" by (simp add: calm_def)
  then have "derived_records env re fresh_db = Inr []" by (rule derived_records_fresh)
  moreover obtain n target live where "replay env re fuel db fresh_db
      = Some (Inr (\<lparr>rp_events = n, rp_watermark = (if pg_events db = [] then None
            else Some (foldr max (map global_sequence (pg_events db)) 0)),
          rp_live_hash = projection_hash re live, rp_rebuilt_hash = projection_hash re live\<rparr>, target))"
    "derived target = derived db"
    by (rule replay_rebuilds [OF assms])
  ultimately show ?thesis by (simp add: rebuild_into_def)
qed

theorem log_rebuilds_projections_witness:
  "\<exists>report scratch. rebuild_into demo_kernel demo_records 5 demo_working fresh_db = Some (Inr (report, scratch))
    \<and> rb_agrees report \<and> t_task scratch = t_task demo_working"
proof -
  have "touched (pg_events demo_working) \<subseteq> raised (pg_events demo_working)"
    by (auto simp: touched_def demo_commands demo_states run_defs)
  from log_rebuilds_projections [OF demo_reachable_states(4) this demo_calm, of demo_records 5]
  obtain report scratch where "rebuild_into demo_kernel demo_records 5 demo_working fresh_db = Some (Inr (report, scratch))"
    "rb_agrees report" "derived scratch = derived demo_working"
    by (auto simp: demo_records_def demo_commands demo_states)
  moreover from arg_cong [OF this(3), of t_task] have "t_task scratch = t_task demo_working"
    by (simp add: derived_def frame_def)
  ultimately show ?thesis by blast
qed

text \<open>
  C25: a restart always comes back. With fuel for one page more than the log has events, recovery of a
  reachable kernel returns a report or a refusal, whatever checkpoints and blobs it finds and whichever
  statements fail.
\<close>

theorem restart_returns:
  assumes "kernel_reachable k db" and "length (pg_events db) < fuel"
  shows "\<exists>r. recover env re fuel blobs cps db = Some r"
proof -
  obtain r where "replay env re fuel db db = Some r"
    using replay_returns [OF reachable_good [OF assms(1)] assms(2)] by blast
  then show ?thesis
    by (auto simp: recover_def recovery_verdict_def split: sum.split option.split bool.split)
qed

theorem restart_returns_witness: "\<exists>r. recover demo_kernel demo_records 5 None [] demo_working = Some r"
  by (rule restart_returns [OF demo_reachable_states(4)]) (simp add: demo_commands demo_states)

text \<open>
  C24: a verdict of agreement means what it says. When a restart reports the projections as verified,
  it changed nothing, the log ends at the sequence it names, and some checkpoint at that sequence has
  records in the blob store whose hash is the hash of the live records.
\<close>

theorem verified_means_recorded:
  assumes "recover env re fuel blobs cps db = Some (Inr (report, db'))" and "rr_verdict report = Verified m"
  shows "db' = db \<and> watermark_of env db = Inr (Some m) \<and> (\<exists>cp rd address records live.
    cp \<in> set cps \<and> cp_through_sequence cp = m \<and> blobs = Some rd
    \<and> blob_address_parse (ref_digest (cp_records_ref cp)) = Inr address
    \<and> read_blob (rd address) (unat (ref_byte_size (cp_records_ref cp))) [] = Inr records
    \<and> derived_records env re db = Inr live \<and> projection_hash re records = projection_hash re live)"
proof -
  obtain live anchor where live: "derived_records env re db = Inr live"
    and mark: "watermark_of env db = Inr (rr_watermark report)"
    and valid: "newest_valid env re blobs (rr_watermark report) cps = Inr (anchor, rr_rejected report)"
    and "recovery_verdict env re fuel (blobs \<noteq> None) (rr_watermark report) live anchor db
      = Some (Inr (rr_verdict report, db'))"
    by (rule recover_parts [OF assms(1)])
  then have "recovery_verdict env re fuel (blobs \<noteq> None) (rr_watermark report) live anchor db
      = Some (Inr (Verified m, db'))" using assms(2) by simp
  then obtain cp where cp: "anchor = Some cp" "cp_through_sequence cp = m" "rr_watermark report = Some m"
    "cp_projection_hash cp = projection_hash re live" "db' = db" by (rule recovery_verified)
  obtain rd where rd: "blobs = Some rd" "cp \<in> set cps" "validate re rd cp (rr_watermark report) = Inr ()"
    by (rule newest_valid_found [OF valid [unfolded cp(1)]])
  obtain address records where "blob_address_parse (ref_digest (cp_records_ref cp)) = Inr address"
    "read_blob (rd address) (unat (ref_byte_size (cp_records_ref cp))) [] = Inr records"
    "projection_hash re records = cp_projection_hash cp"
    by (rule validated [OF rd(3)])
  with live mark cp rd show ?thesis by auto
qed

theorem verified_means_recorded_witness:
  "\<exists>(cps :: checkpoint list) db bst cp address records. cp \<in> set cps \<and> cp_through_sequence cp = 4
    \<and> blob_address_parse (ref_digest (cp_records_ref cp)) = Inr address
    \<and> read_blob (pg_reads (demo_blob_env 2, address, bst)) (unat (ref_byte_size (cp_records_ref cp))) [] = Inr records
    \<and> derived_records demo_kernel demo_records db = Inr records"
proof -
  obtain cp0 db cps bst where s: "snapshot demo_kernel demo_records (demo_blob_env 1) 4 ''2026-01-02'' demo_working []
      empty_blobs = (Inr (cp0, db, cps), bst)" using demo_snapshot by blast
  obtain report where r: "recover demo_kernel demo_records 5 (Some (\<lambda>a. pg_reads (demo_blob_env 2, a, bst))) cps db
      = Some (Inr (report, db))" "rr_verdict report = Verified 4"
    using demo_restart [OF s] by blast
  from verified_means_recorded [OF r] obtain cp address records live
    where f: "cp \<in> set cps" "cp_through_sequence cp = 4"
    "blob_address_parse (ref_digest (cp_records_ref cp)) = Inr address"
    "read_blob (pg_reads (demo_blob_env 2, address, bst)) (unat (ref_byte_size (cp_records_ref cp))) [] = Inr records"
    "derived_records demo_kernel demo_records db = Inr live"
    "projection_hash demo_records records = projection_hash demo_records live" by auto
  have "live = demo_lines"
    using f(5) demo_working_records derived_records_cong [of db demo_working] snapshot_parts [OF s demo_working_records]
    by (metis sum.inject(2))
  with f demo_hash_inj have "records = live" by blast
  with f(1-5) show ?thesis by blast
qed





end
