(* ===== verification/Gw_Frame.thy ===== *)
theory Gw_Frame
  imports Gw_Container Gw_Command
begin

text \<open>
  The frame codec (\<open>gwk-kernel/src/wire/frame.rs\<close>) and the bounds it enforces
  (\<open>gwk-domain/src/protocol.rs\<close>): \<open>[u32 big-endian body_length][u8 kind][body]\<close>, every length checked
  as announced, and a byte allowance per connection and window that makes a fast peer wait. The clock
  is a parameter: \<open>ck_now\<close> is a reading taken at or after a moment, \<open>ck_wake\<close> the moment a sleep until
  then ends; \<open>clock_ok\<close> says that neither runs backwards. Instants and durations are \<open>nat\<close>s of one unit.
\<close>

section \<open>Bounds and kinds\<close>

definition PROTOCOL_MINOR :: u32 where "PROTOCOL_MINOR = 1"
definition FRAME_LENGTH_PREFIX_BYTES :: nat where "FRAME_LENGTH_PREFIX_BYTES = 4"
definition FRAME_BODY_MIN_BYTES :: nat where "FRAME_BODY_MIN_BYTES = 1"
definition FRAME_BODY_MAX_BYTES :: nat where "FRAME_BODY_MAX_BYTES = 4 * 1024 * 1024"
definition FRAME_PAYLOAD_MAX_BYTES :: nat where "FRAME_PAYLOAD_MAX_BYTES = FRAME_BODY_MAX_BYTES - 1"
definition HELLO_MAX_BYTES :: nat where "HELLO_MAX_BYTES = 64 * 1024"
definition CONNECTION_INGRESS_BYTES_PER_WINDOW :: nat where
  "CONNECTION_INGRESS_BYTES_PER_WINDOW = 8 * 1024 * 1024"
definition CONNECTION_EGRESS_BYTES_PER_WINDOW :: nat where
  "CONNECTION_EGRESS_BYTES_PER_WINDOW = 8 * 1024 * 1024"
definition CONNECTION_BUDGET_WINDOW_SECS :: nat where "CONNECTION_BUDGET_WINDOW_SECS = 1"

lemmas frame_bounds = FRAME_LENGTH_PREFIX_BYTES_def FRAME_BODY_MIN_BYTES_def FRAME_BODY_MAX_BYTES_def
  FRAME_PAYLOAD_MAX_BYTES_def HELLO_MAX_BYTES_def

datatype frame_kind = Frame_Json | Frame_PtyRaw

fun frame_kind_as_u8 :: "frame_kind \<Rightarrow> char" where
  "frame_kind_as_u8 Frame_Json = byte 1"
| "frame_kind_as_u8 Frame_PtyRaw = byte 2"

definition frame_kind_from_u8 :: "char \<Rightarrow> frame_kind option" where
  "frame_kind_from_u8 v =
     (if octet v = 1 then Some Frame_Json else if octet v = 2 then Some Frame_PtyRaw else None)"

lemma frame_kind_roundtrip [simp]: "frame_kind_from_u8 (frame_kind_as_u8 k) = Some k"
  by (cases k) (simp_all add: frame_kind_from_u8_def octet_def byte_def)

section \<open>The allowance of a connection\<close>

record clock =
  ck_now :: "nat \<Rightarrow> nat"
  ck_wake :: "nat \<Rightarrow> nat"

definition clock_ok :: "clock \<Rightarrow> bool" where
  "clock_ok c \<longleftrightarrow> (\<forall>t. t \<le> ck_now c t \<and> t \<le> ck_wake c t)"

datatype direction = Ingress | Egress

record wire_budget =
  ingress_per_window :: nat
  egress_per_window :: nat
  bu_window :: nat
  ingress_spent :: nat
  egress_spent :: nat
  window_started :: nat

definition with_window :: "nat \<Rightarrow> nat \<Rightarrow> nat \<Rightarrow> nat \<Rightarrow> wire_budget" where
  "with_window now ingress egress w =
     \<lparr>ingress_per_window = ingress, egress_per_window = egress, bu_window = w,
      ingress_spent = 0, egress_spent = 0, window_started = now\<rparr>"

text \<open>\<open>Budget::new\<close>, with \<open>ticks\<close> units of the clock in a second.\<close>

definition budget_new :: "nat \<Rightarrow> nat \<Rightarrow> nat \<Rightarrow> nat \<Rightarrow> wire_budget" where
  "budget_new ticks now ingress egress =
     with_window now ingress egress (CONNECTION_BUDGET_WINDOW_SECS * ticks)"

text \<open>The allowance \<open>serve.rs\<close> opens each half of a connection with.\<close>

definition connection_budget :: "nat \<Rightarrow> nat \<Rightarrow> wire_budget" where
  "connection_budget ticks now =
     budget_new ticks now CONNECTION_INGRESS_BYTES_PER_WINDOW CONNECTION_EGRESS_BYTES_PER_WINDOW"

fun per_window :: "direction \<Rightarrow> wire_budget \<Rightarrow> nat" where
  "per_window Ingress b = ingress_per_window b"
| "per_window Egress b = egress_per_window b"

fun spent :: "direction \<Rightarrow> wire_budget \<Rightarrow> nat" where
  "spent Ingress b = ingress_spent b"
| "spent Egress b = egress_spent b"

fun charge :: "direction \<Rightarrow> nat \<Rightarrow> wire_budget \<Rightarrow> wire_budget" where
  "charge Ingress n b = b\<lparr>ingress_spent := ingress_spent b + n\<rparr>"
| "charge Egress n b = b\<lparr>egress_spent := egress_spent b + n\<rparr>"

definition refill :: "clock \<Rightarrow> nat \<Rightarrow> wire_budget \<Rightarrow> wire_budget" where
  "refill c now b =
     (if bu_window b \<le> now - window_started b
      then b\<lparr>ingress_spent := 0, egress_spent := 0, window_started := ck_now c now\<rparr> else b)"

text \<open>The loop of \<open>spend\<close>; it yields the moment the bytes were admitted. Fuel 2 is enough on any clock.\<close>

fun spend_loop :: "clock \<Rightarrow> nat \<Rightarrow> nat \<Rightarrow> direction \<Rightarrow> nat \<Rightarrow> wire_budget \<Rightarrow> (nat \<times> wire_budget) option" where
  "spend_loop c 0 now d n b = None"
| "spend_loop c (Suc fuel) now d n b =
     (let b1 = refill c now b in
      if spent d b1 + n \<le> per_window d b1 then Some (now, charge d n b1)
      else spend_loop c fuel (ck_wake c (now + (bu_window b1 - (now - window_started b)))) d n b1)"

definition spend :: "clock \<Rightarrow> nat \<Rightarrow> direction \<Rightarrow> nat \<Rightarrow> wire_budget \<Rightarrow> (kernel_error_code + nat \<times> wire_budget) option" where
  "spend c now d n b =
     (if per_window d b < n then Some (Inl Code_FrameSize)
      else map_option Inr (spend_loop c 2 now d n b))"

section \<open>Reading and writing a frame\<close>

record wire_frame =
  fr_kind :: frame_kind
  fr_body :: bytes

datatype incoming = Incoming_Frame wire_frame | Incoming_Closed

text \<open>A transport: the bytes still to come, and whether it then ends or fails.\<close>

record reader =
  rd_bytes :: bytes
  rd_broken :: bool

definition take_exact :: "nat \<Rightarrow> reader \<Rightarrow> (kernel_error_code + bytes) \<times> reader" where
  "take_exact n r =
     (if length (rd_bytes r) < n then (Inl Code_Storage, r\<lparr>rd_bytes := []\<rparr>)
      else (Inr (take n (rd_bytes r)), r\<lparr>rd_bytes := drop n (rd_bytes r)\<rparr>))"

text \<open>
  The state of a connection half is the time of its last clock reading, its allowance and its transport.
  The allowance is charged at a later reading, once the length has arrived.
\<close>

definition read_frame ::
  "clock \<Rightarrow> nat \<Rightarrow> nat \<times> wire_budget \<times> reader
     \<Rightarrow> ((kernel_error_code + incoming) \<times> (nat \<times> wire_budget \<times> reader)) option" where
  "read_frame c max_body = (\<lambda>(now, b, r).
     if rd_bytes r = [] then
       Some (if rd_broken r then Inl Code_Storage else Inr Incoming_Closed, (now, b, r))
     else
       (case take_exact FRAME_LENGTH_PREFIX_BYTES r of
          (Inl e, r1) \<Rightarrow> Some (Inl e, (now, b, r1))
        | (Inr pre, r1) \<Rightarrow>
            let announced = from_be_bytes pre in
            if announced < FRAME_BODY_MIN_BYTES \<or> min max_body FRAME_BODY_MAX_BYTES < announced
            then Some (Inl Code_FrameSize, (now, b, r1))
            else
              (case spend c (ck_now c now) Ingress (FRAME_LENGTH_PREFIX_BYTES + announced) b of
                 None \<Rightarrow> None
               | Some (Inl e) \<Rightarrow> Some (Inl e, (now, b, r1))
               | Some (Inr (at, b1)) \<Rightarrow>
                   (case take_exact announced r1 of
                      (Inl e, r2) \<Rightarrow> Some (Inl e, (max at (window_started b1), b1, r2))
                    | (Inr body, r2) \<Rightarrow>
                        Some (and_then (ok_or Code_Handshake (frame_kind_from_u8 (hd body))) (\<lambda>kind.
                          Inr (Incoming_Frame \<lparr>fr_kind = kind, fr_body = tl body\<rparr>)),
                          (max at (window_started b1), b1, r2))))))"

definition write_frame ::
  "clock \<Rightarrow> frame_kind \<Rightarrow> bytes \<Rightarrow> nat \<times> wire_budget \<times> bytes
     \<Rightarrow> ((kernel_error_code + unit) \<times> (nat \<times> wire_budget \<times> bytes)) option" where
  "write_frame c kind body = (\<lambda>(now, b, out).
     let announced = length body + 1 in
     if 2 ^ 32 \<le> announced \<or> FRAME_BODY_MAX_BYTES < announced then Some (Inl Code_FrameSize, (now, b, out))
     else
       (case spend c (ck_now c now) Egress (FRAME_LENGTH_PREFIX_BYTES + announced) b of
          None \<Rightarrow> None
        | Some (Inl e) \<Rightarrow> Some (Inl e, (now, b, out))
        | Some (Inr (at, b1)) \<Rightarrow>
            Some (Inr (), (max at (window_started b1), b1,
              out @ to_be_bytes 4 announced @ frame_kind_as_u8 kind # body))))"

section \<open>Waiting\<close>

lemma refill_simps [simp]:
  "bu_window (refill c now b) = bu_window b" "per_window d (refill c now b) = per_window d b"
  by (cases d; simp add: refill_def)+

lemma charge_simps [simp]:
  "bu_window (charge d n b) = bu_window b" "per_window d' (charge d n b) = per_window d' b"
  "window_started (charge d n b) = window_started b"
  "spent d' (charge d n b) = (if d' = d then spent d b + n else spent d' b)"
  by (cases d; cases d'; simp)+

lemma refill_due: "bu_window b \<le> now - window_started b \<Longrightarrow>
    spent d (refill c now b) = 0 \<and> window_started (refill c now b) = ck_now c now"
  by (cases d) (simp_all add: refill_def)

lemma refill_early: "\<not> bu_window b \<le> now - window_started b \<Longrightarrow> refill c now b = b"
  by (simp add: refill_def)

text \<open>
  One admission: at once, in the window that is open or in a new one, or after one sleep in a new one.
\<close>

lemma spend_admits:
  assumes "spend c now d n b = Some (Inr (at, b'))" and "clock_ok c" and "window_started b \<le> now"
  shows "b' = charge d n (refill c at b)" and "now \<le> at" and "spent d (refill c at b) + n \<le> per_window d b"
proof -
  from assms(1) have n: "n \<le> per_window d b" and loop: "spend_loop c 2 now d n b = Some (at, b')"
    by (auto simp: spend_def split: if_splits)
  from loop consider
      "spent d (refill c now b) + n \<le> per_window d b" "at = now" "b' = charge d n (refill c now b)"
    | "\<not> spent d (refill c now b) + n \<le> per_window d b"
      "at = ck_wake c (now + (bu_window b - (now - window_started b)))"
      "spent d (refill c at (refill c now b)) + n \<le> per_window d b" "b' = charge d n (refill c at (refill c now b))"
    by (auto simp: numeral_2_eq_2 Let_def split: if_splits)
  then have "b' = charge d n (refill c at b) \<and> now \<le> at \<and> spent d (refill c at b) + n \<le> per_window d b"
  proof cases
    case 2
    then have "\<not> bu_window b \<le> now - window_started b" using refill_due [of b now d c] n by auto
    moreover have "now \<le> at" unfolding 2(2) using assms(2) by (meson clock_ok_def le_add1 le_trans)
    ultimately show ?thesis using 2(3,4) by (simp add: refill_early)
  qed simp
  then show "b' = charge d n (refill c at b)" and "now \<le> at" and "spent d (refill c at b) + n \<le> per_window d b"
    by simp_all
qed

lemma spend_total:
  assumes "clock_ok c" and "window_started b \<le> now" and "n \<le> per_window d b"
  shows "\<exists>at. spend c now d n b = Some (Inr (at, charge d n (refill c at b))) \<and> now \<le> at"
proof -
  have "\<exists>at b'. spend_loop c 2 now d n b = Some (at, b')"
  proof (cases "spent d (refill c now b) + n \<le> per_window d b")
    case True
    then show ?thesis by (simp add: numeral_2_eq_2)
  next
    case False
    let ?at = "ck_wake c (now + (bu_window b - (now - window_started b)))"
    have early: "\<not> bu_window b \<le> now - window_started b" using False refill_due [of b now d c] assms(3) by auto
    moreover have "now + (bu_window b - (now - window_started b)) \<le> ?at" using assms(1) by (simp add: clock_ok_def)
    ultimately have "bu_window b \<le> ?at - window_started b" using assms(2) by simp
    then have "spent d (refill c ?at b) + n \<le> per_window d b" using refill_due [of b ?at d c] assms(3) by simp
    with False early show ?thesis by (simp add: numeral_2_eq_2 refill_early Let_def)
  qed
  then obtain at b' where "spend c now d n b = Some (Inr (at, b'))" using assms(3) by (auto simp: spend_def)
  with spend_admits [OF this assms(1,2)] show ?thesis by auto
qed

section \<open>What a window admits\<close>

definition admitted_bytes :: "direction \<Rightarrow> (nat \<Rightarrow> bool) \<Rightarrow> (nat \<times> direction \<times> nat) list \<Rightarrow> nat" where
  "admitted_bytes d during log = sum_list (map (\<lambda>(_, _, n). n) (filter (\<lambda>(at, d', _). d' = d \<and> during at) log))"

lemma admitted_bytes_simps [simp]:
  "admitted_bytes d during [] = 0"
  "admitted_bytes d during (xs @ ys) = admitted_bytes d during xs + admitted_bytes d during ys"
  "admitted_bytes d during [(at, d', n)] = (if d' = d \<and> during at then n else 0)"
  by (simp_all add: admitted_bytes_def)

lemma admitted_bytes_le: "admitted_bytes d during log \<le> admitted_bytes d (\<lambda>_. True) log"
  by (induction log) (auto simp: admitted_bytes_def)

lemma admitted_bytes_none:
  assumes "\<forall>(at, _) \<in> set log. \<not> during at" shows "admitted_bytes d during log = 0"
proof -
  have "filter (\<lambda>(at, d', _). d' = d \<and> during at) log = []" using assms by (auto simp: filter_empty_conv)
  then show ?thesis by (simp add: admitted_bytes_def)
qed

text \<open>
  The admissions split into those of the open window, those of the window before it and older ones, and
  no span as long as a window reaches from the open window back to the older ones.
\<close>

definition windowed :: "(nat \<times> direction \<times> nat) list \<Rightarrow> wire_budget \<Rightarrow> bool" where
  "windowed log b \<longleftrightarrow> (\<exists>older prev cur m. log = older @ prev @ cur
     \<and> (\<forall>d s. admitted_bytes d (\<lambda>at. s \<le> at \<and> at < s + bu_window b) (older @ prev) \<le> 2 * per_window d b)
     \<and> (\<forall>d. admitted_bytes d (\<lambda>_. True) prev \<le> per_window d b)
     \<and> (\<forall>d. admitted_bytes d (\<lambda>_. True) cur = spent d b \<and> spent d b \<le> per_window d b)
     \<and> (\<forall>(at, _) \<in> set older. at + bu_window b < m) \<and> (\<forall>(at, _) \<in> set prev. at < m)
     \<and> (\<forall>(at, _) \<in> set cur. m \<le> at \<and> at < window_started b + bu_window b) \<and> m \<le> window_started b)"

lemma windowedE:
  assumes "windowed log b"
  obtains older prev cur m where "log = older @ prev @ cur"
    and "\<forall>d s. admitted_bytes d (\<lambda>at. s \<le> at \<and> at < s + bu_window b) (older @ prev) \<le> 2 * per_window d b"
    and "\<forall>d. admitted_bytes d (\<lambda>_. True) prev \<le> per_window d b"
    and "\<forall>d. admitted_bytes d (\<lambda>_. True) cur = spent d b \<and> spent d b \<le> per_window d b"
    and "\<forall>(at, _) \<in> set older. at + bu_window b < m" "\<forall>(at, _) \<in> set prev. at < m"
      "\<forall>(at, _) \<in> set cur. m \<le> at \<and> at < window_started b + bu_window b" "m \<le> window_started b"
  using assms unfolding windowed_def by (elim exE conjE) rule

lemma windowed_bound:
  assumes "windowed log b"
  shows "admitted_bytes d (\<lambda>at. s \<le> at \<and> at < s + bu_window b) log \<le> 2 * per_window d b"
proof -
  let ?in = "\<lambda>at. s \<le> at \<and> at < s + bu_window b"
  obtain older prev cur m where log: "log = older @ prev @ cur"
    and q: "\<forall>d s. admitted_bytes d (\<lambda>at. s \<le> at \<and> at < s + bu_window b) (older @ prev) \<le> 2 * per_window d b"
    and p: "\<forall>d. admitted_bytes d (\<lambda>_. True) prev \<le> per_window d b"
    and k: "\<forall>d. admitted_bytes d (\<lambda>_. True) cur = spent d b \<and> spent d b \<le> per_window d b"
    and times: "\<forall>(at, _) \<in> set older. at + bu_window b < m" "\<forall>(at, _) \<in> set prev. at < m"
      "\<forall>(at, _) \<in> set cur. m \<le> at \<and> at < window_started b + bu_window b" "m \<le> window_started b"
    by (rule windowedE [OF assms])
  have old: "admitted_bytes d ?in (older @ prev) \<le> 2 * per_window d b" using q by blast
  have sums: "admitted_bytes d (\<lambda>_. True) prev \<le> per_window d b" "admitted_bytes d (\<lambda>_. True) cur \<le> per_window d b"
    using p k by simp_all
  show ?thesis
  proof (cases "\<exists>(at, _) \<in> set cur. ?in at")
    case True
    then have "m < s + bu_window b" using times(3) by fastforce
    then have "admitted_bytes d ?in older = 0" using times(1) by (intro admitted_bytes_none) fastforce
    then show ?thesis using admitted_bytes_le [of d ?in prev] admitted_bytes_le [of d ?in cur] sums
      by (simp add: log)
  next
    case False
    then have "admitted_bytes d ?in cur = 0" by (intro admitted_bytes_none) auto
    then show ?thesis using old by (simp add: log)
  qed
qed

lemma windowed_admit:
  assumes w: "windowed log b" and ws: "window_started b \<le> now" and c: "clock_ok c"
    and run: "spend c now d n b = Some (Inr (at, b'))" and pos: "0 < bu_window b"
  shows "windowed (log @ [(max at (window_started b'), d, n)]) b'"
proof -
  note adm = spend_admits [OF run c ws]
  let ?t = "max at (window_started b')"
  obtain older prev cur m where log: "log = older @ prev @ cur"
    and q: "\<forall>d s. admitted_bytes d (\<lambda>at. s \<le> at \<and> at < s + bu_window b) (older @ prev) \<le> 2 * per_window d b"
    and p: "\<forall>d. admitted_bytes d (\<lambda>_. True) prev \<le> per_window d b"
    and k: "\<forall>d. admitted_bytes d (\<lambda>_. True) cur = spent d b \<and> spent d b \<le> per_window d b"
    and times: "\<forall>(at, _) \<in> set older. at + bu_window b < m" "\<forall>(at, _) \<in> set prev. at < m"
      "\<forall>(at, _) \<in> set cur. m \<le> at \<and> at < window_started b + bu_window b" "m \<le> window_started b"
    by (rule windowedE [OF w])
  show ?thesis
  proof (cases "bu_window b \<le> at - window_started b")
    case True
    then have fresh: "spent d' (refill c at b) = 0" "window_started (refill c at b) = ck_now c at" for d'
      using refill_due by blast+
    have at: "window_started b + bu_window b \<le> ?t" using True pos by auto
    have b': "\<forall>d'. spent d' b' = (if d' = d then n else 0)" "window_started b' = ck_now c at"
      "bu_window b' = bu_window b" "\<forall>d'. per_window d' b' = per_window d' b"
      unfolding adm(1) by (simp_all add: fresh)
    moreover have "?t = window_started b'" using c b'(2) by (simp add: clock_ok_def max_def)
    moreover have "n \<le> per_window d b" using adm(3) fresh by simp
    moreover have "\<forall>(x, _) \<in> set (older @ prev). x + bu_window b < ?t" using times at by fastforce
    moreover have "\<forall>(x, _) \<in> set cur. x < ?t" using times(3) at by fastforce
    moreover have "\<forall>d s. admitted_bytes d (\<lambda>at. s \<le> at \<and> at < s + bu_window b) ((older @ prev) @ cur) \<le> 2 * per_window d b"
      using windowed_bound [OF w] by (simp add: log)
    ultimately show ?thesis using k pos
      unfolding windowed_def
      by (intro exI [of _ "older @ prev"] exI [of _ cur] exI [of _ "[(?t, d, n)]"] exI [of _ ?t]) (auto simp: log)
  next
    case False
    then have same: "refill c at b = b" by (rule refill_early)
    have b': "\<forall>d'. spent d' b' = spent d' b + (if d' = d then n else 0)" "window_started b' = window_started b"
      "bu_window b' = bu_window b" "\<forall>d'. per_window d' b' = per_window d' b"
      unfolding adm(1) by (simp_all add: same)
    moreover have "?t = at" using adm(2) ws b'(2) by simp
    moreover have "spent d b + n \<le> per_window d b" using adm(3) same by simp
    moreover have "m \<le> at" "at < window_started b + bu_window b" using False adm(2) times(4) ws by auto
    ultimately show ?thesis using q p k times
      unfolding windowed_def
      by (intro exI [of _ older] exI [of _ prev] exI [of _ "cur @ [(?t, d, n)]"] exI [of _ m]) (auto simp: log)
  qed
qed

lemma windowed_start:
  assumes "ingress_spent b = 0" and "egress_spent b = 0" shows "windowed [] b"
proof -
  have "spent d b = 0" for d using assms by (cases d) simp_all
  then show ?thesis unfolding windowed_def by (intro exI [of _ "[]"] exI [of _ "window_started b"]) auto
qed

section \<open>What a connection moves\<close>

definition wire_size :: "bytes \<Rightarrow> nat" where
  "wire_size body = FRAME_LENGTH_PREFIX_BYTES + (length body + 1)"

text \<open>
  A run of a connection: frames read and written over one allowance, each when its moment comes. An
  error is fatal and ends the run.
\<close>

inductive wire_run :: "wire_budget \<Rightarrow> (nat \<times> direction \<times> nat) list \<Rightarrow> nat \<Rightarrow> wire_budget \<Rightarrow> bool" for b0 where
  opened: "wire_run b0 [] (window_started b0) b0"
| received: "wire_run b0 log t b \<Longrightarrow> clock_ok c \<Longrightarrow> t \<le> now \<Longrightarrow>
    read_frame c max_body (now, b, r) = Some (Inr (Incoming_Frame f), (t', b', r')) \<Longrightarrow>
    wire_run b0 (log @ [(t', Ingress, wire_size (fr_body f))]) t' b'"
| sent: "wire_run b0 log t b \<Longrightarrow> clock_ok c \<Longrightarrow> t \<le> now \<Longrightarrow>
    write_frame c kind body (now, b, out) = Some (Inr (), (t', b', out')) \<Longrightarrow>
    wire_run b0 (log @ [(t', Egress, wire_size body)]) t' b'"

lemma take_exact_Inr:
  "take_exact n r = (Inr xs, r') \<longleftrightarrow> n \<le> length (rd_bytes r) \<and> xs = take n (rd_bytes r) \<and> r' = r\<lparr>rd_bytes := drop n (rd_bytes r)\<rparr>"
  by (auto simp: take_exact_def)

lemma read_frame_charges:
  assumes "read_frame c max_body (now, b, r) = Some (Inr (Incoming_Frame f), (t', b', r'))"
  obtains at where "spend c (ck_now c now) Ingress (wire_size (fr_body f)) b = Some (Inr (at, b'))"
    and "t' = max at (window_started b')" and "length (fr_body f) < FRAME_BODY_MAX_BYTES"
  using assms
  by (auto simp: read_frame_def Let_def take_exact_Inr wire_size_def and_then_Inr frame_bounds min_less_iff_disj not_less
      split: if_splits prod.splits sum.splits option.splits)

lemma write_frame_charges:
  assumes "write_frame c kind body (now, b, out) = Some (Inr (), (t', b', out'))"
  obtains at where "spend c (ck_now c now) Egress (wire_size body) b = Some (Inr (at, b'))"
    and "t' = max at (window_started b')" and "length body < FRAME_BODY_MAX_BYTES"
  using assms
  by (auto simp: write_frame_def Let_def wire_size_def split: if_splits prod.splits sum.splits option.splits)

lemma spend_keeps:
  assumes "spend c now d n b = Some (Inr (at, b'))" and "clock_ok c" and "window_started b \<le> now"
  shows "bu_window b' = bu_window b \<and> (\<forall>d'. per_window d' b' = per_window d' b)"
  unfolding spend_admits(1) [OF assms] by (simp del: charge.simps)

lemma wire_run_windowed:
  assumes "wire_run b0 log t b" and "ingress_spent b0 = 0" and "egress_spent b0 = 0" and "0 < bu_window b0"
  shows "windowed log b \<and> window_started b \<le> t \<and> bu_window b = bu_window b0
    \<and> (\<forall>d. per_window d b = per_window d b0)"
  using assms(1)
proof (induction rule: wire_run.induct)
  case opened
  then show ?case using windowed_start [OF assms(2,3)] by simp
next
  case (received log t b c now max_body r f t' b' r')
  from received.hyps(4) obtain at where sp: "spend c (ck_now c now) Ingress (wire_size (fr_body f)) b = Some (Inr (at, b'))"
    and t': "t' = max at (window_started b')" by (rule read_frame_charges)
  have ws: "window_started b \<le> ck_now c now" using received by (meson clock_ok_def le_trans)
  with windowed_admit [OF _ ws received.hyps(2) sp] spend_keeps [OF sp received.hyps(2) ws]
  show ?case using received.IH assms(4) by (simp add: t')
next
  case (sent log t b c now kind body out t' b' out')
  from sent.hyps(4) obtain at where sp: "spend c (ck_now c now) Egress (wire_size body) b = Some (Inr (at, b'))"
    and t': "t' = max at (window_started b')" by (rule write_frame_charges)
  have ws: "window_started b \<le> ck_now c now" using sent by (meson clock_ok_def le_trans)
  with windowed_admit [OF _ ws sent.hyps(2) sp] spend_keeps [OF sp sent.hyps(2) ws]
  show ?case using sent.IH assms(4) by (simp add: t')
qed

section \<open>A stream of frames\<close>

definition encode_frame :: "wire_frame \<Rightarrow> bytes" where
  "encode_frame f = to_be_bytes 4 (length (fr_body f) + 1) @ frame_kind_as_u8 (fr_kind f) # fr_body f"

fun write_all ::
  "clock \<Rightarrow> wire_frame list \<Rightarrow> nat \<times> wire_budget \<times> bytes
     \<Rightarrow> ((kernel_error_code + unit) \<times> (nat \<times> wire_budget \<times> bytes)) option" where
  "write_all c [] st = Some (Inr (), st)"
| "write_all c (f # fs) st =
     (case write_frame c (fr_kind f) (fr_body f) st of
        None \<Rightarrow> None
      | Some (Inl e, st1) \<Rightarrow> Some (Inl e, st1)
      | Some (Inr _, st1) \<Rightarrow> write_all c fs st1)"

text \<open>Frames are read until the peer closes or a read fails.\<close>

fun receive_all ::
  "clock \<Rightarrow> nat \<Rightarrow> nat \<times> wire_budget \<times> reader \<Rightarrow> (wire_frame list \<times> (kernel_error_code + unit)) option" where
  "receive_all c 0 st = None"
| "receive_all c (Suc fuel) st =
     (case read_frame c FRAME_BODY_MAX_BYTES st of
        None \<Rightarrow> None
      | Some (Inl e, _) \<Rightarrow> Some ([], Inl e)
      | Some (Inr Incoming_Closed, _) \<Rightarrow> Some ([], Inr ())
      | Some (Inr (Incoming_Frame f), st1) \<Rightarrow> map_option (\<lambda>(fs, r). (f # fs, r)) (receive_all c fuel st1))"

definition frame_fits :: "wire_frame \<Rightarrow> bool" where
  "frame_fits f \<longleftrightarrow> length (fr_body f) \<le> FRAME_PAYLOAD_MAX_BYTES"

definition allows_any :: "direction \<Rightarrow> nat \<Rightarrow> wire_budget \<Rightarrow> bool" where
  "allows_any d now b \<longleftrightarrow> window_started b \<le> now \<and> FRAME_LENGTH_PREFIX_BYTES + FRAME_BODY_MAX_BYTES \<le> per_window d b"

lemma connection_allows_any [simp]: "allows_any d now (connection_budget ticks now)"
  by (cases d) (simp_all add: allows_any_def connection_budget_def budget_new_def with_window_def frame_bounds
    CONNECTION_INGRESS_BYTES_PER_WINDOW_def CONNECTION_EGRESS_BYTES_PER_WINDOW_def)

lemma length_encode_frame [simp]: "length (encode_frame f) = length (fr_body f) + 5"
  by (simp add: encode_frame_def)

lemma encode_frame_nonempty [simp]: "encode_frame f \<noteq> []"
  by (simp add: encode_frame_def)

lemma frame_length_fits:
  "frame_fits f \<Longrightarrow> from_be_bytes (to_be_bytes 4 (Suc (length (fr_body f)))) = Suc (length (fr_body f))"
  by (rule from_to_be_bytes) (simp add: frame_fits_def frame_bounds)

lemma spend_any:
  assumes "clock_ok c" and "allows_any d now b" and "n \<le> FRAME_LENGTH_PREFIX_BYTES + FRAME_BODY_MAX_BYTES"
  obtains at b' where "spend c (ck_now c now) d n b = Some (Inr (at, b'))"
    and "allows_any d (max at (window_started b')) b'"
proof -
  have ws: "window_started b \<le> ck_now c now" using assms(1,2) by (meson allows_any_def clock_ok_def le_trans)
  have "n \<le> per_window d b" using assms(2,3) by (simp add: allows_any_def)
  from spend_total [OF assms(1) ws this] obtain at b' where sp: "spend c (ck_now c now) d n b = Some (Inr (at, b'))"
    by blast
  with spend_keeps [OF sp assms(1) ws] assms(2) that show ?thesis by (simp add: allows_any_def)
qed

lemma write_frame_encodes:
  assumes "clock_ok c" and "allows_any Egress now b" and "frame_fits f"
  obtains t' b' where "write_frame c (fr_kind f) (fr_body f) (now, b, out) = Some (Inr (), (t', b', out @ encode_frame f))"
    and "allows_any Egress t' b'"
proof -
  have "FRAME_LENGTH_PREFIX_BYTES + (length (fr_body f) + 1) \<le> FRAME_LENGTH_PREFIX_BYTES + FRAME_BODY_MAX_BYTES"
    using assms(3) by (simp add: frame_fits_def frame_bounds)
  from spend_any [OF assms(1,2) this] obtain at b' where
    "spend c (ck_now c now) Egress (FRAME_LENGTH_PREFIX_BYTES + (length (fr_body f) + 1)) b = Some (Inr (at, b'))"
    "allows_any Egress (max at (window_started b')) b'" by blast
  with assms(3) that show ?thesis
    by (simp add: write_frame_def Let_def encode_frame_def frame_fits_def frame_bounds)
qed

lemma read_frame_decodes:
  assumes "clock_ok c" and "allows_any Ingress now b" and "frame_fits f"
  obtains t' b' where "read_frame c FRAME_BODY_MAX_BYTES (now, b, \<lparr>rd_bytes = encode_frame f @ rest, rd_broken = x\<rparr>)
      = Some (Inr (Incoming_Frame f), (t', b', \<lparr>rd_bytes = rest, rd_broken = x\<rparr>))"
    and "allows_any Ingress t' b'"
proof -
  have "FRAME_LENGTH_PREFIX_BYTES + Suc (length (fr_body f)) \<le> FRAME_LENGTH_PREFIX_BYTES + FRAME_BODY_MAX_BYTES"
    using assms(3) by (simp add: frame_fits_def frame_bounds)
  from spend_any [OF assms(1,2) this] obtain at b' where
    "spend c (ck_now c now) Ingress (FRAME_LENGTH_PREFIX_BYTES + Suc (length (fr_body f))) b = Some (Inr (at, b'))"
    "allows_any Ingress (max at (window_started b')) b'" by blast
  with assms(3) that [of "max at (window_started b')" b'] frame_length_fits [OF assms(3)] show ?thesis
    by (simp add: read_frame_def take_exact_def Let_def encode_frame_def frame_fits_def frame_bounds
        result_simps)
qed

text \<open>A frame of which some but not all bytes arrived is an error, never the end of the stream.\<close>

lemma read_frame_cut:
  assumes "clock_ok c" and "allows_any Ingress now b" and "frame_fits f" and "0 < k" and "k < length (encode_frame f)"
  obtains st where "read_frame c FRAME_BODY_MAX_BYTES (now, b, \<lparr>rd_bytes = take k (encode_frame f), rd_broken = x\<rparr>)
      = Some (Inl Code_Storage, st)"
proof (cases "k < 4")
  case True
  with assms(4) have "read_frame c FRAME_BODY_MAX_BYTES (now, b, \<lparr>rd_bytes = take k (encode_frame f), rd_broken = x\<rparr>)
      = Some (Inl Code_Storage, (now, b, \<lparr>rd_bytes = [], rd_broken = x\<rparr>))"
    by (simp add: read_frame_def take_exact_def FRAME_LENGTH_PREFIX_BYTES_def min_less_iff_disj)
  then show ?thesis by (rule that)
next
  case False
  have "FRAME_LENGTH_PREFIX_BYTES + Suc (length (fr_body f)) \<le> FRAME_LENGTH_PREFIX_BYTES + FRAME_BODY_MAX_BYTES"
    using assms(3) by (simp add: frame_fits_def frame_bounds)
  from spend_any [OF assms(1,2) this] obtain at b' where
    sp: "spend c (ck_now c now) Ingress (FRAME_LENGTH_PREFIX_BYTES + Suc (length (fr_body f))) b = Some (Inr (at, b'))"
    by blast
  define xs where "xs = take (k - 4) (frame_kind_as_u8 (fr_kind f) # fr_body f)"
  have split: "take k (encode_frame f) = to_be_bytes 4 (Suc (length (fr_body f))) @ xs"
    using False by (simp add: encode_frame_def xs_def)
  have short: "length xs < Suc (length (fr_body f))" using assms(5) False by (simp add: xs_def min_less_iff_disj)
  have "to_be_bytes 4 (Suc (length (fr_body f))) \<noteq> []" by (simp add: to_be_bytes_def)
  then have "read_frame c FRAME_BODY_MAX_BYTES (now, b, \<lparr>rd_bytes = take k (encode_frame f), rd_broken = x\<rparr>)
      = Some (Inl Code_Storage, (max at (window_started b'), b', \<lparr>rd_bytes = [], rd_broken = x\<rparr>))"
    using sp short assms(3) frame_length_fits [OF assms(3)] unfolding split
    by (simp add: read_frame_def take_exact_def Let_def frame_fits_def frame_bounds)
  then show ?thesis by (rule that)
qed

lemma write_all_encodes:
  assumes "clock_ok c" and "\<forall>f \<in> set fs. frame_fits f" and "allows_any Egress now b"
  shows "\<exists>t' b'. write_all c fs (now, b, out) = Some (Inr (), (t', b', out @ concat (map encode_frame fs)))"
  using assms(2,3)
proof (induction fs arbitrary: now b out)
  case (Cons f fs)
  then obtain t1 b1 where "write_frame c (fr_kind f) (fr_body f) (now, b, out) = Some (Inr (), (t1, b1, out @ encode_frame f))"
    and "allows_any Egress t1 b1" using write_frame_encodes [OF assms(1) Cons.prems(2)] by (metis list.set_intros(1))
  with Cons.IH [of t1 b1 "out @ encode_frame f"] Cons.prems show ?case by simp
qed simp

lemma receive_all_decodes:
  assumes "clock_ok c" and "\<forall>f \<in> set fs. frame_fits f" and "frame_fits f" and "k < length (encode_frame f)"
    and "allows_any Ingress now b"
  shows "receive_all c (Suc (length fs))
      (now, b, \<lparr>rd_bytes = concat (map encode_frame fs) @ take k (encode_frame f), rd_broken = False\<rparr>)
    = Some (fs, if k = 0 then Inr () else Inl Code_Storage)"
  using assms(2,5)
proof (induction fs arbitrary: now b)
  case Nil
  show ?case
  proof (cases "k = 0")
    case True
    then show ?thesis by (simp add: read_frame_def)
  next
    case False
    then obtain st where "read_frame c FRAME_BODY_MAX_BYTES (now, b, \<lparr>rd_bytes = take k (encode_frame f), rd_broken = False\<rparr>)
      = Some (Inl Code_Storage, st)" using read_frame_cut [OF assms(1) Nil(2) assms(3) _ assms(4)] by blast
    with False show ?thesis by simp
  qed
next
  case (Cons g fs)
  let ?rest = "concat (map encode_frame fs) @ take k (encode_frame f)"
  have "frame_fits g" using Cons.prems by simp
  from read_frame_decodes [OF assms(1) Cons.prems(2) this] obtain t1 b1 where
    "read_frame c FRAME_BODY_MAX_BYTES (now, b, \<lparr>rd_bytes = encode_frame g @ ?rest, rd_broken = False\<rparr>)
      = Some (Inr (Incoming_Frame g), (t1, b1, \<lparr>rd_bytes = ?rest, rd_broken = False\<rparr>))"
    and "allows_any Ingress t1 b1" by blast
  with Cons.IH [of t1 b1] Cons.prems show ?case by simp
qed

end
