(* ===== verification/Gw_Subscribe.thy ===== *)
theory Gw_Subscribe
  imports Gw_Store Gw_Frame
begin

text \<open>
  Live subscriptions: \<open>gwk-kernel/src/wire/subscribe.rs\<close> (\<open>run\<close>) with the parts of
  \<open>wire/serve.rs\<close> it works with: admission (\<open>admit\<close>, \<open>full\<close>, \<open>start\<close>), the cut of a page
  (\<open>fit_page\<close>) and the write loop (\<open>write_frames\<close>). A connection is a state that its tasks step in any
  order while other clients append to the log. A task is at one of the points where it awaits
  something; a subscription's task and its progress cell are one record, named by its place in the
  connection's list. \<open>og_delivered\<close> names the cell a batch carries.

  The store is a parameter, the functions \<open>app\<close> and \<open>read\<close> of an environment \<open>'v\<close> that may differ at
  every call; the size of an event's JSON text is \<open>text_len\<close>, None where it has none. The streams of
  terminals, which share the connection's queues, are not part of this model.
\<close>

section \<open>Bounds\<close>

definition SUBSCRIPTION_BATCH_ROWS :: nat where "SUBSCRIPTION_BATCH_ROWS = 256"
definition MAX_SUBSCRIPTIONS_PER_CONNECTION :: nat where "MAX_SUBSCRIPTIONS_PER_CONNECTION = 8"
definition PAGE_BYTE_BUDGET :: nat where "PAGE_BYTE_BUDGET = FRAME_BODY_MAX_BYTES div 2"
definition BATCH_QUEUE_DEPTH :: nat where "BATCH_QUEUE_DEPTH = MAX_SUBSCRIPTIONS_PER_CONNECTION"
definition RESPONSE_QUEUE_DEPTH :: nat where "RESPONSE_QUEUE_DEPTH = 1"

section \<open>Cutting a page\<close>

fun fit_loop :: "('a \<Rightarrow> nat option) \<Rightarrow> 'a list \<Rightarrow> nat \<Rightarrow> 'a list \<Rightarrow> ('a list \<times> bool) option" where
  "fit_loop text_len kept bytes [] = Some (kept, False)"
| "fit_loop text_len kept bytes (item # items) =
     (case text_len item of
        None \<Rightarrow> None
      | Some n \<Rightarrow>
          if kept \<noteq> [] \<and> PAGE_BYTE_BUDGET < bytes + n then Some (kept, True)
          else fit_loop text_len (kept @ [item]) (bytes + n) items)"

definition fit_page :: "('a \<Rightarrow> nat option) \<Rightarrow> 'a list \<Rightarrow> ('a list \<times> bool) option" where
  "fit_page text_len items = fit_loop text_len [] 0 items"

section \<open>The state of a connection\<close>

datatype 'p server_control =
    Subscribed bytes "u64 option"
  | Overloaded bytes
  | EventBatch bytes "'p event_envelope list" u64
  | StreamClosed bytes kernel_error_code "u64 option"

record 'p outgoing =
  og_control :: "'p server_control"
  og_delivered :: "(nat \<times> u64) option"

text \<open>
  Where a subscription's task is: about to read, offering a batch to the queue, out of its loop, with
  the cell loaded and the last word not yet queued, or finished.
\<close>

datatype 'p task =
    Reading
  | Offering "'p event_envelope list" u64
  | Ended kernel_error_code
  | Telling kernel_error_code "u64 option"
  | Finished kernel_error_code "u64 option"

record 'p subscription =
  su_request :: bytes
  su_opened :: "u64 option"
  su_cursor :: "u64 option"
  su_delivered :: u64
  su_task :: "'p task"

record ('p, 's) connection =
  cn_store :: 's
  cn_live :: "'p subscription list"
  cn_responses :: "'p server_control list"
  cn_batches :: "'p outgoing list"
  cn_marking :: "(nat \<times> u64) option"
  cn_sent :: "'p outgoing list"

definition connected :: "'s \<Rightarrow> ('p, 's) connection" where
  "connected s = \<lparr>cn_store = s, cn_live = [], cn_responses = [], cn_batches = [], cn_marking = None, cn_sent = []\<rparr>"

section \<open>Admission\<close>

fun is_finished :: "'p task \<Rightarrow> bool" where
  "is_finished (Finished _ _) = True"
| "is_finished _ = False"

definition full :: "('p, 's) connection \<Rightarrow> bool" where
  "full cn \<longleftrightarrow> MAX_SUBSCRIPTIONS_PER_CONNECTION \<le> length (filter (\<lambda>u. \<not> is_finished (su_task u)) (cn_live cn))"

definition admit_events :: "bytes \<Rightarrow> u64 option \<Rightarrow> ('p, 's) connection \<Rightarrow> 'p server_control \<times> (bytes \<times> u64 option) option" where
  "admit_events rid cursor cn =
     (if full cn then (Overloaded rid, None) else (Subscribed rid cursor, Some (rid, cursor)))"

definition cell_of :: "u64 option \<Rightarrow> u64" where
  "cell_of cursor = (case cursor of None \<Rightarrow> 0 | Some c \<Rightarrow> c)"

definition start_admitted :: "(bytes \<times> u64 option) option \<Rightarrow> ('p, 's) connection \<Rightarrow> ('p, 's) connection" where
  "start_admitted admitted cn =
     (case admitted of
        None \<Rightarrow> cn
      | Some (rid, cursor) \<Rightarrow>
          cn\<lparr>cn_live := cn_live cn @ [\<lparr>su_request = rid, su_opened = cursor, su_cursor = cursor,
               su_delivered = cell_of cursor, su_task = Reading\<rparr>]\<rparr>)"

text \<open>A subscription request: its answer is queued, and only then is the stream started.\<close>

definition subscribe_events :: "bytes \<Rightarrow> u64 option \<Rightarrow> ('p, 's) connection \<Rightarrow> ('p, 's) connection" where
  "subscribe_events rid cursor cn =
     (let (response, admitted) = admit_events rid cursor cn
      in start_admitted admitted (cn\<lparr>cn_responses := cn_responses cn @ [response]\<rparr>))"

section \<open>The task of a subscription\<close>

definition update_sub :: "nat \<Rightarrow> ('p subscription \<Rightarrow> 'p subscription) \<Rightarrow> ('p, 's) connection \<Rightarrow> ('p, 's) connection" where
  "update_sub i f cn = cn\<lparr>cn_live := (cn_live cn)[i := f (cn_live cn ! i)]\<rparr>"

text \<open>One turn of the loop up to the send: the read, and on a page with events the cut and the batch.\<close>

definition read_turn ::
  "('p event_envelope \<Rightarrow> nat option) \<Rightarrow> append_error + 'p event_envelope list \<Rightarrow> 'p task" where
  "read_turn text_len page =
     (case page of
        Inl _ \<Rightarrow> Ended Code_Storage
      | Inr events \<Rightarrow>
          if events = [] then Reading
          else (case fit_page text_len events of
                  None \<Rightarrow> Ended Code_Storage
                | Some (kept, _) \<Rightarrow>
                    if kept = [] then Ended Code_Storage
                    else Offering kept (global_sequence (last kept))))"

definition last_cursor :: "u64 \<Rightarrow> u64 option" where
  "last_cursor cell = (if cell = 0 then None else Some cell)"

section \<open>The write loop\<close>

text \<open>Responses first: what the writer takes next and the queues without it.\<close>

fun next_outgoing :: "('p, 's) connection \<Rightarrow> ('p outgoing \<times> ('p, 's) connection) option" where
  "next_outgoing cn =
     (case cn_responses cn of
        control # rest \<Rightarrow> Some (\<lparr>og_control = control, og_delivered = None\<rparr>, cn\<lparr>cn_responses := rest\<rparr>)
      | [] \<Rightarrow>
          (case cn_batches cn of
             og # rest \<Rightarrow> Some (og, cn\<lparr>cn_batches := rest\<rparr>)
           | [] \<Rightarrow> None))"

declare next_outgoing.simps [simp del]

section \<open>Steps\<close>

text \<open>
  \<open>grown\<close>: another client appends. \<open>asked\<close>: a subscription request is answered. \<open>turned\<close> to \<open>told\<close>:
  a task moves. \<open>written\<close>: a frame is out on the socket; \<open>marked\<close>: its cell is stored, which the writer
  does before it takes the next item. A failed write ends the connection, so it is no step.
\<close>

inductive conn_step ::
  "('v \<Rightarrow> 's \<Rightarrow> u32 \<Rightarrow> u64 option \<Rightarrow> 'p event_envelope list \<Rightarrow> (append_error + 'p event_envelope list) \<times> 's)
   \<Rightarrow> ('v \<Rightarrow> 's \<Rightarrow> u64 option \<Rightarrow> nat \<Rightarrow> append_error + 'p event_envelope list)
   \<Rightarrow> ('p event_envelope \<Rightarrow> nat option) \<Rightarrow> ('p, 's) connection \<Rightarrow> ('p, 's) connection \<Rightarrow> bool"
  for app read text_len where
  grown: "conn_step app read text_len cn (cn\<lparr>cn_store := snd (app v (cn_store cn) version fence es)\<rparr>)"
| asked: "length (cn_responses cn) < RESPONSE_QUEUE_DEPTH \<Longrightarrow>
    conn_step app read text_len cn (subscribe_events rid cursor cn)"
| turned: "i < length (cn_live cn) \<Longrightarrow> su_task (cn_live cn ! i) = Reading \<Longrightarrow>
    conn_step app read text_len cn
      (update_sub i (\<lambda>u. u\<lparr>su_task := read_turn text_len (read v (cn_store cn) (su_cursor u) SUBSCRIPTION_BATCH_ROWS)\<rparr>) cn)"
| queued: "i < length (cn_live cn) \<Longrightarrow> su_task (cn_live cn ! i) = Offering events seq \<Longrightarrow>
    length (cn_batches cn) < BATCH_QUEUE_DEPTH \<Longrightarrow>
    conn_step app read text_len cn
      (update_sub i (\<lambda>u. u\<lparr>su_cursor := Some seq, su_task := Reading\<rparr>)
        (cn\<lparr>cn_batches := cn_batches cn
           @ [\<lparr>og_control = EventBatch (su_request (cn_live cn ! i)) events seq, og_delivered = Some (i, seq)\<rparr>]\<rparr>))"
| timed_out: "i < length (cn_live cn) \<Longrightarrow> su_task (cn_live cn ! i) = Offering events seq \<Longrightarrow>
    conn_step app read text_len cn (update_sub i (\<lambda>u. u\<lparr>su_task := Ended Code_SlowConsumer\<rparr>) cn)"
| loaded: "i < length (cn_live cn) \<Longrightarrow> su_task (cn_live cn ! i) = Ended why \<Longrightarrow>
    conn_step app read text_len cn (update_sub i (\<lambda>u. u\<lparr>su_task := Telling why (last_cursor (su_delivered u))\<rparr>) cn)"
| told: "i < length (cn_live cn) \<Longrightarrow> su_task (cn_live cn ! i) = Telling why c \<Longrightarrow>
    length (cn_responses cn) < RESPONSE_QUEUE_DEPTH \<Longrightarrow>
    conn_step app read text_len cn
      (update_sub i (\<lambda>u. u\<lparr>su_task := Finished why c\<rparr>)
        (cn\<lparr>cn_responses := cn_responses cn @ [StreamClosed (su_request (cn_live cn ! i)) why c]\<rparr>))"
| written: "cn_marking cn = None \<Longrightarrow> next_outgoing cn = Some (og, cn') \<Longrightarrow>
    conn_step app read text_len cn (cn'\<lparr>cn_sent := cn_sent cn' @ [og], cn_marking := og_delivered og\<rparr>)"
| marked: "cn_marking cn = Some (i, seq) \<Longrightarrow>
    conn_step app read text_len cn (update_sub i (\<lambda>u. u\<lparr>su_delivered := seq\<rparr>) (cn\<lparr>cn_marking := None\<rparr>))"

section \<open>What a page keeps\<close>

lemma fit_loop_prefix:
  assumes "fit_loop text_len kept n items = Some (page, is_cut)"
  shows "prefix kept page \<and> prefix page (kept @ items)"
  using assms by (induction items arbitrary: kept n) (fastforce split: option.splits if_splits simp: prefix_def)+

lemma fit_page_prefix: "fit_page text_len items = Some (page, is_cut) \<Longrightarrow> prefix page items"
  using fit_loop_prefix [of text_len "[]" 0 items page is_cut] by (simp add: fit_page_def)

text \<open>The first item always survives, so a subscription's cursor always moves.\<close>

lemma fit_page_progress:
  assumes "fit_page text_len items = Some (page, is_cut)" and "items \<noteq> []" shows "page \<noteq> []"
proof -
  obtain x xs where items: "items = x # xs" using assms(2) by (cases items) auto
  with assms(1) obtain n where "fit_loop text_len [x] n xs = Some (page, is_cut)"
    by (auto simp: fit_page_def split: option.splits)
  then have "prefix [x] page" using fit_loop_prefix by blast
  then show ?thesis by auto
qed

section \<open>The stream of one subscription\<close>

definition batch_events :: "nat \<Rightarrow> 'p outgoing \<Rightarrow> 'p event_envelope list" where
  "batch_events i og =
     (case og_delivered og of
        None \<Rightarrow> []
      | Some (j, _) \<Rightarrow> (case og_control og of EventBatch _ es _ \<Rightarrow> if j = i then es else [] | _ \<Rightarrow> []))"

definition events_of :: "nat \<Rightarrow> 'p outgoing list \<Rightarrow> 'p event_envelope list" where
  "events_of i ogs = concat (map (batch_events i) ogs)"

lemma events_of_simps [simp]:
  "events_of i [] = []" "events_of i (og # ogs) = batch_events i og @ events_of i ogs"
  "events_of i (ogs @ ogs') = events_of i ogs @ events_of i ogs'"
  by (simp_all add: events_of_def)

definition resume_point :: "u64 option \<Rightarrow> 'p event_envelope list \<Rightarrow> u64 option" where
  "resume_point c p = (if p = [] then c else Some (global_sequence (last p)))"

text \<open>
  \<open>got\<close> is what the client was sent and \<open>que\<close> what is queued for it. Together they are the log after
  the opening cursor, without a gap, up to the read cursor; cells and closing cursors stand somewhere
  in \<open>got\<close>.
\<close>

definition seen :: "'p event_envelope list \<Rightarrow> u64 option \<Rightarrow> u64 \<Rightarrow> bool" where
  "seen got opened cell \<longleftrightarrow> (\<exists>p. prefix p got \<and> cell = cell_of (resume_point opened p))"

definition stream_ok ::
  "'p event_envelope list \<Rightarrow> 'p event_envelope list \<Rightarrow> 'p event_envelope list \<Rightarrow> 'p subscription \<Rightarrow> bool" where
  "stream_ok L got que u \<longleftrightarrow>
     prefix (got @ que) (filter (after_cursor (su_opened u)) L)
     \<and> su_cursor u = resume_point (su_opened u) (got @ que)
     \<and> seen got (su_opened u) (su_delivered u)
     \<and> (case su_task u of
          Offering es n \<Rightarrow> es \<noteq> [] \<and> n = global_sequence (last es)
            \<and> prefix (got @ que @ es) (filter (after_cursor (su_opened u)) L)
        | Telling _ c \<Rightarrow> \<exists>cell. seen got (su_opened u) cell \<and> c = last_cursor cell
        | Finished _ c \<Rightarrow> \<exists>cell. seen got (su_opened u) cell \<and> c = last_cursor cell
        | _ \<Rightarrow> True)"

lemma seen_more: "seen got opened cell \<Longrightarrow> seen (got @ es) opened cell"
  by (auto simp: seen_def intro: prefix_prefix)

lemma filter_prefix: "prefix L L' \<Longrightarrow> prefix (filter P L) (filter P L')"
  by (auto simp: prefix_def)

lemma stream_grow:
  assumes "stream_ok L got que u" and "prefix L L'" shows "stream_ok L' got que u"
  using assms(1) filter_prefix [OF assms(2), of "after_cursor (su_opened u)"]
  unfolding stream_ok_def by (auto split: task.splits intro: prefix_order.trans)

lemma stream_send:
  assumes "stream_ok L got (es @ que) u" shows "stream_ok L (got @ es) que u"
  using assms seen_more unfolding stream_ok_def by (fastforce split: task.splits)

lemma stream_mark:
  assumes "stream_ok L got que u" and "got \<noteq> []"
  shows "stream_ok L got que (u\<lparr>su_delivered := global_sequence (last got)\<rparr>)"
proof -
  have "seen got (su_opened u) (global_sequence (last got))"
    unfolding seen_def using assms(2) by (intro exI [of _ got]) (simp add: resume_point_def cell_of_def)
  with assms(1) show ?thesis unfolding stream_ok_def by (cases "su_task u") simp_all
qed

lemma stream_queue:
  assumes "stream_ok L got que u" and "su_task u = Offering es n"
  shows "stream_ok L got (que @ es) (u\<lparr>su_cursor := Some n, su_task := Reading\<rparr>)"
  using assms unfolding stream_ok_def by (simp add: resume_point_def)

lemma stream_end: "stream_ok L got que u \<Longrightarrow> stream_ok L got que (u\<lparr>su_task := Ended why\<rparr>)"
  unfolding stream_ok_def by simp

lemma stream_load:
  "stream_ok L got que u \<Longrightarrow> stream_ok L got que (u\<lparr>su_task := Telling why (last_cursor (su_delivered u))\<rparr>)"
  unfolding stream_ok_def by auto

lemma stream_tell:
  "stream_ok L got que u \<Longrightarrow> su_task u = Telling why c \<Longrightarrow> stream_ok L got que (u\<lparr>su_task := Finished why c\<rparr>)"
  unfolding stream_ok_def by simp

lemma after_resume_point:
  assumes "ordered_log L" and "prefix p (filter (after_cursor opened) L)"
  shows "filter (after_cursor opened) L = p @ filter (after_cursor (resume_point opened p)) L"
proof (cases "p = []")
  case False
  from assms(2) obtain rest where xs: "filter (after_cursor opened) L = p @ rest" by (auto simp: prefix_def)
  have "filter (after_cursor (Some (global_sequence (last (take (length p) (p @ rest)))))) L = drop (length p) (p @ rest)"
    using assms(1) False by (intro after_next_page [OF _ xs [symmetric]]) (auto simp: ordered_log_def)
  with False show ?thesis by (simp add: xs resume_point_def)
qed (simp add: resume_point_def)

text \<open>The cell spells no cursor as 0, which no event has.\<close>

lemma after_last_cursor:
  assumes "ordered_log L" shows "filter (after_cursor (last_cursor (cell_of c))) L = filter (after_cursor c) L"
  using assms by (cases c) (auto simp: last_cursor_def cell_of_def after_cursor_def ordered_log_def intro!: filter_cong)

lemma stream_turn:
  assumes ok: "stream_ok L got que u" and L: "ordered_log L"
    and page: "page = Inl x \<or> page = Inr (page_of L (su_cursor u) n)"
  shows "stream_ok L got que (u\<lparr>su_task := read_turn text_len page\<rparr>)"
proof -
  let ?xs = "filter (after_cursor (su_opened u)) L"
  have u: "prefix (got @ que) ?xs" "su_cursor u = resume_point (su_opened u) (got @ que)"
    "seen got (su_opened u) (su_delivered u)" using ok by (simp_all add: stream_ok_def)
  have xs: "?xs = (got @ que) @ filter (after_cursor (su_cursor u)) L"
    unfolding u(2) by (rule after_resume_point [OF L u(1)])
  have "prefix (got @ que @ es) ?xs"
    if "page = Inr events" "fit_page text_len events = Some (es, is_cut)" for events es is_cut
  proof -
    have "prefix es (page_of L (su_cursor u) n)" using that page fit_page_prefix by fastforce
    then have "prefix es (filter (after_cursor (su_cursor u)) L)"
      unfolding page_of_def by (rule prefix_order.trans) (rule take_is_prefix)
    then show ?thesis unfolding xs by simp
  qed
  with u show ?thesis unfolding stream_ok_def
    by (cases page) (auto simp: read_turn_def split: option.splits)
qed

section \<open>The streams of a connection\<close>

fun outgoing_ok :: "nat \<Rightarrow> 'p outgoing \<Rightarrow> bool" where
  "outgoing_ok n og =
     (case og_delivered og of
        None \<Rightarrow> True
      | Some (i, seq) \<Rightarrow> i < n \<and> (\<exists>rid es. og_control og = EventBatch rid es seq \<and> es \<noteq> [] \<and> seq = global_sequence (last es)))"

definition conn_ok :: "'p event_envelope list \<Rightarrow> ('p, 's) connection \<Rightarrow> bool" where
  "conn_ok L cn \<longleftrightarrow>
     (\<forall>i < length (cn_live cn). stream_ok L (events_of i (cn_sent cn)) (events_of i (cn_batches cn)) (cn_live cn ! i))
     \<and> (\<forall>og \<in> set (cn_sent cn) \<union> set (cn_batches cn). outgoing_ok (length (cn_live cn)) og)
     \<and> (\<forall>i seq. cn_marking cn = Some (i, seq) \<longrightarrow> i < length (cn_live cn) \<and> events_of i (cn_sent cn) \<noteq> []
          \<and> seq = global_sequence (last (events_of i (cn_sent cn))))"

lemma conn_okD:
  assumes "conn_ok L cn"
  shows "i < length (cn_live cn) \<Longrightarrow>
      stream_ok L (events_of i (cn_sent cn)) (events_of i (cn_batches cn)) (cn_live cn ! i)"
    and "og \<in> set (cn_sent cn) \<union> set (cn_batches cn) \<Longrightarrow> outgoing_ok (length (cn_live cn)) og"
    and "cn_marking cn = Some (i, seq) \<Longrightarrow> i < length (cn_live cn) \<and> events_of i (cn_sent cn) \<noteq> []
      \<and> seq = global_sequence (last (events_of i (cn_sent cn)))"
  using assms unfolding conn_ok_def by blast+

lemma update_sub_store [simp]: "cn_store (update_sub i f cn) = cn_store cn"
  by (simp add: update_sub_def)

lemma conn_ok_responses [simp]: "conn_ok L (cn\<lparr>cn_responses := rs\<rparr>) = conn_ok L cn"
  by (simp add: conn_ok_def)

lemma conn_ok_update:
  assumes "conn_ok L cn" and "i < length (cn_live cn)"
    and "stream_ok L (events_of i (cn_sent cn)) (events_of i (cn_batches cn)) (f (cn_live cn ! i))"
  shows "conn_ok L (update_sub i f cn)"
  using assms unfolding conn_ok_def update_sub_def by (auto simp: nth_list_update)

lemma batch_events_other: "outgoing_ok n og \<Longrightarrow> n \<le> i \<Longrightarrow> batch_events i og = []"
  by (auto simp: batch_events_def split: option.splits)

lemma events_of_other:
  assumes "\<forall>og \<in> set ogs. outgoing_ok n og" and "n \<le> i" shows "events_of i ogs = []"
  using assms batch_events_other [of n] by (auto simp: events_of_def)

lemma outgoing_ok_mono: "outgoing_ok n og \<Longrightarrow> n \<le> m \<Longrightarrow> outgoing_ok m og"
  by (auto split: option.splits)

lemma conn_ok_subscribe:
  assumes "conn_ok L cn" shows "conn_ok L (subscribe_events rid cursor cn)"
proof (cases "full cn")
  case True
  then show ?thesis using assms by (simp add: conn_ok_def subscribe_events_def admit_events_def start_admitted_def)
next
  case False
  let ?n = "length (cn_live cn)"
  let ?u = "\<lparr>su_request = rid, su_opened = cursor, su_cursor = cursor, su_delivered = cell_of cursor, su_task = Reading\<rparr>"
  have fresh: "events_of ?n (cn_sent cn) = []" "events_of ?n (cn_batches cn) = []"
    using conn_okD(2) [OF assms] by (auto intro!: events_of_other [of _ ?n])
  have "seen [] cursor (cell_of cursor)" by (simp add: seen_def resume_point_def)
  then have new: "stream_ok L [] [] ?u" by (simp add: stream_ok_def resume_point_def)
  have "subscribe_events rid cursor cn =
      cn\<lparr>cn_responses := cn_responses cn @ [Subscribed rid cursor], cn_live := cn_live cn @ [?u]\<rparr>"
    using False by (simp add: subscribe_events_def admit_events_def start_admitted_def)
  with assms new fresh show ?thesis unfolding conn_ok_def
    by (auto simp del: outgoing_ok.simps simp: nth_append less_Suc_eq intro: outgoing_ok_mono)
qed

lemma conn_ok_queue:
  assumes ok: "conn_ok L cn" and i: "i < length (cn_live cn)" and task: "su_task (cn_live cn ! i) = Offering es seq"
  shows "conn_ok L (update_sub i (\<lambda>u. u\<lparr>su_cursor := Some seq, su_task := Reading\<rparr>)
    (cn\<lparr>cn_batches := cn_batches cn
       @ [\<lparr>og_control = EventBatch (su_request (cn_live cn ! i)) es seq, og_delivered = Some (i, seq)\<rparr>]\<rparr>))"
proof -
  let ?og = "\<lparr>og_control = EventBatch (su_request (cn_live cn ! i)) es seq, og_delivered = Some (i, seq)\<rparr>"
  have s: "stream_ok L (events_of i (cn_sent cn)) (events_of i (cn_batches cn)) (cn_live cn ! i)"
    by (rule conn_okD(1) [OF ok i])
  then have "es \<noteq> []" "seq = global_sequence (last es)" using task by (auto simp: stream_ok_def)
  then have og: "outgoing_ok (length (cn_live cn)) ?og" using i by simp
  have "batch_events j ?og = (if j = i then es else [])" for j by (auto simp: batch_events_def)
  with ok og stream_queue [OF s task] show ?thesis unfolding conn_ok_def update_sub_def
    by (auto simp del: outgoing_ok.simps simp: nth_list_update)
qed

lemma conn_ok_mark:
  assumes ok: "conn_ok L cn" and m: "cn_marking cn = Some (i, seq)"
  shows "conn_ok L (update_sub i (\<lambda>u. u\<lparr>su_delivered := seq\<rparr>) (cn\<lparr>cn_marking := None\<rparr>))"
proof -
  have "conn_ok L (cn\<lparr>cn_marking := None\<rparr>)" using ok by (simp add: conn_ok_def)
  then show ?thesis
  proof (rule conn_ok_update)
    show "i < length (cn_live (cn\<lparr>cn_marking := None\<rparr>))" using conn_okD(3) [OF ok m] by simp
    show "stream_ok L (events_of i (cn_sent (cn\<lparr>cn_marking := None\<rparr>))) (events_of i (cn_batches (cn\<lparr>cn_marking := None\<rparr>)))
      ((cn_live (cn\<lparr>cn_marking := None\<rparr>) ! i)\<lparr>su_delivered := seq\<rparr>)"
      using conn_okD(3) [OF ok m] stream_mark [OF conn_okD(1) [OF ok, of i]] by simp
  qed
qed

lemma conn_ok_write:
  assumes ok: "conn_ok L cn" and nx: "next_outgoing cn = Some (og, cn')"
  shows "conn_ok L (cn'\<lparr>cn_sent := cn_sent cn' @ [og], cn_marking := og_delivered og\<rparr>)"
proof (cases "cn_responses cn")
  case (Cons x xs)
  then have og: "og = \<lparr>og_control = x, og_delivered = None\<rparr>" and cn': "cn' = cn\<lparr>cn_responses := xs\<rparr>"
    using nx by (simp_all add: next_outgoing.simps)
  have "batch_events j og = []" for j by (simp add: og batch_events_def)
  then show ?thesis using ok unfolding conn_ok_def cn' og by simp
next
  case Nil
  then obtain rest where b: "cn_batches cn = og # rest" and cn': "cn' = cn\<lparr>cn_batches := rest\<rparr>"
    using nx by (auto simp: next_outgoing.simps split: list.splits)
  have ogk: "outgoing_ok (length (cn_live cn)) og" using conn_okD(2) [OF ok, of og] b by simp
  have "stream_ok L (events_of j (cn_sent cn) @ batch_events j og) (events_of j rest) (cn_live cn ! j)"
    if "j < length (cn_live cn)" for j using conn_okD(1) [OF ok that] by (intro stream_send) (simp add: b)
  moreover have "i < length (cn_live cn) \<and> batch_events i og \<noteq> [] \<and> seq = global_sequence (last (batch_events i og))"
    if "og_delivered og = Some (i, seq)" for i seq using ogk that by (auto simp: batch_events_def)
  ultimately show ?thesis using conn_okD(2) [OF ok] ogk unfolding conn_ok_def cn'
    by (auto simp del: outgoing_ok.simps simp: b)
qed

text \<open>The answer that announces a stream is on the socket before the stream's first batch.\<close>

definition announcement :: "'p subscription \<Rightarrow> 'p server_control" where
  "announcement u = Subscribed (su_request u) (su_opened u)"

definition announced :: "('p, 's) connection \<Rightarrow> bool" where
  "announced cn \<longleftrightarrow>
     announcement ` set (cn_live cn) \<subseteq> set (cn_responses cn) \<union> og_control ` set (cn_sent cn)
     \<and> (\<forall>k i seq. k < length (cn_sent cn) \<longrightarrow> og_delivered (cn_sent cn ! k) = Some (i, seq) \<longrightarrow>
          announcement (cn_live cn ! i) \<in> og_control ` set (take k (cn_sent cn)))"

lemma announced_update:
  assumes "announced cn" and "i < length (cn_live cn)" and "announcement (f (cn_live cn ! i)) = announcement (cn_live cn ! i)"
  shows "announced (update_sub i f cn)"
proof -
  have map: "map announcement ((cn_live cn)[i := f (cn_live cn ! i)]) = map announcement (cn_live cn)"
    using assms(2,3) by (metis list_update_id map_update)
  then have "announcement ` set ((cn_live cn)[i := f (cn_live cn ! i)]) = announcement ` set (cn_live cn)"
    by (metis list.set_map)
  moreover have "announcement ((cn_live cn)[i := f (cn_live cn ! i)] ! j) = announcement (cn_live cn ! j)" for j
    using assms(2,3) by (cases "j = i") simp_all
  ultimately show ?thesis using assms(1) unfolding announced_def update_sub_def by simp
qed

lemma announced_subscribe:
  assumes ok: "conn_ok L cn" and ann: "announced cn" shows "announced (subscribe_events rid cursor cn)"
proof -
  have "i < length (cn_live cn)" if "k < length (cn_sent cn)" "og_delivered (cn_sent cn ! k) = Some (i, seq)" for k i seq
    using conn_okD(2) [OF ok, of "cn_sent cn ! k"] that by simp
  with ann show ?thesis unfolding announced_def
    by (auto simp: subscribe_events_def admit_events_def start_admitted_def announcement_def nth_append)
qed

lemma announced_write:
  assumes ok: "conn_ok L cn" and ann: "announced cn" and nx: "next_outgoing cn = Some (og, cn')"
  shows "announced (cn'\<lparr>cn_sent := cn_sent cn' @ [og], cn_marking := og_delivered og\<rparr>)"
proof (cases "cn_responses cn")
  case (Cons x xs)
  then have "og = \<lparr>og_control = x, og_delivered = None\<rparr>" "cn' = cn\<lparr>cn_responses := xs\<rparr>"
    using nx by (simp_all add: next_outgoing.simps)
  with ann Cons show ?thesis unfolding announced_def by (auto simp: nth_append less_Suc_eq)
next
  case Nil
  then obtain rest where b: "cn_batches cn = og # rest" and cn': "cn' = cn\<lparr>cn_batches := rest\<rparr>"
    using nx by (auto simp: next_outgoing.simps split: list.splits)
  have "cn_live cn ! i \<in> set (cn_live cn)" if "og_delivered og = Some (i, seq)" for i seq
    using conn_okD(2) [OF ok, of og] that b by simp
  with ann Nil show ?thesis unfolding announced_def cn' by (auto simp: nth_append less_Suc_eq)
qed

lemma announced_step:
  assumes "conn_step app read text_len cn cn'" and "conn_ok L cn" and "announced cn"
  shows "announced cn'"
  using assms
proof (cases rule: conn_step.cases)
  case (told i why c)
  have "announced (cn\<lparr>cn_responses := cn_responses cn @ rs\<rparr>)" for rs using assms(3) by (auto simp: announced_def)
  with told show ?thesis by (auto simp: announcement_def intro!: announced_update)
next
  case (queued i events seq)
  have "announced (cn\<lparr>cn_batches := bs\<rparr>)" for bs using assms(3) by (simp add: announced_def)
  with queued show ?thesis by (auto simp: announcement_def intro!: announced_update)
next
  case (marked i seq)
  have "announced (cn\<lparr>cn_marking := None\<rparr>)" using assms(3) by (simp add: announced_def)
  with marked conn_okD(3) [OF assms(2)] show ?thesis by (auto simp: announcement_def intro!: announced_update)
next
  case (grown v version fence es)
  with assms(3) show ?thesis by (simp add: announced_def)
qed (use assms announced_subscribe announced_write in \<open>auto simp: announcement_def intro!: announced_update\<close>)

text \<open>
  What the subscriptions of a connection need of the store, whatever fails while they run: the log only
  grows and stays in order, and a read that succeeds is the page after the cursor.
\<close>

locale event_feed =
  fixes app :: "'v \<Rightarrow> 's \<Rightarrow> u32 \<Rightarrow> u64 option \<Rightarrow> 'p event_envelope list \<Rightarrow> (append_error + 'p event_envelope list) \<times> 's"
    and read :: "'v \<Rightarrow> 's \<Rightarrow> u64 option \<Rightarrow> nat \<Rightarrow> append_error + 'p event_envelope list"
    and feed :: "'s \<Rightarrow> 'p event_envelope list"
    and healthy :: "'s \<Rightarrow> bool"
  assumes feed_ordered: "healthy s \<Longrightarrow> ordered_log (feed s)"
    and feed_healthy: "healthy s \<Longrightarrow> healthy (snd (app v s version fence es))"
    and feed_grows: "healthy s \<Longrightarrow> prefix (feed s) (feed (snd (app v s version fence es)))"
    and feed_page: "healthy s \<Longrightarrow> read v s c n = Inr page \<Longrightarrow> page = page_of (feed s) c n"
begin

lemma step_ok:
  assumes "conn_step app read text_len cn cn'" and "healthy (cn_store cn)" and "conn_ok (feed (cn_store cn)) cn"
  shows "healthy (cn_store cn') \<and> conn_ok (feed (cn_store cn')) cn'"
  using assms
proof (cases rule: conn_step.cases)
  case (grown v version fence es)
  with assms feed_healthy feed_grows show ?thesis by (fastforce simp: conn_ok_def intro: stream_grow)
next
  case (asked rid cursor)
  have "cn_store cn' = cn_store cn"
    by (auto simp: asked subscribe_events_def start_admitted_def split: prod.splits option.splits)
  with asked assms conn_ok_subscribe show ?thesis by metis
next
  case (turned i v)
  let ?u = "cn_live cn ! i"
  let ?page = "read v (cn_store cn) (su_cursor ?u) SUBSCRIPTION_BATCH_ROWS"
  have "?page = Inl x \<or> ?page = Inr (page_of (feed (cn_store cn)) (su_cursor ?u) SUBSCRIPTION_BATCH_ROWS)"
    if "x = projl ?page" for x using feed_page [OF assms(2)] that by (cases ?page) auto
  then have "stream_ok (feed (cn_store cn)) (events_of i (cn_sent cn)) (events_of i (cn_batches cn))
      (?u \<lparr>su_task := read_turn text_len ?page\<rparr>)"
    using stream_turn [OF conn_okD(1) [OF assms(3)] feed_ordered [OF assms(2)]] turned by blast
  with assms turned show ?thesis by (simp add: conn_ok_update)
next
  case (queued i events seq)
  with assms conn_ok_queue [OF assms(3)] show ?thesis by simp
next
  case (timed_out i events seq)
  with assms conn_okD(1) [OF assms(3)] show ?thesis by (simp add: conn_ok_update stream_end)
next
  case (loaded i why)
  with assms conn_okD(1) [OF assms(3)] show ?thesis by (simp add: conn_ok_update stream_load)
next
  case (told i why c)
  have "conn_ok (feed (cn_store cn)) (cn\<lparr>cn_responses := rs\<rparr>)" for rs using assms(3) by simp
  from conn_ok_update [OF this] told assms(2) stream_tell [OF conn_okD(1) [OF assms(3)]] show ?thesis by simp
next
  case (written og cn2)
  then have "cn_store cn' = cn_store cn" by (auto simp: next_outgoing.simps split: list.splits)
  with written assms conn_ok_write show ?thesis by metis
next
  case (marked i seq)
  with assms conn_ok_mark [OF assms(3)] show ?thesis by simp
qed

lemma run_ok:
  assumes "(conn_step app read text_len)\<^sup>*\<^sup>* (connected s) cn" and "healthy s"
  shows "healthy (cn_store cn) \<and> conn_ok (feed (cn_store cn)) cn \<and> announced cn"
  using assms(1)
proof (induction rule: rtranclp_induct)
  case base
  then show ?case using assms(2) by (simp add: connected_def conn_ok_def announced_def)
next
  case (step cn cn')
  with step_ok [OF step.hyps(2)] announced_step [OF step.hyps(2)] show ?case by blast
qed

lemma stream_in_order:
  assumes "(conn_step app read text_len)\<^sup>*\<^sup>* (connected s) cn" and "healthy s" and "i < length (cn_live cn)"
  shows "prefix (events_of i (cn_sent cn)) (filter (after_cursor (su_opened (cn_live cn ! i))) (feed (cn_store cn)))"
  using conn_okD(1) [OF conjunct1 [OF conjunct2 [OF run_ok [OF assms(1,2)]]] assms(3)]
  by (auto simp: stream_ok_def dest: append_prefixD)

lemma resumes_without_gap:
  assumes "(conn_step app read text_len)\<^sup>*\<^sup>* (connected s) cn" and "healthy s" and "i < length (cn_live cn)"
    and task: "su_task (cn_live cn ! i) = Finished why c"
  shows "\<exists>p. prefix p (events_of i (cn_sent cn))
    \<and> filter (after_cursor (su_opened (cn_live cn ! i))) (feed (cn_store cn)) = p @ filter (after_cursor c) (feed (cn_store cn))"
proof -
  let ?u = "cn_live cn ! i" and ?L = "feed (cn_store cn)"
  have run: "healthy (cn_store cn)" "conn_ok ?L cn" using run_ok [OF assms(1,2)] by auto
  note L = feed_ordered [OF run(1)]
  from conn_okD(1) [OF run(2) assms(3)] task obtain p where p: "prefix p (events_of i (cn_sent cn))"
    and c: "c = last_cursor (cell_of (resume_point (su_opened ?u) p))" by (auto simp: stream_ok_def seen_def)
  have "prefix p (filter (after_cursor (su_opened ?u)) ?L)"
    using p stream_in_order [OF assms(1-3)] by (rule prefix_order.trans)
  from after_resume_point [OF L this] p show ?thesis unfolding c after_last_cursor [OF L] by blast
qed

end

interpretation live: event_feed pg_append read_page pg_events pg_good
proof
  fix s :: "('p, 'z) pg_state_scheme" and v :: "('p, 'm) store_env_scheme" and version fence es c n page
  show "pg_good s \<Longrightarrow> ordered_log (pg_events s)" by (rule postgres.good_ordered)
  show "pg_good s \<Longrightarrow> pg_good (snd (pg_append v s version fence es))" by (rule postgres.good_append) auto
  show "pg_good s \<Longrightarrow> prefix (pg_events s) (pg_events (snd (pg_append v s version fence es)))"
    by (rule postgres.append_only) auto
  show "pg_good s \<Longrightarrow> read_page v s c n = Inr page \<Longrightarrow> page = page_of (pg_events s) c n"
    by (rule postgres.read_page)
qed

end
