(* ===== verification/Gw_Wire_Safety.thy ===== *)
theory Gw_Wire_Safety
  imports Gw_Subscribe
begin

text \<open>
  The properties of the wire: what a connection may move, that frames arrive as they were sent, and
  that a subscription can be resumed where its stream ended.
\<close>

section \<open>Bytes per window\<close>

text \<open>
  C38: over any run of a connection, whatever its clock and its peer do, every stretch of time as
  long as the budget window admits at most twice the allowance of each direction, prefix, kind byte
  and body counted: the burst across a boundary that the budget's comment concedes is the worst case.
\<close>

theorem connection_bytes_bounded:
  assumes "wire_run (with_window t0 ingress egress w) log t b" and "0 < w"
  shows "admitted_bytes d (\<lambda>at. s \<le> at \<and> at < s + w) log
    \<le> 2 * (case d of Ingress \<Rightarrow> ingress | Egress \<Rightarrow> egress)"
proof -
  let ?b = "with_window t0 ingress egress w"
  have "windowed log b \<and> bu_window b = w \<and> (\<forall>d. per_window d b = per_window d ?b)"
    using wire_run_windowed [OF assms(1)] assms(2) by (simp add: with_window_def)
  with windowed_bound [of log b d s] show ?thesis by (cases d) (simp_all add: with_window_def)
qed

definition demo_clock :: clock where
  "demo_clock = \<lparr>ck_now = id, ck_wake = id\<rparr>"

lemma demo_clock_ok [simp]: "clock_ok demo_clock"
  by (simp add: clock_ok_def demo_clock_def)

theorem connection_bytes_bounded_witness:
  "\<exists>log b. wire_run (with_window 0 20 20 10) log 10 b
    \<and> admitted_bytes Egress (\<lambda>at. 9 \<le> at \<and> at < 9 + 10) log = 34 \<and> 34 \<le> (2 * 20 :: nat)"
proof -
  let ?b0 = "with_window 0 20 20 10"
  let ?k = "Frame_Json" and ?x = "replicate 12 (CHR ''x'')"
  let ?b1 = "?b0\<lparr>egress_spent := 17\<rparr>" and ?b2 = "?b0\<lparr>egress_spent := 17, window_started := 10\<rparr>"
  have fuel: "spend_loop c 2 = spend_loop c (Suc (Suc 0))" for c by (simp add: numeral_2_eq_2)
  have one: "write_frame demo_clock ?k ?x (9, ?b0, []) = Some (Inr (), (9, ?b1, encode_frame \<lparr>fr_kind = ?k, fr_body = ?x\<rparr>))"
    by (simp add: write_frame_def spend_def refill_def demo_clock_def with_window_def encode_frame_def
        frame_bounds fuel)
  have two: "\<exists>out. write_frame demo_clock ?k ?x (9, ?b1, []) = Some (Inr (), (10, ?b2, out))"
    by (simp add: write_frame_def spend_def refill_def demo_clock_def with_window_def
        frame_bounds fuel)
  have "wire_run ?b0 [] 0 ?b0" using wire_run.opened [of ?b0] by (simp add: with_window_def)
  from wire_run.sent [OF this demo_clock_ok _ one]
  have r1: "wire_run ?b0 [(9, Egress, 17)] 9 ?b1" by (simp add: wire_size_def frame_bounds)
  from two obtain out where "write_frame demo_clock ?k ?x (9, ?b1, []) = Some (Inr (), (10, ?b2, out))" by blast
  from wire_run.sent [OF r1 demo_clock_ok _ this]
  have r2: "wire_run ?b0 [(9, Egress, 17), (10, Egress, 17)] 10 ?b2" by (simp add: wire_size_def frame_bounds)
  from connection_bytes_bounded [OF r2, of Egress 9]
  have "admitted_bytes Egress (\<lambda>at. 9 \<le> at \<and> at < 9 + 10) [(9, Egress, 17), (10, Egress, 17)] \<le> 2 * 20" by simp
  moreover have "admitted_bytes Egress (\<lambda>at. 9 \<le> at \<and> at < 9 + 10) [(9, Egress, 17), (10, Egress, 17)] = 34"
    by (simp add: admitted_bytes_def)
  ultimately show ?thesis using r2 by force
qed

section \<open>Frames arrive as they were sent\<close>

text \<open>
  C39: on a connection with the kernel's allowances, frames whose bodies fit are all written, and a
  peer that reads the stream gets exactly these frames in order. If the stream then ends at a frame
  boundary the peer sees a clean close; if it ends inside a further frame, after any number of that
  frame's bytes, the peer sees a storage error and not a shorter stream.
\<close>

theorem frames_roundtrip:
  assumes "clock_ok cw" and "clock_ok cr" and "\<forall>g \<in> set (f # fs). frame_fits g" and "k < length (encode_frame f)"
  shows "\<exists>t b out. write_all cw fs (now, connection_budget ticks now, []) = Some (Inr (), (t, b, out))
    \<and> receive_all cr (Suc (length fs))
        (at, connection_budget ticks at, \<lparr>rd_bytes = out @ take k (encode_frame f), rd_broken = False\<rparr>)
      = Some (fs, if k = 0 then Inr () else Inl Code_Storage)"
proof -
  from write_all_encodes [OF assms(1) _ connection_allows_any, of fs now ticks "[]"] assms(3) obtain t b where
    "write_all cw fs (now, connection_budget ticks now, []) = Some (Inr (), (t, b, concat (map encode_frame fs)))"
    by auto
  moreover have "receive_all cr (Suc (length fs)) (at, connection_budget ticks at,
      \<lparr>rd_bytes = concat (map encode_frame fs) @ take k (encode_frame f), rd_broken = False\<rparr>)
    = Some (fs, if k = 0 then Inr () else Inl Code_Storage)"
    using assms(3) by (intro receive_all_decodes [OF assms(2) _ _ assms(4)]) auto
  ultimately show ?thesis by blast
qed

theorem frames_roundtrip_witness:
  "\<exists>t b out. write_all demo_clock [\<lparr>fr_kind = Frame_PtyRaw, fr_body = ''ls''\<rparr>] (0, connection_budget 1000 0, [])
      = Some (Inr (), (t, b, out))
    \<and> receive_all demo_clock (Suc 1) (0, connection_budget 1000 0,
         \<lparr>rd_bytes = out @ take 6 (encode_frame \<lparr>fr_kind = Frame_Json, fr_body = ''{}''\<rparr>), rd_broken = False\<rparr>)
      = Some ([\<lparr>fr_kind = Frame_PtyRaw, fr_body = ''ls''\<rparr>], Inl Code_Storage)"
  using frames_roundtrip [of demo_clock demo_clock "\<lparr>fr_kind = Frame_Json, fr_body = ''{}''\<rparr>"
      "[\<lparr>fr_kind = Frame_PtyRaw, fr_body = ''ls''\<rparr>]" 6 0 1000 0]
  by (simp add: frame_fits_def frame_bounds del: receive_all.simps write_all.simps)

section \<open>Subscriptions resume without a gap\<close>

text \<open>
  C40: whatever order a connection's tasks run in, while others append and reads fail, the events a
  subscription's client was sent are the log after its opening cursor, in order and without a gap; each
  batch follows the answer that announced the stream; and when the stream has ended, what the client
  had received up to some point followed by what a new subscription from the reported cursor reads is
  again the whole log after the opening cursor, so that resuming there loses no event.
\<close>

theorem subscription_resumes_without_gap:
  assumes "(conn_step pg_append read_page text_len)\<^sup>*\<^sup>* (connected st) cn" and "pg_good st" and "i < length (cn_live cn)"
  defines "u \<equiv> cn_live cn ! i" and "L \<equiv> pg_events (cn_store cn)"
  shows "prefix (events_of i (cn_sent cn)) (filter (after_cursor (su_opened u)) L)
    \<and> (\<forall>k seq. k < length (cn_sent cn) \<longrightarrow> og_delivered (cn_sent cn ! k) = Some (i, seq) \<longrightarrow>
         Subscribed (su_request u) (su_opened u) \<in> og_control ` set (take k (cn_sent cn)))
    \<and> (\<forall>why c. su_task u = Finished why c \<longrightarrow>
         (\<exists>p. prefix p (events_of i (cn_sent cn))
            \<and> filter (after_cursor (su_opened u)) L = p @ filter (after_cursor c) L))"
  using live.stream_in_order [OF assms(1-3)] live.resumes_without_gap [OF assms(1-3)]
    live.run_ok [OF assms(1,2)]
  unfolding u_def L_def by (auto simp: announced_def announcement_def)

definition failing_env :: "nat store_env" where
  "failing_env = calm_env 0\<lparr>se_fails := \<lambda>_. True\<rparr>"

definition demo_stream :: "nat task \<Rightarrow> u64 option \<Rightarrow> u64 \<Rightarrow> nat subscription" where
  "demo_stream task cursor cell =
     \<lparr>su_request = ''r1'', su_opened = None, su_cursor = cursor, su_delivered = cell, su_task = task\<rparr>"

definition demo_batch :: "nat outgoing" where
  "demo_batch = \<lparr>og_control = EventBatch ''r1'' [demo_row] 1, og_delivered = Some (0, 1)\<rparr>"

definition demo_ack :: "nat outgoing" where
  "demo_ack = \<lparr>og_control = Subscribed ''r1'' None, og_delivered = None\<rparr>"

definition demo_conn ::
  "nat task \<Rightarrow> u64 option \<Rightarrow> u64 \<Rightarrow> nat server_control list \<Rightarrow> nat outgoing list \<Rightarrow> (nat \<times> u64) option
     \<Rightarrow> nat outgoing list \<Rightarrow> (nat, nat pg_state) connection" where
  "demo_conn task cursor cell responses batches marking sent =
     \<lparr>cn_store = demo_after, cn_live = [demo_stream task cursor cell], cn_responses = responses,
      cn_batches = batches, cn_marking = marking, cn_sent = sent\<rparr>"

lemmas demo_conn_defs = demo_conn_def demo_stream_def demo_batch_def demo_ack_def update_sub_def next_outgoing.simps

lemma demo_good: "pg_good demo_start" "pg_events demo_after = [demo_row]" "global_sequence demo_row = 1"
  by (simp_all add: demo_defs pg_good_def ordered_log_def of_key_def)

lemma demo_turn:
  "read_turn (\<lambda>_. Some 100) (read_page (calm_env 0) demo_after None SUBSCRIPTION_BATCH_ROWS) = Offering [demo_row] 1"
  "read_turn (\<lambda>_. Some 100) (read_page failing_env demo_after c SUBSCRIPTION_BATCH_ROWS) = Ended Code_Storage"
  by (simp_all add: read_turn_def read_page_def query_def failing_env_def calm_env_def result_simps demo_good
      after_cursor_def SUBSCRIPTION_BATCH_ROWS_def MAX_READ_LIMIT_def fit_page_def)

abbreviation demo_step :: "(nat, nat pg_state) connection \<Rightarrow> (nat, nat pg_state) connection \<Rightarrow> bool" where
  "demo_step \<equiv> conn_step (pg_append :: nat store_env \<Rightarrow> _) read_page (\<lambda>_. Some 100)"

lemma demo_run:
  "demo_step\<^sup>*\<^sup>* (connected demo_start)
     (demo_conn (Finished Code_Storage (Some 1)) (Some 1) 1 [StreamClosed ''r1'' Code_Storage (Some 1)] []
        None [demo_ack, demo_batch])"
proof -
  let ?c0 = "connected demo_start :: (nat, nat pg_state) connection"
  let ?c1 = "?c0\<lparr>cn_store := demo_after\<rparr>"
  have "demo_step ?c0 ?c1" using conn_step.grown [of pg_append read_page _ ?c0 "calm_env 0" 0 None "[demo_event]"]
    by (simp add: demo_append connected_def)
  moreover have "demo_step ?c1 (demo_conn Reading None 0 [Subscribed ''r1'' None] [] None [])"
    using conn_step.asked [of ?c1 pg_append read_page _ "''r1''" None]
    by (simp add: connected_def RESPONSE_QUEUE_DEPTH_def subscribe_events_def admit_events_def full_def
        MAX_SUBSCRIPTIONS_PER_CONNECTION_def start_admitted_def cell_of_def demo_conn_defs)
  moreover have "demo_step (demo_conn Reading None 0 [Subscribed ''r1'' None] [] None []) (demo_conn Reading None 0 [] [] None [demo_ack])"
    using conn_step.written [of "demo_conn Reading None 0 [Subscribed ''r1'' None] [] None []" demo_ack "demo_conn Reading None 0 [] [] None []"] by (simp add: demo_conn_defs)
  moreover have "demo_step (demo_conn Reading None 0 [] [] None [demo_ack]) (demo_conn (Offering [demo_row] 1) None 0 [] [] None [demo_ack])"
    using conn_step.turned [of 0 "demo_conn Reading None 0 [] [] None [demo_ack]" pg_append read_page "\<lambda>_. Some 100" "calm_env 0"]
    by (simp add: demo_conn_defs demo_turn)
  moreover have "demo_step (demo_conn (Offering [demo_row] 1) None 0 [] [] None [demo_ack])
      (demo_conn Reading (Some 1) 0 [] [demo_batch] None [demo_ack])"
    using conn_step.queued [of 0 "demo_conn (Offering [demo_row] 1) None 0 [] [] None [demo_ack]" "[demo_row]" 1]
    by (simp add: demo_conn_defs BATCH_QUEUE_DEPTH_def MAX_SUBSCRIPTIONS_PER_CONNECTION_def)
  moreover have "demo_step (demo_conn Reading (Some 1) 0 [] [demo_batch] None [demo_ack])
      (demo_conn (Ended Code_Storage) (Some 1) 0 [] [demo_batch] None [demo_ack])"
    using conn_step.turned [of 0 "demo_conn Reading (Some 1) 0 [] [demo_batch] None [demo_ack]" pg_append read_page "\<lambda>_. Some 100" failing_env]
    by (simp add: demo_conn_defs demo_turn)
  moreover have "demo_step (demo_conn (Ended Code_Storage) (Some 1) 0 [] [demo_batch] None [demo_ack])
      (demo_conn (Ended Code_Storage) (Some 1) 0 [] [] (Some (0, 1)) [demo_ack, demo_batch])"
    using conn_step.written [of "demo_conn (Ended Code_Storage) (Some 1) 0 [] [demo_batch] None [demo_ack]" demo_batch
      "demo_conn (Ended Code_Storage) (Some 1) 0 [] [] None [demo_ack]"]
    by (simp add: demo_conn_defs)
  moreover have "demo_step (demo_conn (Ended Code_Storage) (Some 1) 0 [] [] (Some (0, 1)) [demo_ack, demo_batch])
      (demo_conn (Ended Code_Storage) (Some 1) 1 [] [] None [demo_ack, demo_batch])"
    using conn_step.marked [of "demo_conn (Ended Code_Storage) (Some 1) 0 [] [] (Some (0, 1)) [demo_ack, demo_batch]" 0 1]
    by (simp add: demo_conn_defs)
  moreover have "demo_step (demo_conn (Ended Code_Storage) (Some 1) 1 [] [] None [demo_ack, demo_batch])
      (demo_conn (Telling Code_Storage (Some 1)) (Some 1) 1 [] [] None [demo_ack, demo_batch])"
    using conn_step.loaded [of 0 "demo_conn (Ended Code_Storage) (Some 1) 1 [] [] None [demo_ack, demo_batch]" Code_Storage]
    by (simp add: demo_conn_defs last_cursor_def)
  moreover have "demo_step (demo_conn (Telling Code_Storage (Some 1)) (Some 1) 1 [] [] None [demo_ack, demo_batch])
      (demo_conn (Finished Code_Storage (Some 1)) (Some 1) 1 [StreamClosed ''r1'' Code_Storage (Some 1)] [] None [demo_ack, demo_batch])"
    using conn_step.told [of 0 "demo_conn (Telling Code_Storage (Some 1)) (Some 1) 1 [] [] None [demo_ack, demo_batch]" Code_Storage "Some 1"]
    by (simp add: demo_conn_defs RESPONSE_QUEUE_DEPTH_def)
  ultimately show ?thesis by (meson rtranclp.rtrancl_refl rtranclp.rtrancl_into_rtrancl)
qed

theorem subscription_resumes_without_gap_witness:
  "\<exists>p. prefix p [demo_row] \<and> [demo_row] = p @ filter (after_cursor (Some 1)) (pg_events demo_after)"
  using subscription_resumes_without_gap [OF demo_run demo_good(1), of 0]
  by (simp add: demo_conn_def demo_stream_def demo_good(2) after_cursor_def demo_ack_def demo_batch_def batch_events_def)

text \<open>
  Batches a stream left in the queue still go out after its \<open>StreamClosed\<close>, which travels on the
  queue that is served first. The client sees the events again when it resumes.
\<close>

theorem batches_outlive_their_stream:
  "demo_step\<^sup>*\<^sup>* (demo_conn (Ended Code_Storage) (Some 1) 0 [] [demo_batch] None [demo_ack])
     (demo_conn (Finished Code_Storage None) (Some 1) 0 [] [] (Some (0, 1))
        [demo_ack, \<lparr>og_control = StreamClosed ''r1'' Code_Storage None, og_delivered = None\<rparr>, demo_batch])"
proof -
  let ?close = "\<lparr>og_control = StreamClosed ''r1'' Code_Storage None, og_delivered = None\<rparr>"
  have "demo_step (demo_conn (Ended Code_Storage) (Some 1) 0 [] [demo_batch] None [demo_ack])
      (demo_conn (Telling Code_Storage None) (Some 1) 0 [] [demo_batch] None [demo_ack])"
    using conn_step.loaded [of 0 "demo_conn (Ended Code_Storage) (Some 1) 0 [] [demo_batch] None [demo_ack]" Code_Storage]
    by (simp add: demo_conn_defs last_cursor_def)
  moreover have "demo_step (demo_conn (Telling Code_Storage None) (Some 1) 0 [] [demo_batch] None [demo_ack])
      (demo_conn (Finished Code_Storage None) (Some 1) 0 [StreamClosed ''r1'' Code_Storage None] [demo_batch] None [demo_ack])"
    using conn_step.told [of 0 "demo_conn (Telling Code_Storage None) (Some 1) 0 [] [demo_batch] None [demo_ack]" Code_Storage None]
    by (simp add: demo_conn_defs RESPONSE_QUEUE_DEPTH_def)
  moreover have "demo_step
      (demo_conn (Finished Code_Storage None) (Some 1) 0 [StreamClosed ''r1'' Code_Storage None] [demo_batch] None [demo_ack])
      (demo_conn (Finished Code_Storage None) (Some 1) 0 [] [demo_batch] None [demo_ack, ?close])"
    using conn_step.written [of "demo_conn (Finished Code_Storage None) (Some 1) 0 [StreamClosed ''r1'' Code_Storage None] [demo_batch] None [demo_ack]"
        ?close "demo_conn (Finished Code_Storage None) (Some 1) 0 [] [demo_batch] None [demo_ack]"]
    by (simp add: demo_conn_defs)
  moreover have "demo_step (demo_conn (Finished Code_Storage None) (Some 1) 0 [] [demo_batch] None [demo_ack, ?close])
      (demo_conn (Finished Code_Storage None) (Some 1) 0 [] [] (Some (0, 1)) [demo_ack, ?close, demo_batch])"
    using conn_step.written [of "demo_conn (Finished Code_Storage None) (Some 1) 0 [] [demo_batch] None [demo_ack, ?close]"
        demo_batch "demo_conn (Finished Code_Storage None) (Some 1) 0 [] [] None [demo_ack, ?close]"]
    by (simp add: demo_conn_defs)
  ultimately show ?thesis by (meson rtranclp.rtrancl_refl rtranclp.rtrancl_into_rtrancl)
qed

end
