(* ===== verification/Gw_Grid.thy ===== *)
theory Gw_Grid
  imports Gw_Command
begin

text \<open>
  Screens of hosted terminals (\<open>gwk-domain/src/frame.rs\<close>): a grid of styled cells, the interned form it
  has on the wire (a table of styles, and rows as runs that refer to it) and the changes between two
  revisions; with the strict decoder of a published frame (\<open>gwk-kernel/src/wire/pty.rs\<close>). A serialized
  size is a parameter where it is needed. Sizes the code holds as \<open>usize\<close> are \<open>nat\<close>s.
\<close>

section \<open>Cells and frames\<close>

datatype pty_ansi_slot =
    Slot_Black | Slot_Red | Slot_Green | Slot_Yellow | Slot_Blue | Slot_Magenta | Slot_Cyan | Slot_White
  | Slot_BrightBlack | Slot_BrightRed | Slot_BrightGreen | Slot_BrightYellow | Slot_BrightBlue
  | Slot_BrightMagenta | Slot_BrightCyan | Slot_BrightWhite

datatype cell_color =
    Ansi16 pty_ansi_slot
  | Xterm256 u8
  | Truecolor u8 u8 u8

datatype cell_underline = Line_Single | Line_Double | Line_Curly | Line_Dotted | Line_Dashed

record cell_style =
  st_bold :: bool
  st_dim :: bool
  st_italic :: bool
  st_blink :: bool
  st_inverse :: bool
  st_invisible :: bool
  st_strikethrough :: bool
  st_overline :: bool
  st_underline :: "cell_underline option"
  st_fg :: "cell_color option"
  st_bg :: "cell_color option"
  st_underline_color :: "cell_color option"

record styled_cell =
  ce_glyph :: bytes
  ce_style :: cell_style

type_synonym grid = "styled_cell list list"

datatype pty_run =
    Run_Cells u32 "bytes list"
  | Run_Fill u32 bytes u32

fun run_width :: "pty_run \<Rightarrow> nat" where
  "run_width (Run_Cells _ glyphs) = length glyphs"
| "run_width (Run_Fill _ _ count) = unat count"

fun style_index :: "pty_run \<Rightarrow> u32" where
  "style_index (Run_Cells style _) = style"
| "style_index (Run_Fill style _ _) = style"

record pty_cursor =
  pc_row :: u16
  pc_col :: u16

record pty_frame =
  pf_styles :: "cell_style list"
  pf_rows :: "pty_run list list"
  pf_cursor :: "pty_cursor option"

record pty_cell_update =
  up_row :: u16
  up_col :: u16
  up_glyph :: bytes
  up_style :: u32

datatype pty_delta =
    CellsChanged "cell_style list" "pty_cell_update list"
  | Resized u16 u16

section \<open>Interning\<close>

fun position :: "'a \<Rightarrow> 'a list \<Rightarrow> nat option" where
  "position x [] = None"
| "position x (y # ys) = (if x = y then Some 0 else map_option Suc (position x ys))"

definition intern :: "cell_style \<Rightarrow> cell_style list \<Rightarrow> u32 \<times> cell_style list" where
  "intern style styles =
     (case position style styles of
        Some i \<Rightarrow> (of_nat i, styles)
      | None \<Rightarrow> (of_nat (length styles), styles @ [style]))"

text \<open>One row: maximal runs of one style, a run of one glyph as a fill.\<close>

definition run_of :: "u32 \<Rightarrow> styled_cell list \<Rightarrow> pty_run" where
  "run_of i run =
     (if \<forall>c \<in> set run. ce_glyph c = ce_glyph (hd run) then Run_Fill i (ce_glyph (hd run)) (of_nat (length run))
      else Run_Cells i (map ce_glyph run))"

function intern_row :: "cell_style list \<Rightarrow> styled_cell list \<Rightarrow> pty_run list \<times> cell_style list" where
  "intern_row styles [] = ([], styles)"
| "intern_row styles (c # cs) =
     (let (i, styles1) = intern (ce_style c) styles;
          same = takeWhile (\<lambda>d. ce_style d = ce_style c) cs;
          (runs, styles2) = intern_row styles1 (dropWhile (\<lambda>d. ce_style d = ce_style c) cs)
      in (run_of i (c # same) # runs, styles2))"
  by pat_completeness auto
termination
  by (relation "measure (length \<circ> snd)") (simp_all add: le_imp_less_Suc length_dropWhile_le)

fun intern_rows :: "cell_style list \<Rightarrow> grid \<Rightarrow> pty_run list list \<times> cell_style list" where
  "intern_rows styles [] = ([], styles)"
| "intern_rows styles (row # rows) =
     (let (runs, styles1) = intern_row styles row; (rest, styles2) = intern_rows styles1 rows
      in (runs # rest, styles2))"

definition from_cells :: "grid \<Rightarrow> pty_cursor option \<Rightarrow> pty_frame" where
  "from_cells cells cursor =
     (let (rows, styles) = intern_rows [] cells
      in \<lparr>pf_styles = styles, pf_rows = rows, pf_cursor = cursor\<rparr>)"

section \<open>Expanding\<close>

definition U16_MAX :: nat where "U16_MAX = 65535"

fun expand_run :: "cell_style list \<Rightarrow> pty_run \<Rightarrow> styled_cell list" where
  "expand_run styles (Run_Cells i glyphs) = map (\<lambda>g. \<lparr>ce_glyph = g, ce_style = styles ! unat i\<rparr>) glyphs"
| "expand_run styles (Run_Fill i glyph count) = replicate (unat count) \<lparr>ce_glyph = glyph, ce_style = styles ! unat i\<rparr>"

definition row_width :: "pty_run list \<Rightarrow> nat" where
  "row_width row = sum_list (map run_width row)"

text \<open>\<open>width\<close> is the width of the rows so far, None before the first.\<close>

fun expand_rows :: "cell_style list \<Rightarrow> nat option \<Rightarrow> pty_run list list \<Rightarrow> (grid \<times> nat option) option" where
  "expand_rows styles width [] = Some ([], width)"
| "expand_rows styles width (row # rows) =
     (if \<exists>run \<in> set row. length styles \<le> unat (style_index run) then None
      else if U16_MAX < row_width row then None
      else if width \<noteq> None \<and> width \<noteq> Some (row_width row) then None
      else map_option (\<lambda>(rest, w). (concat (map (expand_run styles) row) # rest, w))
             (expand_rows styles (Some (row_width row)) rows))"

definition frame_cells :: "pty_frame \<Rightarrow> grid option" where
  "frame_cells f =
     (if U16_MAX < length (pf_rows f) then None
      else (case expand_rows (pf_styles f) None (pf_rows f) of
              None \<Rightarrow> None
            | Some (cells, width) \<Rightarrow>
                let cols = (case width of None \<Rightarrow> 0 | Some w \<Rightarrow> w) in
                (case pf_cursor f of
                   None \<Rightarrow> Some cells
                 | Some c \<Rightarrow>
                     if length (pf_rows f) \<le> unat (pc_row c) \<or> cols \<le> unat (pc_col c) then None else Some cells)))"

section \<open>The strict decoder\<close>

definition PTY_GRID_MAX_AXIS :: u16 where "PTY_GRID_MAX_AXIS = 1000"
definition PTY_GRID_MAX_CELLS :: u32 where "PTY_GRID_MAX_CELLS = 100000"

definition pty_grid_dimensions_are_bounded :: "u16 \<Rightarrow> u16 \<Rightarrow> bool" where
  "pty_grid_dimensions_are_bounded cols rows \<longleftrightarrow>
     cols \<noteq> 0 \<and> rows \<noteq> 0 \<and> cols \<le> PTY_GRID_MAX_AXIS \<and> rows \<le> PTY_GRID_MAX_AXIS
     \<and> (ucast cols :: u32) * ucast rows \<le> PTY_GRID_MAX_CELLS"

definition bounded_grid :: "u16 \<Rightarrow> u16 \<Rightarrow> kernel_error_code + unit" where
  "bounded_grid cols rows = guard_that (pty_grid_dimensions_are_bounded cols rows) Code_Validation"

definition duplicate_free :: "cell_style list \<Rightarrow> kernel_error_code + unit" where
  "duplicate_free styles = guard_that (distinct styles) Code_Validation"

text \<open>The walk over the rows: every refusal is \<open>validation\<close>. It yields the width.\<close>

fun strict_rows :: "cell_style list \<Rightarrow> nat option \<Rightarrow> pty_run list list \<Rightarrow> kernel_error_code + nat option" where
  "strict_rows styles width [] = Inr width"
| "strict_rows styles width (row # rows) =
     and_then (guard_that (\<forall>run \<in> set row. run_width run \<noteq> 0 \<and> unat (style_index run) < length styles) Code_Validation) (\<lambda>_.
     and_then (guard_that (row_width row \<le> U16_MAX) Code_Validation) (\<lambda>_.
     and_then (guard_that (width = None \<or> width = Some (row_width row)) Code_Validation) (\<lambda>_.
       strict_rows styles (Some (row_width row)) rows)))"

definition strict_frame :: "pty_frame \<Rightarrow> kernel_error_code + u16 \<times> u16 \<times> grid" where
  "strict_frame f =
     and_then (duplicate_free (pf_styles f)) (\<lambda>_.
     and_then (guard_that (length (pf_rows f) \<le> U16_MAX) Code_Validation) (\<lambda>_.
     and_then (strict_rows (pf_styles f) None (pf_rows f)) (\<lambda>width.
     let rows = of_nat (length (pf_rows f)); cols = of_nat (case width of None \<Rightarrow> 0 | Some w \<Rightarrow> w) in
     and_then (bounded_grid cols rows) (\<lambda>_.
     and_then (guard_that (case pf_cursor f of None \<Rightarrow> True | Some c \<Rightarrow> pc_row c < rows \<and> pc_col c < cols)
                 Code_Validation) (\<lambda>_.
     and_then (ok_or Code_Validation (frame_cells f)) (\<lambda>cells. Inr (rows, cols, cells)))))))"

section \<open>Interning loses nothing\<close>

lemma unat_u32: "n < 2 ^ 32 \<Longrightarrow> unat (of_nat n :: u32) = n"
  by (simp add: unat_of_nat take_bit_nat_eq_self)

lemma unat_u16: "n \<le> U16_MAX \<Longrightarrow> unat (of_nat n :: u16) = n"
  by (simp add: unat_of_nat take_bit_nat_eq_self U16_MAX_def)

lemma position_Some: "position x xs = Some i \<Longrightarrow> i < length xs \<and> xs ! i = x"
  by (induction xs arbitrary: i) (auto split: if_splits)

lemma position_None: "position x xs = None \<Longrightarrow> x \<notin> set xs"
  by (induction xs) (auto split: if_splits)

definition interns :: "cell_style list \<Rightarrow> cell_style list \<Rightarrow> nat \<Rightarrow> bool" where
  "interns st st' n \<longleftrightarrow> prefix st st' \<and> length st' \<le> length st + n \<and> (distinct st \<longrightarrow> distinct st')"

lemma interns_refl [simp]: "interns st st 0"
  by (simp add: interns_def)

lemma interns_trans: "interns a b n \<Longrightarrow> interns b c m \<Longrightarrow> interns a c (n + m)"
  by (auto simp: interns_def intro: prefix_order.trans)

lemma intern_interns:
  assumes "intern s st = (i, st')" and "length st + 1 < 2 ^ 32"
  shows "interns st st' 1 \<and> unat i < length st' \<and> st' ! unat i = s"
proof (cases "position s st")
  case None
  then have "i = of_nat (length st)" "st' = st @ [s]" using assms(1) by (auto simp: intern_def)
  moreover have "unat (of_nat (length st) :: u32) = length st" using assms(2) by (simp add: unat_u32)
  ultimately show ?thesis using position_None [OF None] by (simp add: interns_def)
next
  case (Some j)
  then have "i = of_nat j" "st' = st" using assms(1) by (auto simp: intern_def)
  moreover have "unat (of_nat j :: u32) = j" using position_Some [OF Some] assms(2) by (simp add: unat_u32)
  ultimately show ?thesis using position_Some [OF Some] by (simp add: interns_def)
qed

lemma run_of_expands:
  assumes "run \<noteq> []" and "\<forall>c \<in> set run. ce_style c = st ! unat i" and "length run < 2 ^ 32"
  shows "expand_run st (run_of i run) = run" and "run_width (run_of i run) = length run"
    and "style_index (run_of i run) = i"
proof -
  have n: "unat (of_nat (length run) :: u32) = length run" using assms(3) by (simp add: unat_u32)
  have cell: "\<lparr>ce_glyph = ce_glyph c, ce_style = st ! unat i\<rparr> = c" if "c \<in> set run" for c
    using assms(2) that by (cases c) auto
  have fill: "replicate (length run) \<lparr>ce_glyph = g, ce_style = st ! unat i\<rparr> = run" if "\<forall>c \<in> set run. ce_glyph c = g" for g
  proof (rule replicate_eqI [symmetric])
    show "c = \<lparr>ce_glyph = g, ce_style = st ! unat i\<rparr>" if "c \<in> set run" for c
      using cell [OF that] \<open>\<forall>c \<in> set run. ce_glyph c = g\<close> that by auto
  qed simp
  show "expand_run st (run_of i run) = run" using fill cell by (auto simp: run_of_def n intro: map_idI)
  show "run_width (run_of i run) = length run" by (simp add: run_of_def n)
  show "style_index (run_of i run) = i" by (simp add: run_of_def)
qed

definition expands_to :: "cell_style list \<Rightarrow> pty_run list \<Rightarrow> styled_cell list \<Rightarrow> bool" where
  "expands_to st runs row \<longleftrightarrow> concat (map (expand_run st) runs) = row \<and> row_width runs = length row
     \<and> (\<forall>r \<in> set runs. run_width r \<noteq> 0 \<and> unat (style_index r) < length st)"

lemma expands_to_Cons:
  assumes "expands_to st runs rest" and "run \<noteq> []" and "\<forall>c \<in> set run. ce_style c = st ! unat i" and "length run < 2 ^ 32"
    and "unat i < length st"
  shows "expands_to st (run_of i run # runs) (run @ rest)"
  using assms run_of_expands [OF assms(2-4)] by (simp add: expands_to_def row_width_def)

lemma intern_row_ok:
  assumes "intern_row st row = (runs, st')" and "length st + length row < 2 ^ 32"
  shows "interns st st' (length row) \<and> (\<forall>ext. prefix st' ext \<longrightarrow> expands_to ext runs row)"
  using assms
proof (induction st row arbitrary: runs st' rule: intern_row.induct)
  case (1 st)
  then show ?case by (simp add: expands_to_def row_width_def)
next
  case (2 st c cs)
  let ?P = "\<lambda>d. ce_style d = ce_style c"
  let ?same = "takeWhile ?P cs" and ?rest = "dropWhile ?P cs"
  obtain i st1 where in1: "intern (ce_style c) st = (i, st1)" by fastforce
  obtain runs2 st2 where in2: "intern_row st1 ?rest = (runs2, st2)" by fastforce
  have out: "runs = run_of i (c # ?same) # runs2" "st' = st2"
    using "2.prems"(1) by (simp_all add: in1 in2)
  have row: "c # cs = (c # ?same) @ ?rest" and len: "length cs = length ?same + length ?rest"
    by (simp_all flip: length_append)
  have one: "interns st st1 1" "unat i < length st1" "st1 ! unat i = ce_style c"
    using intern_interns [OF in1] "2.prems"(2) by simp_all
  have "length st1 + length ?rest < 2 ^ 32" using one(1) "2.prems"(2) len by (simp add: interns_def)
  from "2.IH" [OF in1 [symmetric] refl refl in2 this]
  have two: "interns st1 st2 (length ?rest)" "\<And>ext. prefix st2 ext \<Longrightarrow> expands_to ext runs2 ?rest" by auto
  have "interns st st2 (Suc (length cs))"
    using interns_trans [OF one(1) two(1)] by (auto simp: interns_def len)
  moreover have "expands_to ext runs (c # cs)" if "prefix st2 ext" for ext
  proof -
    have pre: "prefix st1 ext" using two(1) that by (auto simp: interns_def intro: prefix_order.trans)
    then have i: "unat i < length ext" "ext ! unat i = ce_style c"
      using one(2,3) by (auto simp: prefix_def nth_append)
    have same: "\<forall>d \<in> set (c # ?same). ce_style d = ext ! unat i" using i(2) by (auto dest: set_takeWhileD)
    have short: "length (c # ?same) < 2 ^ 32" using "2.prems"(2) len by simp
    have "expands_to ext (run_of i (c # ?same) # runs2) ((c # ?same) @ ?rest)"
      by (rule expands_to_Cons [OF two(2) [OF that] _ same short i(1)]) simp
    then show ?thesis by (simp add: out)
  qed
  ultimately show ?case unfolding out(2) by simp
qed

definition cell_count :: "grid \<Rightarrow> nat" where
  "cell_count cells = sum_list (map length cells)"

lemma intern_rows_ok:
  assumes "intern_rows st cells = (rows, st')" and "length st + cell_count cells < 2 ^ 32"
  shows "interns st st' (cell_count cells) \<and> (\<forall>ext. prefix st' ext \<longrightarrow> list_all2 (expands_to ext) rows cells)"
  using assms
proof (induction cells arbitrary: st rows)
  case Nil
  then show ?case by (simp add: cell_count_def)
next
  case (Cons row cells)
  obtain runs st1 where r: "intern_row st row = (runs, st1)" by fastforce
  obtain rest st2 where rs: "intern_rows st1 cells = (rest, st2)" by fastforce
  have out: "rows = runs # rest" "st' = st2" using Cons.prems(1) by (simp_all add: r rs)
  have one: "interns st st1 (length row)" "\<And>ext. prefix st1 ext \<Longrightarrow> expands_to ext runs row"
    using intern_row_ok [OF r] Cons.prems(2) by (auto simp: cell_count_def)
  have "length st1 + cell_count cells < 2 ^ 32" using one(1) Cons.prems(2) by (simp add: interns_def cell_count_def)
  with Cons.IH [of st1 rest] rs out(2) have two: "interns st1 st2 (cell_count cells)"
    "\<And>ext. prefix st2 ext \<Longrightarrow> list_all2 (expands_to ext) rest cells" by auto
  have "interns st st2 (cell_count (row # cells))"
    using interns_trans [OF one(1) two(1)] by (simp add: cell_count_def)
  moreover have "prefix st1 ext" if "prefix st2 ext" for ext
    using two(1) that by (auto simp: interns_def intro: prefix_order.trans)
  ultimately show ?case using one(2) two(2) by (simp add: out)
qed

lemma expand_rows_ok:
  assumes "list_all2 (expands_to st) rows cells" and "\<forall>row \<in> set cells. length row = n" and "n \<le> U16_MAX"
    and "w = None \<or> w = Some n"
  shows "expand_rows st w rows = Some (cells, if cells = [] then w else Some n)"
    and "strict_rows st w rows = Inr (if cells = [] then w else Some n)"
proof -
  have "expand_rows st w rows = Some (cells, if cells = [] then w else Some n)
      \<and> strict_rows st w rows = Inr (if cells = [] then w else Some n)"
    using assms
  proof (induction rows cells arbitrary: w rule: list_all2_induct)
    case (Cons runs rows row cells)
    then have "row_width runs = n" "concat (map (expand_run st) runs) = row"
      "\<forall>r \<in> set runs. run_width r \<noteq> 0 \<and> unat (style_index r) < length st" by (auto simp: expands_to_def)
    with Cons.IH [of "Some n"] Cons.prems show ?case by (auto simp: guard_that_def not_le)
  qed simp
  then show "expand_rows st w rows = Some (cells, if cells = [] then w else Some n)"
    and "strict_rows st w rows = Inr (if cells = [] then w else Some n)" by simp_all
qed

text \<open>A screen the mirror may hold: rectangular, within the bounds of a grid, its cursor inside.\<close>

definition rectangular :: "nat \<Rightarrow> nat \<Rightarrow> grid \<Rightarrow> bool" where
  "rectangular rows cols cells \<longleftrightarrow> length cells = rows \<and> (\<forall>row \<in> set cells. length row = cols)"

definition cursor_inside :: "nat \<Rightarrow> nat \<Rightarrow> pty_cursor option \<Rightarrow> bool" where
  "cursor_inside rows cols cursor \<longleftrightarrow>
     (case cursor of None \<Rightarrow> True | Some c \<Rightarrow> unat (pc_row c) < rows \<and> unat (pc_col c) < cols)"

lemma cell_count_rectangular: "rectangular rows cols cells \<Longrightarrow> cell_count cells = rows * cols"
  by (induction cells arbitrary: rows) (auto simp: rectangular_def cell_count_def)

lemma from_cells_ok:
  assumes "cell_count cells < 2 ^ 32"
  obtains st rows where "from_cells cells cursor = \<lparr>pf_styles = st, pf_rows = rows, pf_cursor = cursor\<rparr>"
    and "list_all2 (expands_to st) rows cells" and "distinct st"
proof -
  obtain rows st where r: "intern_rows [] cells = (rows, st)" by fastforce
  with intern_rows_ok [OF r] assms that [of st rows] show thesis by (simp add: from_cells_def interns_def)
qed

lemma frame_cells_from_cells:
  assumes "rectangular rows cols cells" and "rows \<le> U16_MAX" and "cols \<le> U16_MAX" and "cursor_inside rows cols cursor"
  shows "frame_cells (from_cells cells cursor) = Some cells"
proof -
  have "rows * cols \<le> U16_MAX * U16_MAX" using assms(2,3) by (rule mult_le_mono)
  then have "cell_count cells < 2 ^ 32" using cell_count_rectangular [OF assms(1)] by (simp add: U16_MAX_def)
  then obtain st runs where f: "from_cells cells cursor = \<lparr>pf_styles = st, pf_rows = runs, pf_cursor = cursor\<rparr>"
    and all: "list_all2 (expands_to st) runs cells" by (rule from_cells_ok)
  have "expand_rows st None runs = Some (cells, if cells = [] then None else Some cols)"
    using assms(1,3) by (intro expand_rows_ok(1) [OF all]) (auto simp: rectangular_def)
  moreover have "length runs = rows" using list_all2_lengthD [OF all] assms(1) by (simp add: rectangular_def)
  ultimately show ?thesis using assms(1,2,4)
    by (auto simp: frame_cells_def f Let_def cursor_inside_def rectangular_def not_le split: option.splits)
qed

lemma strict_rows_width:
  assumes "strict_rows st w rows = Inr w'"
  shows "w' = (if rows = [] then w else Some (row_width (hd rows))) \<and> (\<forall>row \<in> set rows. w' = Some (row_width row))
    \<and> (\<forall>row \<in> set rows. row_width row \<le> U16_MAX) \<and> (\<forall>n. w = Some n \<longrightarrow> w' = Some n)"
  using assms by (induction rows arbitrary: w) (auto simp: and_then_Inr guard_that_def split: if_splits)

lemma length_expand_run: "length (expand_run st run) = run_width run"
  by (cases run) simp_all

lemma length_expand: "length (concat (map (expand_run st) row)) = row_width row"
  by (induction row) (simp_all add: row_width_def length_expand_run)

lemma expand_rows_shape:
  "expand_rows st w rows = Some (cells, w') \<Longrightarrow> map length cells = map row_width rows"
  by (induction rows arbitrary: w cells) (auto simp: length_expand split: if_splits)

lemma strict_frame_rectangular:
  assumes "strict_frame f = Inr (rows, cols, cells)"
  shows "rectangular (unat rows) (unat cols) cells \<and> pty_grid_dimensions_are_bounded cols rows
    \<and> cursor_inside (unat rows) (unat cols) (pf_cursor f) \<and> frame_cells f = Some cells"
proof -
  from assms obtain w where len: "length (pf_rows f) \<le> U16_MAX" and sr: "strict_rows (pf_styles f) None (pf_rows f) = Inr w"
    and rows: "rows = of_nat (length (pf_rows f))" and cols: "cols = of_nat (case w of None \<Rightarrow> 0 | Some n \<Rightarrow> n)"
    and b: "pty_grid_dimensions_are_bounded cols rows"
    and cur: "case pf_cursor f of None \<Rightarrow> True | Some c \<Rightarrow> pc_row c < rows \<and> pc_col c < cols"
    and fc: "frame_cells f = Some cells"
    by (auto simp: strict_frame_def and_then_Inr guard_that_def duplicate_free_def bounded_grid_def Let_def ok_or_Inr
        split: if_splits)
  from fc obtain w2 where "expand_rows (pf_styles f) None (pf_rows f) = Some (cells, w2)"
    by (auto simp: frame_cells_def Let_def split: if_splits option.splits)
  then have shape: "map length cells = map row_width (pf_rows f)" by (rule expand_rows_shape)
  then have n: "length cells = length (pf_rows f)" by (metis length_map)
  have "length row = unat cols" if "row \<in> set cells" for row
  proof -
    have "length row \<in> set (map row_width (pf_rows f))" using that by (simp flip: shape)
    then obtain r where "r \<in> set (pf_rows f)" "length row = row_width r" by auto
    with strict_rows_width [OF sr] show ?thesis by (auto simp: cols unat_u16)
  qed
  with n len b cur fc show ?thesis
    by (auto simp: rectangular_def rows unat_u16 cursor_inside_def word_less_nat_alt split: option.splits)
qed

lemma bounded_unat:
  assumes "pty_grid_dimensions_are_bounded cols rows"
  shows "0 < unat rows" "0 < unat cols" "unat rows \<le> 1000" "unat cols \<le> 1000" "unat rows \<le> U16_MAX" "unat cols \<le> U16_MAX"
  using assms by (auto simp: pty_grid_dimensions_are_bounded_def PTY_GRID_MAX_AXIS_def U16_MAX_def word_le_nat_alt unat_gt_0)

text \<open>What a mirror serves, another decoder accepts, and it gets the same screen.\<close>

lemma strict_frame_from_cells:
  assumes rect: "rectangular (unat rows) (unat cols) cells" and b: "pty_grid_dimensions_are_bounded cols rows"
    and cur: "cursor_inside (unat rows) (unat cols) cursor"
  shows "strict_frame (from_cells cells cursor) = Inr (rows, cols, cells)"
proof -
  note bs = bounded_unat [OF b]
  have fc: "frame_cells (from_cells cells cursor) = Some cells"
    by (rule frame_cells_from_cells [OF rect bs(5,6) cur])
  have "unat rows * unat cols \<le> 1000 * 1000" using bs(3,4) by (rule mult_le_mono)
  then have "cell_count cells < 2 ^ 32" using cell_count_rectangular [OF rect] by simp
  then obtain st runs where f: "from_cells cells cursor = \<lparr>pf_styles = st, pf_rows = runs, pf_cursor = cursor\<rparr>"
    and all: "list_all2 (expands_to st) runs cells" and st: "distinct st" by (rule from_cells_ok)
  have ne: "cells \<noteq> []" using rect bs(1) by (auto simp: rectangular_def)
  then have "strict_rows st None runs = Inr (Some (unat cols))"
    using expand_rows_ok(2) [OF all, of "unat cols" None] rect bs(6) by (auto simp: rectangular_def)
  moreover have "length runs = unat rows" using list_all2_lengthD [OF all] rect by (simp add: rectangular_def)
  moreover have "case cursor of None \<Rightarrow> True | Some c \<Rightarrow> pc_row c < rows \<and> pc_col c < cols"
    using cur by (auto simp: cursor_inside_def word_less_nat_alt split: option.splits)
  ultimately show ?thesis using fc st bs b
    by (simp add: strict_frame_def f duplicate_free_def bounded_grid_def result_simps Let_def cong: option.case_cong)
qed

end
