(* ===== verification/Gw_Pty.thy ===== *)
theory Gw_Pty
  imports Gw_Ids Gw_Grid Gw_Frame "HOL-Library.AList"
begin

text \<open>
  The hub of hosted terminals (\<open>gwk-kernel/src/wire/pty.rs\<close>): for every session the mirror of its screen,
  the window of batches kept for a reattach, the raw fallback and the routes back to the host. A verb runs
  under the hub's lock, so it is a function on the hub; a refusal leaves the hub as it was. The broadcast
  channel of a session's life is kept by its generation as the list of what was sent to it, since its
  receivers may outlive the session, and a receiver is a place in that list. \<open>pty_env\<close> holds what the JSON
  encoder decides: the size of a frame, of a batch, of a style and of a run.
\<close>

section \<open>Bounds\<close>

definition RETAINED_BATCHES :: nat where "RETAINED_BATCHES = 256"
definition RETAINED_BYTES :: nat where "RETAINED_BYTES = 8 * 1024 * 1024"
definition PUBLISH_BYTE_BUDGET :: nat where "PUBLISH_BYTE_BUDGET = FRAME_BODY_MAX_BYTES div 2"
definition MAX_GLYPH_BYTES :: nat where "MAX_GLYPH_BYTES = 64"
definition BROADCAST_CAPACITY :: nat where "BROADCAST_CAPACITY = 64"
definition RAW_RETAINED_EVENTS :: nat where "RAW_RETAINED_EVENTS = 1024"
definition RAW_RETAINED_BYTES :: nat where "RAW_RETAINED_BYTES = 8 * 1024 * 1024"
definition MAX_SESSIONS :: nat where "MAX_SESSIONS = 64"

section \<open>State\<close>

record pty_env =
  pe_frame_len :: "pty_frame \<Rightarrow> nat option"
  pe_deltas_len :: "pty_delta list \<Rightarrow> nat option"
  pe_style_len :: "cell_style \<Rightarrow> nat"
  pe_run_len :: "pty_run \<Rightarrow> nat"

record pty_batch =
  ba_seq :: u64
  ba_deltas :: "pty_delta list"

datatype pty_raw_delivery =
    Raw_Snapshot "u64 option" u16 u16 bytes
  | Raw_Output u64 bytes
  | Raw_Resized u64 u16 u16

fun raw_delivery_seq :: "pty_raw_delivery \<Rightarrow> u64 option" where
  "raw_delivery_seq (Raw_Snapshot n _ _ _) = n"
| "raw_delivery_seq (Raw_Output n _) = Some n"
| "raw_delivery_seq (Raw_Resized n _ _) = Some n"

fun raw_delivery_bytes :: "pty_raw_delivery \<Rightarrow> nat" where
  "raw_delivery_bytes (Raw_Snapshot _ _ _ bs) = length bs"
| "raw_delivery_bytes (Raw_Output _ bs) = length bs"
| "raw_delivery_bytes (Raw_Resized _ _ _) = 0"

record pty_session =
  ss_owner :: u64
  ss_generation :: bytes
  ss_seq :: "u64 option"
  ss_cells :: grid
  ss_cursor :: "pty_cursor option"
  ss_retained :: "(pty_batch \<times> nat) list"
  ss_retained_bytes :: nat
  ss_evicted_through :: "u64 option"
  ss_raw_snapshot :: "pty_raw_delivery option"
  ss_raw_seq :: "u64 option"
  ss_raw_retained :: "pty_raw_delivery list"
  ss_raw_retained_bytes :: nat

record pty_hub =
  hb_sessions :: "(bytes \<times> pty_session) list"
  hb_live :: "bytes \<Rightarrow> pty_batch list"
  hb_raw_live :: "bytes \<Rightarrow> pty_raw_delivery list"
  hb_connections :: u64
  hb_writer_epoch :: u64
  hb_generations :: u64

definition hub_new :: "u64 \<Rightarrow> pty_hub" where
  "hub_new epoch = \<lparr>hb_sessions = [], hb_live = (\<lambda>_. []), hb_raw_live = (\<lambda>_. []), hb_connections = 0,
     hb_writer_epoch = epoch, hb_generations = 0\<rparr>"

definition hub_connection :: "pty_hub \<Rightarrow> u64 \<times> pty_hub" where
  "hub_connection h = (hb_connections h + 1, h\<lparr>hb_connections := hb_connections h + 1\<rparr>)"

definition session_of :: "bytes \<Rightarrow> pty_hub \<Rightarrow> pty_session option" where
  "session_of i h = map_of (hb_sessions h) i"

definition put_session :: "bytes \<Rightarrow> pty_session \<Rightarrow> pty_hub \<Rightarrow> pty_hub" where
  "put_session i s h = h\<lparr>hb_sessions := AList.update i s (hb_sessions h)\<rparr>"

definition session_size :: "pty_session \<Rightarrow> u16 \<times> u16" where
  "session_size s =
     (case ss_cells s of [] \<Rightarrow> 0 | row # _ \<Rightarrow> of_nat (length row), of_nat (length (ss_cells s)))"

section \<open>Keeping a window\<close>

fun evict ::
  "(pty_batch \<times> nat) list \<Rightarrow> nat \<Rightarrow> u64 option \<Rightarrow> (pty_batch \<times> nat) list \<times> nat \<times> u64 option" where
  "evict [] bytes gone = ([], bytes, gone)"
| "evict ((b, n) # rest) bytes gone =
     (if RETAINED_BATCHES < length ((b, n) # rest) \<or> RETAINED_BYTES < bytes
      then evict rest (bytes - n) (Some (ba_seq b)) else ((b, n) # rest, bytes, gone))"

definition retain :: "pty_batch \<Rightarrow> nat \<Rightarrow> pty_session \<Rightarrow> pty_session" where
  "retain b n s =
     (let (kept, bytes, gone) = evict (ss_retained s @ [(b, n)]) (ss_retained_bytes s + n) (ss_evicted_through s)
      in s\<lparr>ss_retained := kept, ss_retained_bytes := bytes, ss_evicted_through := gone\<rparr>)"

text \<open>\<open>Session::publish\<close>: keep the batch and send it to the channel of the session's life.\<close>

definition publish_batch :: "bytes \<Rightarrow> pty_batch \<Rightarrow> nat \<Rightarrow> pty_session \<Rightarrow> pty_hub \<Rightarrow> pty_hub" where
  "publish_batch i b n s h =
     (let h1 = put_session i (retain b n s) h
      in h1\<lparr>hb_live := (hb_live h1)(ss_generation s := hb_live h1 (ss_generation s) @ [b])\<rparr>)"

section \<open>Refusals\<close>

definition measured :: "nat option \<Rightarrow> kernel_error_code + nat" where
  "measured len = and_then (ok_or Code_Storage len) (\<lambda>n.
     and_then (guard_that (n \<le> PUBLISH_BYTE_BUDGET) Code_Validation) (\<lambda>_. Inr n))"

definition owned_by :: "u64 \<Rightarrow> pty_session \<Rightarrow> kernel_error_code + unit" where
  "owned_by conn s = guard_that (ss_owner s = conn) Code_Authority"

definition known :: "bytes \<Rightarrow> pty_hub \<Rightarrow> kernel_error_code + pty_session" where
  "known i h = ok_or Code_NotFound (session_of i h)"

definition generation_text :: "u64 \<Rightarrow> u64 \<Rightarrow> bytes" where
  "generation_text epoch counter = nat_text (unat epoch) @ '':'' @ nat_text (unat counter)"

definition next_generation :: "pty_hub \<Rightarrow> kernel_error_code + bytes \<times> pty_hub" where
  "next_generation h =
     and_then (ok_or Code_Overloaded (checked_add (hb_generations h) 1)) (\<lambda>counter.
       Inr (generation_text (hb_writer_epoch h) counter, h\<lparr>hb_generations := counter\<rparr>))"

section \<open>Publishing a screen\<close>

text \<open>The revision a snapshot would give a session: None refuses it, Some tells whether the head moves.\<close>

definition snapshot_advances :: "u64 option \<Rightarrow> u64 option \<Rightarrow> bool option" where
  "snapshot_advances head seq =
     (case (head, seq) of
        (Some m, Some n) \<Rightarrow> if n < m then None else Some (m < n)
      | (Some _, None) \<Rightarrow> None
      | (None, Some _) \<Rightarrow> Some True
      | (None, None) \<Rightarrow> Some False)"

definition publish_snapshot ::
  "pty_env \<Rightarrow> u64 \<Rightarrow> bytes \<Rightarrow> u64 option \<Rightarrow> pty_frame \<Rightarrow> pty_hub \<Rightarrow> kernel_error_code + bytes option \<times> pty_hub" where
  "publish_snapshot env conn i seq f h =
     and_then (strict_frame f) (\<lambda>(rows, cols, cells).
     and_then (measured (pe_frame_len env f)) (\<lambda>bytes.
     case session_of i h of
       None \<Rightarrow>
         and_then (guard_that (length (hb_sessions h) < MAX_SESSIONS) Code_Overloaded) (\<lambda>_.
         and_then (next_generation h) (\<lambda>(generation, h1).
           Inr (Some generation,
             put_session i
               \<lparr>ss_owner = conn, ss_generation = generation, ss_seq = seq, ss_cells = cells, ss_cursor = pf_cursor f,
                ss_retained = [], ss_retained_bytes = 0, ss_evicted_through = seq, ss_raw_snapshot = None,
                ss_raw_seq = None, ss_raw_retained = [], ss_raw_retained_bytes = 0\<rparr> h1)))
     | Some s \<Rightarrow>
         and_then (owned_by conn s) (\<lambda>_.
         and_then (ok_or Code_StaleVersion (snapshot_advances (ss_seq s) seq)) (\<lambda>advanced.
         and_then (guard_that (advanced \<or> (cols, rows) = session_size s) Code_Validation) (\<lambda>_.
         let s1 = s\<lparr>ss_cells := cells, ss_cursor := pf_cursor f, ss_seq := seq\<rparr> in
         Inr (None,
           if advanced then publish_batch i \<lparr>ba_seq = the seq, ba_deltas = [Resized rows cols]\<rparr> bytes s1 h
           else put_session i s1 h))))))"

section \<open>Publishing changes\<close>

definition blank_style :: cell_style where
  "blank_style = \<lparr>st_bold = False, st_dim = False, st_italic = False, st_blink = False, st_inverse = False,
     st_invisible = False, st_strikethrough = False, st_overline = False, st_underline = None, st_fg = None,
     st_bg = None, st_underline_color = None\<rparr>"

definition blank :: styled_cell where
  "blank = \<lparr>ce_glyph = '' '', ce_style = blank_style\<rparr>"

definition U64_MAX :: nat where "U64_MAX = 2 ^ 64 - 1"

definition blank_grid_bytes :: "pty_env \<Rightarrow> u16 \<Rightarrow> u16 \<Rightarrow> nat" where
  "blank_grid_bytes env rows cols =
     (if rows = 0 then 23
      else if cols = 0 then 21 + 3 * unat rows + 1
      else min U64_MAX (pe_style_len env blank_style + 22
             + min U64_MAX (unat rows * (pe_run_len env (Run_Fill 0 '' '' (ucast cols)) + 3))))"

definition update_ok :: "u16 \<Rightarrow> u16 \<Rightarrow> cell_style list \<Rightarrow> pty_cell_update \<Rightarrow> bool" where
  "update_ok cols rows styles u \<longleftrightarrow>
     unat (up_style u) < length styles \<and> up_row u < rows \<and> up_col u < cols \<and> length (up_glyph u) \<le> MAX_GLYPH_BYTES"

fun check_deltas :: "pty_env \<Rightarrow> u16 \<times> u16 \<Rightarrow> pty_delta list \<Rightarrow> kernel_error_code + unit" where
  "check_deltas env _ [] = Inr ()"
| "check_deltas env _ (Resized rows cols # ds) =
     and_then (bounded_grid cols rows) (\<lambda>_.
     and_then (guard_that (blank_grid_bytes env rows cols \<le> PUBLISH_BYTE_BUDGET) Code_Validation) (\<lambda>_.
       check_deltas env (cols, rows) ds))"
| "check_deltas env (cols, rows) (CellsChanged styles updates # ds) =
     and_then (duplicate_free styles) (\<lambda>_.
     and_then (guard_that (list_all (update_ok cols rows styles) updates) Code_Validation) (\<lambda>_.
       check_deltas env (cols, rows) ds))"

definition set_cell :: "cell_style list \<Rightarrow> grid \<Rightarrow> pty_cell_update \<Rightarrow> grid" where
  "set_cell styles cells u =
     cells[unat (up_row u) := (cells ! unat (up_row u))
       [unat (up_col u) := \<lparr>ce_glyph = up_glyph u, ce_style = styles ! unat (up_style u)\<rparr>]]"

fun apply_delta :: "pty_delta \<Rightarrow> grid \<times> pty_cursor option \<Rightarrow> grid \<times> pty_cursor option" where
  "apply_delta (Resized rows cols) _ = (replicate (unat rows) (replicate (unat cols) blank), None)"
| "apply_delta (CellsChanged styles updates) (cells, cursor) = (foldl (set_cell styles) cells updates, cursor)"

definition apply_deltas :: "pty_delta list \<Rightarrow> grid \<times> pty_cursor option \<Rightarrow> grid \<times> pty_cursor option" where
  "apply_deltas ds screen = fold apply_delta ds screen"

definition publish_deltas ::
  "pty_env \<Rightarrow> u64 \<Rightarrow> bytes \<Rightarrow> u64 \<Rightarrow> pty_delta list \<Rightarrow> pty_hub \<Rightarrow> kernel_error_code + unit \<times> pty_hub" where
  "publish_deltas env conn i seq ds h =
     and_then (measured (pe_deltas_len env ds)) (\<lambda>bytes.
     and_then (known i h) (\<lambda>s.
     and_then (owned_by conn s) (\<lambda>_.
     and_then (guard_that (case ss_seq s of None \<Rightarrow> True | Some m \<Rightarrow> m < seq) Code_StaleVersion) (\<lambda>_.
     and_then (check_deltas env (session_size s) ds) (\<lambda>_.
     let (cells, cursor) = apply_deltas ds (ss_cells s, ss_cursor s);
         s1 = s\<lparr>ss_cells := cells, ss_cursor := cursor, ss_seq := Some seq\<rparr> in
     Inr ((), publish_batch i \<lparr>ba_seq = seq, ba_deltas = ds\<rparr> bytes s1 h))))))"

section \<open>The raw fallback\<close>

definition publish_raw_snapshot ::
  "u64 \<Rightarrow> bytes \<Rightarrow> u64 option \<Rightarrow> u16 \<Rightarrow> u16 \<Rightarrow> bytes \<Rightarrow> pty_hub \<Rightarrow> kernel_error_code + unit \<times> pty_hub" where
  "publish_raw_snapshot conn i seq rows cols raw h =
     and_then (guard_that (length raw + 1 \<le> FRAME_BODY_MAX_BYTES) Code_FrameSize) (\<lambda>_.
     and_then (known i h) (\<lambda>s.
     and_then (owned_by conn s) (\<lambda>_.
     and_then (guard_that (ss_raw_snapshot s = None) Code_Overloaded) (\<lambda>_.
     and_then (guard_that (seq = ss_seq s) Code_StaleVersion) (\<lambda>_.
     and_then (guard_that ((cols, rows) = session_size s) Code_Validation) (\<lambda>_.
       Inr ((), put_session i (s\<lparr>ss_raw_snapshot := Some (Raw_Snapshot seq rows cols raw), ss_raw_seq := seq,
         ss_raw_retained := [], ss_raw_retained_bytes := 0\<rparr>) h)))))))"

definition publish_raw :: "u64 \<Rightarrow> bytes \<Rightarrow> pty_raw_delivery \<Rightarrow> pty_hub \<Rightarrow> kernel_error_code + unit \<times> pty_hub" where
  "publish_raw conn i delivery h =
     and_then (ok_or Code_Validation (raw_delivery_seq delivery)) (\<lambda>seq.
     and_then (known i h) (\<lambda>s.
     and_then (owned_by conn s) (\<lambda>_.
     and_then (guard_that (ss_raw_snapshot s \<noteq> None) Code_Overloaded) (\<lambda>_.
     and_then (case ss_raw_seq s of None \<Rightarrow> Inr 0 | Some m \<Rightarrow> ok_or Code_Overloaded (checked_add m 1)) (\<lambda>expected.
     and_then (guard_that (seq = expected) Code_StaleVersion) (\<lambda>_.
     let bytes = raw_delivery_bytes delivery in
     and_then (guard_that (length (ss_raw_retained s) < RAW_RETAINED_EVENTS
                 \<and> ss_raw_retained_bytes s + bytes \<le> RAW_RETAINED_BYTES) Code_Overloaded) (\<lambda>_.
     let h1 = put_session i (s\<lparr>ss_raw_seq := Some seq, ss_raw_retained_bytes := ss_raw_retained_bytes s + bytes,
                ss_raw_retained := ss_raw_retained s @ [delivery]\<rparr>) h in
     Inr ((), h1\<lparr>hb_raw_live := (hb_raw_live h1)(ss_generation s := hb_raw_live h1 (ss_generation s) @ [delivery])\<rparr>))))))))"

definition publish_raw_output :: "u64 \<Rightarrow> bytes \<Rightarrow> u64 \<Rightarrow> bytes \<Rightarrow> pty_hub \<Rightarrow> kernel_error_code + unit \<times> pty_hub" where
  "publish_raw_output conn i seq raw h =
     and_then (guard_that (length raw + 1 \<le> FRAME_BODY_MAX_BYTES) Code_FrameSize) (\<lambda>_.
       publish_raw conn i (Raw_Output seq raw) h)"

definition publish_raw_resize :: "u64 \<Rightarrow> bytes \<Rightarrow> u64 \<Rightarrow> u16 \<Rightarrow> u16 \<Rightarrow> pty_hub \<Rightarrow> kernel_error_code + unit \<times> pty_hub" where
  "publish_raw_resize conn i seq rows cols h = publish_raw conn i (Raw_Resized seq rows cols) h"

section \<open>Ending sessions\<close>

definition retire :: "u64 \<Rightarrow> bytes \<Rightarrow> pty_hub \<Rightarrow> kernel_error_code + bytes \<times> pty_hub" where
  "retire conn i h =
     and_then (known i h) (\<lambda>s.
     and_then (owned_by conn s) (\<lambda>_.
       Inr (ss_generation s, h\<lparr>hb_sessions := AList.delete i (hb_sessions h)\<rparr>)))"

definition disconnect_sessions :: "u64 \<Rightarrow> pty_hub \<Rightarrow> (bytes \<times> bytes) list \<times> pty_hub" where
  "disconnect_sessions conn h =
     (map (\<lambda>(i, s). (i, ss_generation s)) (filter (\<lambda>(_, s). ss_owner s = conn) (hb_sessions h)),
      h\<lparr>hb_sessions := filter (\<lambda>(_, s). ss_owner s \<noteq> conn) (hb_sessions h)\<rparr>)"

section \<open>Attaching\<close>

record attached =
  at_generation :: bytes
  at_rows :: u16
  at_cols :: u16
  at_cursor :: "u64 option"
  at_replay :: "pty_batch list"
  at_live :: nat

definition serviceable :: "pty_session \<Rightarrow> bytes option \<Rightarrow> u64 option \<Rightarrow> u64 option" where
  "serviceable s generation cursor =
     (case (generation, cursor) of
        (Some g, Some c) \<Rightarrow>
          if g = ss_generation s
             \<and> (case ss_seq s of None \<Rightarrow> False | Some m \<Rightarrow> c \<le> m)
             \<and> (case ss_evicted_through s of None \<Rightarrow> True | Some gone \<Rightarrow> gone \<le> c)
          then Some c else None
      | _ \<Rightarrow> None)"

definition attach :: "bytes \<Rightarrow> bytes option \<Rightarrow> u64 option \<Rightarrow> pty_hub \<Rightarrow> kernel_error_code + attached" where
  "attach i generation cursor h =
     and_then (known i h) (\<lambda>s.
     let (cols, rows) = session_size s;
         (answer, replay) =
           (case serviceable s generation cursor of
              Some c \<Rightarrow> (Some c, filter (\<lambda>b. c < ba_seq b) (map fst (ss_retained s)))
            | None \<Rightarrow> (ss_seq s, [])) in
     Inr \<lparr>at_generation = ss_generation s, at_rows = rows, at_cols = cols, at_cursor = answer, at_replay = replay,
          at_live = length (hb_live h (ss_generation s))\<rparr>)"

record raw_attached =
  ra_generation :: bytes
  ra_rows :: u16
  ra_cols :: u16
  ra_cursor :: "u64 option"
  ra_delivered :: "u64 option"
  ra_replay :: "pty_raw_delivery list"
  ra_live :: nat

definition raw_serviceable :: "pty_session \<Rightarrow> u64 option \<Rightarrow> bytes option \<Rightarrow> u64 option \<Rightarrow> u64 option" where
  "raw_serviceable s snapshot_seq generation cursor =
     (case (generation, cursor) of
        (Some g, Some c) \<Rightarrow>
          if g = ss_generation s
             \<and> (case snapshot_seq of None \<Rightarrow> True | Some at \<Rightarrow> at \<le> c)
             \<and> (case ss_raw_seq s of None \<Rightarrow> False | Some m \<Rightarrow> c \<le> m)
          then Some c else None
      | _ \<Rightarrow> None)"

definition attach_raw :: "bytes \<Rightarrow> bytes option \<Rightarrow> u64 option \<Rightarrow> pty_hub \<Rightarrow> kernel_error_code + raw_attached" where
  "attach_raw i generation cursor h =
     and_then (known i h) (\<lambda>s.
     and_then (ok_or Code_Overloaded (ss_raw_snapshot s)) (\<lambda>snap.
     let (cols, rows) = session_size s;
         (answer, delivered, replay) =
           (case raw_serviceable s (raw_delivery_seq snap) generation cursor of
              Some c \<Rightarrow> (Some c, Some c,
                filter (\<lambda>d. case raw_delivery_seq d of None \<Rightarrow> False | Some n \<Rightarrow> c < n) (ss_raw_retained s))
            | None \<Rightarrow> (ss_raw_seq s, None, snap # ss_raw_retained s)) in
     Inr \<lparr>ra_generation = ss_generation s, ra_rows = rows, ra_cols = cols, ra_cursor = answer,
          ra_delivered = delivered, ra_replay = replay, ra_live = length (hb_raw_live h (ss_generation s))\<rparr>))"

definition hub_snapshot :: "pty_env \<Rightarrow> bytes \<Rightarrow> pty_hub \<Rightarrow> kernel_error_code + bytes \<times> u64 \<times> pty_frame" where
  "hub_snapshot env i h =
     and_then (known i h) (\<lambda>s.
     and_then (ok_or Code_NotFound (ss_seq s)) (\<lambda>seq.
     let f = from_cells (ss_cells s) (ss_cursor s) in
     and_then (ok_or Code_Storage (pe_frame_len env f)) (\<lambda>bytes.
     and_then (guard_that (bytes \<le> PUBLISH_BYTE_BUDGET) Code_Overloaded) (\<lambda>_.
       Inr (ss_generation s, seq, f)))))"

end
