(* ===== verification/Gw_Lens.thy ===== *)
theory Gw_Lens
  imports Gw_Pty
begin

text \<open>
  The client's view of one hosted session (\<open>gwk-tui/src/drilldown.rs\<close>): what each value the kernel sends
  does to the copy of the screen it paints. Counters saturate at the size of a \<open>usize\<close>.
\<close>

section \<open>What arrives\<close>

text \<open>The values of \<open>ServerControl\<close> the lens looks at.\<close>

datatype pty_control =
    Pty_Attached bytes bytes bytes u16 u16 "u64 option"
  | Pty_Snapshot bytes bytes bytes u64 pty_frame
  | Pty_Error bytes kernel_error_code
  | Pty_DeltaBatch bytes bytes bytes "pty_delta list" u64
  | Pty_StreamClosed bytes bytes kernel_error_code "u64 option"
  | Other_Control

datatype ingest_disposition = Applied | Counted | Unrelated

section \<open>The lens\<close>

definition MIRROR_CELL_LIMIT :: nat where "MIRROR_CELL_LIMIT = 16800"

definition USIZE_MAX :: nat where "USIZE_MAX = 2 ^ 64 - 1"

definition count_up :: "nat \<Rightarrow> nat \<Rightarrow> nat" where
  "count_up n old = min USIZE_MAX (old + n)"

record wire_diagnostics =
  wd_foreign_references :: nat
  wd_invalid_frames :: nat
  wd_invalid_updates :: nat
  wd_stale_batches :: nat
  wd_unseeded_updates :: nat

datatype stream_status =
    Status_Waiting
  | Status_Snapshot
  | Status_Live
  | Status_Disconnected
  | Status_Closed kernel_error_code "u64 option"

record lens =
  le_session :: bytes
  le_attach :: "bytes option"
  le_generation :: "bytes option"
  le_cells :: "grid option"
  le_frame_seq :: "u64 option"
  le_last_seq :: "u64 option"
  le_expected_size :: "(u16 \<times> u16) option"
  le_viewport_row :: u16
  le_viewport_col :: u16
  le_diagnostics :: wire_diagnostics
  le_status :: stream_status

definition lens_new :: "bytes \<Rightarrow> lens" where
  "lens_new i = \<lparr>le_session = i, le_attach = None, le_generation = None, le_cells = None, le_frame_seq = None,
     le_last_seq = None, le_expected_size = None, le_viewport_row = 0, le_viewport_col = 0,
     le_diagnostics = \<lparr>wd_foreign_references = 0, wd_invalid_frames = 0, wd_invalid_updates = 0,
       wd_stale_batches = 0, wd_unseeded_updates = 0\<rparr>,
     le_status = Status_Waiting\<rparr>"

definition begin_attach :: "bytes \<Rightarrow> lens \<Rightarrow> lens" where
  "begin_attach rid l = l\<lparr>le_attach := Some rid, le_status := Status_Waiting\<rparr>"

definition transport_closed :: "lens \<Rightarrow> lens" where
  "transport_closed l = l\<lparr>le_attach := None, le_status := Status_Disconnected\<rparr>"

definition refuse_attach :: "kernel_error_code \<Rightarrow> lens \<Rightarrow> lens" where
  "refuse_attach why l = l\<lparr>le_attach := None, le_status := Status_Closed why (le_last_seq l)\<rparr>"

definition set_viewport :: "u16 \<Rightarrow> u16 \<Rightarrow> lens \<Rightarrow> lens" where
  "set_viewport row col l =
     (let (cols, rows) = (case le_expected_size l of None \<Rightarrow> (0, 0) | Some dims \<Rightarrow> dims)
      in l\<lparr>le_viewport_row := min row (saturating_sub rows 1), le_viewport_col := min col (saturating_sub cols 1)\<rparr>)"

definition clamp_viewport :: "lens \<Rightarrow> lens" where
  "clamp_viewport l = set_viewport (le_viewport_row l) (le_viewport_col l) l"

definition count_foreign :: "lens \<Rightarrow> ingest_disposition \<times> lens" where
  "count_foreign l = (Counted, l\<lparr>le_diagnostics := (le_diagnostics l)
     \<lparr>wd_foreign_references := count_up 1 (wd_foreign_references (le_diagnostics l))\<rparr>\<rparr>)"

definition count_stale :: "lens \<Rightarrow> ingest_disposition \<times> lens" where
  "count_stale l = (Counted, l\<lparr>le_diagnostics := (le_diagnostics l)
     \<lparr>wd_stale_batches := count_up 1 (wd_stale_batches (le_diagnostics l))\<rparr>\<rparr>)"

definition count_invalid_frame :: "lens \<Rightarrow> ingest_disposition \<times> lens" where
  "count_invalid_frame l = (Counted, l\<lparr>le_diagnostics := (le_diagnostics l)
     \<lparr>wd_invalid_frames := count_up 1 (wd_invalid_frames (le_diagnostics l))\<rparr>\<rparr>)"

definition count_invalid_update :: "lens \<Rightarrow> lens" where
  "count_invalid_update l = l\<lparr>le_diagnostics := (le_diagnostics l)
     \<lparr>wd_invalid_updates := count_up 1 (wd_invalid_updates (le_diagnostics l))\<rparr>\<rparr>"

definition count_unseeded :: "nat \<Rightarrow> lens \<Rightarrow> lens" where
  "count_unseeded n l = l\<lparr>le_diagnostics := (le_diagnostics l)
     \<lparr>wd_unseeded_updates := count_up n (wd_unseeded_updates (le_diagnostics l))\<rparr>\<rparr>"

definition switch_generation :: "bytes \<Rightarrow> lens \<Rightarrow> bool \<times> lens" where
  "switch_generation generation l =
     (if le_generation l = Some generation then (False, l)
      else (True, l\<lparr>le_generation := Some generation, le_cells := None, le_frame_seq := None, le_last_seq := None\<rparr>))"

section \<open>An attach answer\<close>

definition ingest_attached ::
  "bytes \<Rightarrow> bytes \<Rightarrow> bytes \<Rightarrow> u16 \<Rightarrow> u16 \<Rightarrow> u64 option \<Rightarrow> lens \<Rightarrow> ingest_disposition \<times> lens" where
  "ingest_attached rid i generation rows cols cursor l =
     (if i \<noteq> le_session l \<or> (le_attach l \<noteq> None \<and> le_attach l \<noteq> Some rid) then count_foreign l
      else
        let (changed, l1) = switch_generation generation (l\<lparr>le_attach := Some rid\<rparr>);
            l2 = l1\<lparr>le_expected_size := Some (cols, rows)\<rparr>;
            ahead = (case cursor of None \<Rightarrow> False
                     | Some c \<Rightarrow> (case le_frame_seq l2 of None \<Rightarrow> True | Some n \<Rightarrow> n < c));
            l3 = (if \<not> changed \<and> ahead then l2\<lparr>le_cells := None, le_frame_seq := None\<rparr> else l2);
            seen_to = (if changed then cursor
                    else (case (le_last_seq l3, cursor) of
                            (Some m, Some c) \<Rightarrow> Some (max m c)
                          | (None, c) \<Rightarrow> c
                          | (m, None) \<Rightarrow> m))
        in (Applied, clamp_viewport (l3\<lparr>le_last_seq := seen_to, le_status := Status_Live\<rparr>)))"

section \<open>A snapshot\<close>

definition apply_lens_snapshot :: "bytes \<Rightarrow> bytes \<Rightarrow> u64 \<Rightarrow> pty_frame \<Rightarrow> lens \<Rightarrow> ingest_disposition \<times> lens" where
  "apply_lens_snapshot i generation seq f l =
     (if i \<noteq> le_session l then count_foreign l
      else if MIRROR_CELL_LIMIT < sum_list (map row_width (pf_rows f)) then count_invalid_frame l
      else (case frame_cells f of
              None \<Rightarrow> count_invalid_frame l
            | Some cells \<Rightarrow>
                if le_generation l \<noteq> None \<and> le_generation l \<noteq> Some generation then count_foreign l
                else if (case le_last_seq l of None \<Rightarrow> False | Some m \<Rightarrow> seq < m) then count_stale l
                else
                  let l1 = snd (switch_generation generation l);
                      dims = (case cells of [] \<Rightarrow> 0 | row # _ \<Rightarrow> of_nat (length row), of_nat (length cells));
                      l2 = l1\<lparr>le_cells := Some cells, le_frame_seq := Some seq, le_last_seq := Some seq,
                             le_expected_size := Some dims\<rparr>;
                      l3 = (if le_status l2 = Status_Waiting then l2\<lparr>le_status := Status_Snapshot\<rparr> else l2)
                  in (Applied, clamp_viewport l3)))"

section \<open>A batch\<close>

text \<open>One update: the cell by its place and the style through the batch's own table; either may be missing.\<close>

definition lens_update :: "cell_style list \<Rightarrow> grid \<Rightarrow> pty_cell_update \<Rightarrow> grid option" where
  "lens_update styles cells u =
     (if unat (up_row u) < length cells \<and> unat (up_col u) < length (cells ! unat (up_row u))
         \<and> unat (up_style u) < length styles
      then Some (set_cell styles cells u) else None)"

fun lens_updates :: "cell_style list \<Rightarrow> pty_cell_update list \<Rightarrow> grid \<Rightarrow> bool \<times> lens \<Rightarrow> grid \<times> bool \<times> lens" where
  "lens_updates styles [] cells (ok, l) = (cells, ok, l)"
| "lens_updates styles (u # us) cells (ok, l) =
     (case lens_update styles cells u of
        Some cells1 \<Rightarrow> lens_updates styles us cells1 (ok, l)
      | None \<Rightarrow> lens_updates styles us cells (False, count_invalid_update l))"

fun lens_delta :: "pty_delta \<Rightarrow> bool \<times> lens \<Rightarrow> bool \<times> lens" where
  "lens_delta (Resized rows cols) (ok, l) =
     (if MIRROR_CELL_LIMIT < unat rows * unat cols then (False, count_invalid_update l)
      else (ok, clamp_viewport (l\<lparr>le_cells := None, le_frame_seq := None, le_expected_size := Some (cols, rows)\<rparr>)))"
| "lens_delta (CellsChanged styles updates) (ok, l) =
     (case le_cells l of
        None \<Rightarrow> (ok, count_unseeded (length updates) l)
      | Some cells \<Rightarrow>
          let (cells1, ok1, l1) = lens_updates styles updates cells (ok, l) in (ok1, l1\<lparr>le_cells := Some cells1\<rparr>))"

definition apply_lens_batch ::
  "bytes \<Rightarrow> bytes \<Rightarrow> bytes \<Rightarrow> pty_delta list \<Rightarrow> u64 \<Rightarrow> lens \<Rightarrow> ingest_disposition \<times> lens" where
  "apply_lens_batch rid i generation ds seq l =
     (if i \<noteq> le_session l \<or> le_attach l \<noteq> Some rid \<or> le_generation l \<noteq> Some generation then count_foreign l
      else if (case le_last_seq l of None \<Rightarrow> False | Some m \<Rightarrow> seq \<le> m) then count_stale l
      else
        let (ok, l1) = fold lens_delta ds (True, l);
            l2 = (if ok then (if le_cells l1 \<noteq> None then l1\<lparr>le_last_seq := Some seq, le_frame_seq := Some seq\<rparr>
                              else l1\<lparr>le_last_seq := Some seq\<rparr>)
                  else l1\<lparr>le_cells := None, le_frame_seq := None\<rparr>)
        in (if le_diagnostics l2 = le_diagnostics l then Applied else Counted, l2))"

section \<open>One value from the wire\<close>

fun ingest :: "pty_control \<Rightarrow> lens \<Rightarrow> ingest_disposition \<times> lens" where
  "ingest (Pty_Attached rid i generation rows cols cursor) l = ingest_attached rid i generation rows cols cursor l"
| "ingest (Pty_Snapshot rid i generation seq f) l = apply_lens_snapshot i generation seq f l"
| "ingest (Pty_Error rid why) l =
     (if le_attach l = Some rid then (Applied, l\<lparr>le_attach := None, le_status := Status_Closed why (le_last_seq l)\<rparr>)
      else (Unrelated, l))"
| "ingest (Pty_DeltaBatch rid i generation ds seq) l = apply_lens_batch rid i generation ds seq l"
| "ingest (Pty_StreamClosed rid generation why last_seq) l =
     (if le_attach l \<noteq> Some rid \<or> le_generation l \<noteq> Some generation then count_foreign l
      else (Applied, l\<lparr>le_attach := None, le_status := Status_Closed why last_seq\<rparr>))"
| "ingest Other_Control l = (Unrelated, l)"

section \<open>Following a session\<close>

text \<open>What a batch leaves alone in the lens.\<close>

definition same_stream :: "lens \<Rightarrow> lens \<Rightarrow> bool" where
  "same_stream l l' \<longleftrightarrow> le_session l' = le_session l \<and> le_attach l' = le_attach l \<and> le_generation l' = le_generation l
     \<and> le_last_seq l' = le_last_seq l"

lemma same_stream_refl [simp]: "same_stream l l"
  by (simp add: same_stream_def)

lemma same_stream_trans: "same_stream l l1 \<Longrightarrow> same_stream l1 l2 \<Longrightarrow> same_stream l l2"
  by (simp add: same_stream_def)

lemma set_viewport_simps [simp]:
  "le_cells (set_viewport r c l) = le_cells l" "le_frame_seq (set_viewport r c l) = le_frame_seq l"
  "le_session (set_viewport r c l) = le_session l" "le_attach (set_viewport r c l) = le_attach l"
  "le_generation (set_viewport r c l) = le_generation l" "le_last_seq (set_viewport r c l) = le_last_seq l"
  by (simp_all add: set_viewport_def split: prod.splits)

lemma lens_counters [simp]:
  "le_cells (count_unseeded n l) = le_cells l" "same_stream l (count_unseeded n l)"
  "same_stream l (count_invalid_update l)"
  by (simp_all add: count_unseeded_def count_invalid_update_def same_stream_def)

text \<open>A batch keeps the stream; a refused change refuses the batch; a void copy stays void until a snapshot.\<close>

lemma lens_updates_stream:
  "lens_updates styles us cells (ok, l) = (cells', ok', l') \<Longrightarrow> same_stream l l' \<and> (ok' \<longrightarrow> ok)"
proof (induction us arbitrary: cells ok l)
  case (Cons u us)
  show ?case
  proof (cases "lens_update styles cells u")
    case None
    with Cons.prems Cons.IH [of cells False "count_invalid_update l"] show ?thesis
      using same_stream_trans [OF lens_counters(3)] by simp
  next
    case (Some cells1)
    with Cons.prems Cons.IH [of cells1 ok l] show ?thesis by simp
  qed
qed simp

lemma lens_delta_stream: "lens_delta d (ok, l) = (ok', l') \<Longrightarrow> same_stream l l' \<and> (ok' \<longrightarrow> ok)"
  by (cases d) (auto simp: clamp_viewport_def same_stream_def count_unseeded_def count_invalid_update_def
    split: if_splits option.splits prod.splits dest!: lens_updates_stream)

lemma lens_deltas_stream: "fold lens_delta ds (ok, l) = (ok', l') \<Longrightarrow> same_stream l l' \<and> (ok' \<longrightarrow> ok)"
proof (induction ds arbitrary: ok l)
  case (Cons d ds)
  obtain ok1 l1 where d: "lens_delta d (ok, l) = (ok1, l1)" by fastforce
  with Cons.prems Cons.IH [of ok1 l1] lens_delta_stream [OF d] show ?case using same_stream_trans by auto
qed simp

lemma lens_void:
  "le_cells l = None \<Longrightarrow> le_cells (snd (fold lens_delta ds (ok, l))) = None"
proof (induction ds arbitrary: ok l)
  case (Cons d ds)
  obtain ok1 l1 where d: "lens_delta d (ok, l) = (ok1, l1)" by fastforce
  with Cons.prems have "le_cells l1 = None"
    by (cases d) (auto simp: clamp_viewport_def count_unseeded_def count_invalid_update_def split: if_splits)
  with Cons.IH [of l1 ok1] d show ?case by simp
qed simp

lemma set_cell_rectangular:
  assumes "rectangular rows cols cells" shows "rectangular rows cols (set_cell styles cells u)"
proof (cases "unat (up_row u) < length cells")
  case True
  then have "length (cells ! unat (up_row u)) = cols" using assms by (simp add: rectangular_def)
  then show ?thesis using assms by (auto simp: rectangular_def set_cell_def dest!: set_update_subset_insert [THEN subsetD])
next
  case False
  then show ?thesis using assms by (simp add: set_cell_def list_update_beyond)
qed

lemma lens_updates_valid:
  assumes "list_all (update_ok cols rows styles) us" and "rectangular (unat rows) (unat cols) cells"
  shows "lens_updates styles us cells (ok, l) = (foldl (set_cell styles) cells us, ok, l)
    \<and> rectangular (unat rows) (unat cols) (foldl (set_cell styles) cells us)"
  using assms
proof (induction us arbitrary: cells)
  case (Cons u us)
  then have u: "unat (up_row u) < length cells" "unat (up_style u) < length styles" "unat (up_col u) < unat cols"
    by (auto simp: update_ok_def rectangular_def word_less_nat_alt)
  moreover have "length (cells ! unat (up_row u)) = unat cols" using u(1) Cons.prems(2) by (simp add: rectangular_def)
  ultimately have "lens_update styles cells u = Some (set_cell styles cells u)" by (simp add: lens_update_def)
  with Cons.IH [OF _ set_cell_rectangular [OF Cons.prems(2)]] Cons.prems(1) show ?case by simp
qed simp

lemma replicate_rectangular [simp]: "rectangular r c (replicate r (replicate c x))"
  by (simp add: rectangular_def)

text \<open>The kernel's own application of a batch that passed its checks keeps the screen a rectangle.\<close>

lemma apply_deltas_rectangular:
  assumes "check_deltas env (cols, rows) ds = Inr ()" and "rectangular (unat rows) (unat cols) cells"
    and "pty_grid_dimensions_are_bounded cols rows" and "cursor_inside (unat rows) (unat cols) cursor"
  shows "\<exists>rows' cols'. rectangular (unat rows') (unat cols') (fst (apply_deltas ds (cells, cursor)))
    \<and> pty_grid_dimensions_are_bounded cols' rows' \<and> cursor_inside (unat rows') (unat cols') (snd (apply_deltas ds (cells, cursor)))"
  using assms
proof (induction ds arbitrary: cols rows cells cursor)
  case Nil
  then show ?case by (auto simp: apply_deltas_def)
next
  case (Cons d ds)
  show ?case
  proof (cases d)
    case (Resized r c)
    with Cons.prems(1) have "check_deltas env (c, r) ds = Inr ()" "pty_grid_dimensions_are_bounded c r"
      by (auto simp: result_simps bounded_grid_def)
    from Cons.IH [OF this(1) replicate_rectangular this(2), of None blank] show ?thesis
      by (simp add: Resized apply_deltas_def cursor_inside_def)
  next
    case (CellsChanged styles us)
    with Cons.prems(1) have "check_deltas env (cols, rows) ds = Inr ()" "list_all (update_ok cols rows styles) us"
      by (auto simp: result_simps)
    from Cons.IH [OF this(1) conjunct2 [OF lens_updates_valid [OF this(2) Cons.prems(2)]] Cons.prems(3,4)]
    show ?thesis by (simp add: CellsChanged apply_deltas_def)
  qed
qed

text \<open>
  \<open>moves_to ds cells after\<close>: a lens that holds \<open>cells\<close> and takes the whole batch holds \<open>after\<close> then, or is
  void. A lens that cannot take the whole batch voids itself.
\<close>

definition moves_to :: "pty_delta list \<Rightarrow> grid \<Rightarrow> grid \<Rightarrow> bool" where
  "moves_to ds cells after \<longleftrightarrow> (\<forall>l l'. le_cells l = Some cells \<longrightarrow> fold lens_delta ds (True, l) = (True, l') \<longrightarrow>
     le_cells l' \<in> {None, Some after})"

lemma lens_follows_kernel:
  assumes "check_deltas env (cols, rows) ds = Inr ()" and "rectangular (unat rows) (unat cols) cells"
  shows "moves_to ds cells (fst (apply_deltas ds (cells, cursor)))"
  using assms
proof (induction ds arbitrary: cells)
  case Nil
  then show ?case by (auto simp: moves_to_def apply_deltas_def)
next
  case (Cons d ds)
  show ?case
  proof (cases d)
    case (Resized r c)
    have "le_cells l' = None" if run: "fold lens_delta (d # ds) (True, l) = (True, l')" for l l'
    proof -
      obtain ok1 l1 where l1: "lens_delta d (True, l) = (ok1, l1)" by fastforce
      with run have rest: "fold lens_delta ds (ok1, l1) = (True, l')" by simp
      then have "ok1" using lens_deltas_stream by blast
      with l1 have "le_cells l1 = None" by (auto simp: Resized clamp_viewport_def split: if_splits)
      from lens_void [OF this, of ds ok1] rest show ?thesis by simp
    qed
    then show ?thesis unfolding moves_to_def by blast
  next
    case (CellsChanged styles us)
    with Cons.prems(1) have checks: "check_deltas env (cols, rows) ds = Inr ()" "list_all (update_ok cols rows styles) us"
      by (auto simp: result_simps)
    let ?after = "foldl (set_cell styles) cells us"
    have rect: "rectangular (unat rows) (unat cols) ?after" using lens_updates_valid [OF checks(2) Cons.prems(2)] by blast
    have step: "lens_delta d (True, l) = (True, l\<lparr>le_cells := Some ?after\<rparr>)" if "le_cells l = Some cells" for l
      using lens_updates_valid [OF checks(2) Cons.prems(2)] that by (simp add: CellsChanged)
    have more: "moves_to ds ?after (fst (apply_deltas ds (?after, cursor)))" by (rule Cons.IH [OF checks(1) rect])
    have "le_cells l' \<in> {None, Some (fst (apply_deltas (d # ds) (cells, cursor)))}"
      if "le_cells l = Some cells" and "fold lens_delta (d # ds) (True, l) = (True, l')" for l l'
      using more [unfolded moves_to_def, rule_format, of "l\<lparr>le_cells := Some ?after\<rparr>" l'] that step [OF that(1)]
      by (simp add: apply_deltas_def CellsChanged)
    then show ?thesis unfolding moves_to_def by blast
  qed
qed

lemma jump_voids: "moves_to [Resized rows cols] cells after"
  by (auto simp: moves_to_def clamp_viewport_def split: if_splits)

end
