(* ===== verification/Gw_Mirror.thy ===== *)
theory Gw_Mirror
  imports Gw_Lens
begin

text \<open>
  What the hub keeps of a session: its screen is a rectangle within bounds, its window is the end of what
  was broadcast in its life, and a batch takes the screen of the revision before it to the screen of its
  own. The screens a session had are the ghost set \<open>trace\<close>, by session, life and revision.
\<close>

section \<open>Screens and windows\<close>

definition screen_ok :: "pty_session \<Rightarrow> bool" where
  "screen_ok s \<longleftrightarrow> (\<exists>rows cols. rectangular (unat rows) (unat cols) (ss_cells s)
     \<and> pty_grid_dimensions_are_bounded cols rows \<and> cursor_inside (unat rows) (unat cols) (ss_cursor s))"

lemma session_size_rectangular:
  assumes "rectangular (unat rows) (unat cols) (ss_cells s)" and "pty_grid_dimensions_are_bounded cols rows"
  shows "session_size s = (cols, rows)"
  using assms bounded_unat [OF assms(2)]
  by (cases "ss_cells s") (auto simp: session_size_def rectangular_def)

definition window_ok :: "pty_batch list \<Rightarrow> pty_session \<Rightarrow> bool" where
  "window_ok L s \<longleftrightarrow>
     (\<exists>gone. L = gone @ map fst (ss_retained s) \<and> (\<forall>b \<in> set gone. \<exists>e. ss_evicted_through s = Some e \<and> ba_seq b \<le> e))
     \<and> sorted_wrt (<) (map ba_seq L) \<and> (L \<noteq> [] \<longrightarrow> ss_seq s = Some (ba_seq (last L)))
     \<and> ss_retained_bytes s = sum_list (map snd (ss_retained s)) \<and> length (ss_retained s) \<le> RETAINED_BATCHES
     \<and> ss_retained_bytes s \<le> RETAINED_BYTES"

lemma evict_ok:
  assumes "evict ret n gone = (kept, n', gone')" and "n = sum_list (map snd ret)"
  shows "\<exists>dropped. ret = dropped @ kept \<and> n' = sum_list (map snd kept) \<and> length kept \<le> RETAINED_BATCHES
    \<and> n' \<le> RETAINED_BYTES \<and> gone' = (if dropped = [] then gone else Some (ba_seq (fst (last dropped))))"
  using assms
proof (induction ret n gone rule: evict.induct)
  case (1 n gone)
  then show ?case by simp
next
  case (2 b k rest n gone)
  show ?case
  proof (cases "RETAINED_BATCHES < length ((b, k) # rest) \<or> RETAINED_BYTES < n")
    case True
    with 2 obtain dropped where d: "rest = dropped @ kept" "n' = sum_list (map snd kept)" "length kept \<le> RETAINED_BATCHES"
      "n' \<le> RETAINED_BYTES" "gone' = (if dropped = [] then Some (ba_seq b) else Some (ba_seq (fst (last dropped))))" by auto
    then show ?thesis by (intro exI [of _ "(b, k) # dropped"]) auto
  next
    case False
    then have out: "kept = (b, k) # rest" "n' = n" "gone' = gone" using "2.prems"(1) by (auto split: if_splits)
    with False "2.prems"(2) show ?thesis by (intro exI [of _ "[]"]) (auto simp: not_less)
  qed
qed

lemma sorted_wrt_last: "sorted_wrt (<) (xs :: 'a :: order list) \<Longrightarrow> x \<in> set xs \<Longrightarrow> x \<le> last xs"
  by (induction xs) (auto intro: less_imp_le)

lemma retain_window:
  assumes w: "window_ok L s" and head: "\<forall>b' \<in> set L. ba_seq b' < ba_seq b"
    and s1: "ss_retained s1 = ss_retained s" "ss_retained_bytes s1 = ss_retained_bytes s"
      "ss_evicted_through s1 = ss_evicted_through s" "ss_seq s1 = Some (ba_seq b)"
  shows "window_ok (L @ [b]) (retain b n s1)"
proof -
  obtain kept n' gone' where ev: "evict (ss_retained s @ [(b, n)]) (ss_retained_bytes s + n) (ss_evicted_through s) = (kept, n', gone')"
    by (metis prod_cases3)
  from w obtain gone where L: "L = gone @ map fst (ss_retained s)"
    and e: "\<forall>b' \<in> set gone. \<exists>e. ss_evicted_through s = Some e \<and> ba_seq b' \<le> e"
    and srt: "sorted_wrt (<) (map ba_seq L)" and sum: "ss_retained_bytes s = sum_list (map snd (ss_retained s))"
    unfolding window_ok_def by auto
  from evict_ok [OF ev] sum obtain dropped where d: "ss_retained s @ [(b, n)] = dropped @ kept"
    "n' = sum_list (map snd kept)" "length kept \<le> RETAINED_BATCHES" "n' \<le> RETAINED_BYTES"
    and g: "gone' = (if dropped = [] then ss_evicted_through s else Some (ba_seq (fst (last dropped))))" by auto
  have L1: "L @ [b] = (gone @ map fst dropped) @ map fst kept"
    using L d(1) by (metis append.assoc fst_conv list.simps(8,9) map_append)
  have srt1: "sorted_wrt (<) (map ba_seq (L @ [b]))" using srt head by (auto simp: sorted_wrt_append)
  have "\<exists>e. gone' = Some e \<and> ba_seq b' \<le> e" if "b' \<in> set (gone @ map fst dropped)" for b'
  proof (cases "dropped = []")
    case True
    with that e g show ?thesis by auto
  next
    case False
    have "sorted_wrt (<) (map ba_seq (gone @ map fst dropped))"
      using srt1 unfolding L1 map_append [of ba_seq _ "map fst kept"] sorted_wrt_append by blast
    from sorted_wrt_last [OF this, of "ba_seq b'"] that False
    have "ba_seq b' \<le> ba_seq (fst (last dropped))" by (auto simp: last_map last_append)
    with g False show ?thesis by simp
  qed
  moreover have "ss_retained (retain b n s1) = kept" "ss_retained_bytes (retain b n s1) = n'"
    "ss_evicted_through (retain b n s1) = gone'" "ss_seq (retain b n s1) = Some (ba_seq b)"
    by (simp_all add: retain_def s1 ev)
  moreover have "last (gone @ map fst dropped @ map fst kept) = b" using L1 by (metis append.assoc last_snoc)
  ultimately show ?thesis using L1 srt1 d(2-4) unfolding window_ok_def
    by (intro conjI exI [of _ "gone @ map fst dropped"]) simp_all
qed

section \<open>Lives\<close>

lemma generation_text_inj: "generation_text e k = generation_text e k' \<Longrightarrow> k = k'"
  using text_nat_nat_text by (metis generation_text_def same_append_eq unsigned_word_eqI)

definition minted :: "pty_hub \<Rightarrow> bytes \<Rightarrow> bool" where
  "minted h g \<longleftrightarrow> (\<exists>k. k \<le> hb_generations h \<and> g = generation_text (hb_writer_epoch h) k)"

lemma next_generation_fresh:
  assumes "next_generation h = Inr (g, h1)"
  shows "\<not> minted h g \<and> minted h1 g \<and> (\<forall>g'. minted h g' \<longrightarrow> minted h1 g')
    \<and> (\<exists>k. h1 = h\<lparr>hb_generations := k\<rparr>)"
proof -
  from assms obtain k where k: "checked_add (hb_generations h) 1 = Some k" "g = generation_text (hb_writer_epoch h) k"
    "h1 = h\<lparr>hb_generations := k\<rparr>" by (auto simp: next_generation_def result_simps)
  have "unat k = unat (hb_generations h) + 1" using checked_add_unat [OF k(1)] by simp
  then have less: "hb_generations h < k" by (simp add: word_less_nat_alt)
  then have "\<not> minted h g" using generation_text_inj unfolding minted_def k by fastforce
  moreover have "minted h1 g'" if "minted h g'" for g'
    using that less unfolding minted_def k by (auto intro: order_trans less_imp_le)
  moreover have "minted h1 g" unfolding minted_def k by auto
  ultimately show ?thesis using k(3) by blast
qed

section \<open>Batches and screens\<close>

type_synonym trace = "(bytes \<times> bytes \<times> u64 \<times> grid) set"

text \<open>A screen of the revision before a batch becomes the screen of the batch's revision.\<close>

definition steps_ok :: "trace \<Rightarrow> bytes \<Rightarrow> pty_batch list \<Rightarrow> bool" where
  "steps_ok tr g L \<longleftrightarrow>
     (\<forall>k i n c. k < length L \<longrightarrow> (i, g, n, c) \<in> tr \<longrightarrow> n < ba_seq (L ! k) \<longrightarrow> (\<forall>j < k. ba_seq (L ! j) \<le> n) \<longrightarrow>
        (\<exists>c'. moves_to (ba_deltas (L ! k)) c c' \<and> (i, g, ba_seq (L ! k), c') \<in> tr))"

definition entry_ok :: "pty_hub \<Rightarrow> bytes \<times> bytes \<times> u64 \<times> grid \<Rightarrow> bool" where
  "entry_ok h = (\<lambda>(i, g, n, c). minted h g \<and> (\<forall>j s. session_of j h = Some s \<longrightarrow> ss_generation s = g \<longrightarrow>
     j = i \<and> (\<exists>m. ss_seq s = Some m \<and> n \<le> m \<and> (n = m \<longrightarrow> c = ss_cells s) \<and> (n < m \<longrightarrow> hb_live h g \<noteq> []))))"

definition session_ok :: "trace \<Rightarrow> pty_hub \<Rightarrow> bytes \<Rightarrow> pty_session \<Rightarrow> bool" where
  "session_ok tr h i s \<longleftrightarrow> screen_ok s \<and> window_ok (hb_live h (ss_generation s)) s \<and> minted h (ss_generation s)
     \<and> (\<forall>m. ss_seq s = Some m \<longrightarrow> (i, ss_generation s, m, ss_cells s) \<in> tr)"

definition lives_distinct :: "pty_hub \<Rightarrow> bool" where
  "lives_distinct h \<longleftrightarrow> (\<forall>i j s s'. session_of i h = Some s \<longrightarrow> session_of j h = Some s' \<longrightarrow>
     ss_generation s = ss_generation s' \<longrightarrow> i = j)"

definition mirror_ok :: "trace \<Rightarrow> pty_hub \<Rightarrow> bool" where
  "mirror_ok tr h \<longleftrightarrow> distinct (map fst (hb_sessions h)) \<and> length (hb_sessions h) \<le> MAX_SESSIONS
     \<and> lives_distinct h \<and> (\<forall>i s. session_of i h = Some s \<longrightarrow> session_ok tr h i s)
     \<and> (\<forall>e \<in> tr. entry_ok h e)
     \<and> (\<forall>g. steps_ok tr g (hb_live h g) \<and> (hb_live h g \<noteq> [] \<longrightarrow> minted h g))"

lemma mirror_okD:
  assumes "mirror_ok tr h"
  shows "session_of i h = Some s \<Longrightarrow> session_ok tr h i s" and "e \<in> tr \<Longrightarrow> entry_ok h e"
    and "steps_ok tr g (hb_live h g)" and "hb_live h g \<noteq> [] \<Longrightarrow> minted h g"
    and "distinct (map fst (hb_sessions h))" and "length (hb_sessions h) \<le> MAX_SESSIONS"
    and "lives_distinct h"
  using assms unfolding mirror_ok_def by blast+

lemma mirror_okI:
  assumes "distinct (map fst (hb_sessions h))" and "length (hb_sessions h) \<le> MAX_SESSIONS" and "lives_distinct h"
    and "\<And>i s. session_of i h = Some s \<Longrightarrow> session_ok tr h i s" and "\<And>e. e \<in> tr \<Longrightarrow> entry_ok h e"
    and "\<And>g. steps_ok tr g (hb_live h g)" and "\<And>g. hb_live h g \<noteq> [] \<Longrightarrow> minted h g"
  shows "mirror_ok tr h"
  using assms unfolding mirror_ok_def by blast

lemma session_of_put [simp]: "session_of j (put_session i s h) = (if j = i then Some s else session_of j h)"
  by (simp add: session_of_def put_session_def update_conv)

lemma put_session_simps [simp]:
  "hb_live (put_session i s h) = hb_live h" "hb_generations (put_session i s h) = hb_generations h"
  "hb_writer_epoch (put_session i s h) = hb_writer_epoch h" "hb_raw_live (put_session i s h) = hb_raw_live h"
  by (simp_all add: put_session_def)

lemma hub_live_update [simp]:
  "session_of j (h\<lparr>hb_live := x\<rparr>) = session_of j h" "minted (h\<lparr>hb_live := x\<rparr>) g = minted h g"
  "session_of j (h\<lparr>hb_raw_live := y\<rparr>) = session_of j h" "minted (h\<lparr>hb_raw_live := y\<rparr>) g = minted h g"
  "session_of j (h\<lparr>hb_generations := k\<rparr>) = session_of j h"
  by (simp_all add: session_of_def minted_def)

lemma retain_simps [simp]:
  "ss_generation (retain b n s) = ss_generation s" "ss_seq (retain b n s) = ss_seq s" "ss_cells (retain b n s) = ss_cells s"
  "ss_cursor (retain b n s) = ss_cursor s" "screen_ok (retain b n s) = screen_ok s"
  by (simp_all add: retain_def screen_ok_def split: prod.splits)

lemma minted_put [simp]: "minted (put_session i s h) g = minted h g"
  by (simp add: minted_def)

lemma put_known:
  assumes "session_of i h = Some s" and "distinct (map fst (hb_sessions h))"
  shows "distinct (map fst (hb_sessions (put_session i s' h)))" "length (hb_sessions (put_session i s' h)) = length (hb_sessions h)"
proof -
  have "i \<in> fst ` set (hb_sessions h)" using assms(1) by (metis domI dom_map_of_conv_image_fst session_of_def)
  then have "map fst (AList.update i s' (hb_sessions h)) = map fst (hb_sessions h)" by (simp add: update_keys)
  then show "distinct (map fst (hb_sessions (put_session i s' h)))"
    "length (hb_sessions (put_session i s' h)) = length (hb_sessions h)"
    using assms(2) by (simp_all add: put_session_def) (metis length_map)
qed

text \<open>A change that keeps the revision and what it shows.\<close>

lemma mirror_keep:
  assumes ok: "mirror_ok tr h" and s: "session_of i h = Some s"
    and s': "ss_generation s' = ss_generation s" "ss_seq s' = ss_seq s" "ss_seq s \<noteq> None \<longrightarrow> ss_cells s' = ss_cells s"
      "screen_ok s'" "window_ok (hb_live h (ss_generation s)) s'"
  shows "mirror_ok tr (put_session i s' h)"
proof -
  let ?h = "put_session i s' h"
  have i: "session_ok tr h i s" by (rule mirror_okD(1) [OF ok s])
  have "session_ok tr ?h i s'" using i s' unfolding session_ok_def by auto
  moreover have "session_ok tr ?h j u" if "session_ok tr h j u" for j u using that unfolding session_ok_def by simp
  ultimately have sess: "session_ok tr ?h j u" if "session_of j ?h = Some u" for j u
    using that mirror_okD(1) [OF ok, of j u] by (auto split: if_splits)
  have "entry_ok ?h e" if "e \<in> tr" for e
    using mirror_okD(2) [OF ok that] s s'(1-3) unfolding entry_ok_def by (fastforce split: if_splits)
  moreover have "lives_distinct ?h" using mirror_okD(7) [OF ok] s s'(1) unfolding lives_distinct_def
    by (auto split: if_splits)
  moreover note sess put_known [OF s mirror_okD(5) [OF ok], of s'] mirror_okD(6) [OF ok] mirror_okD(3,4) [OF ok]
  ultimately show ?thesis unfolding mirror_ok_def put_session_simps minted_put by auto
qed

text \<open>A session moves to a later revision with one batch.\<close>

lemma window_below:
  assumes w: "window_ok L s" and head: "\<forall>m. ss_seq s = Some m \<longrightarrow> m < n" and b': "b' \<in> set L"
  shows "ba_seq b' < n"
proof -
  have "ss_seq s = Some (ba_seq (last L))" "sorted_wrt (<) (map ba_seq L)" "L \<noteq> []"
    using w b' by (auto simp: window_ok_def)
  with head sorted_wrt_last [of "map ba_seq L" "ba_seq b'"] b' show ?thesis
    by (auto simp: last_map intro: le_less_trans)
qed

lemma steps_append:
  assumes ok: "mirror_ok tr h" and s: "session_of i h = Some s" and g: "g = ss_generation s"
    and head: "\<forall>m. ss_seq s = Some m \<longrightarrow> m < ba_seq b"
    and moves: "moves_to (ba_deltas b) (ss_cells s) cells"
  shows "steps_ok (insert (i, g, ba_seq b, cells) tr) g (hb_live h g @ [b])"
proof -
  let ?L = "hb_live h g" and ?e = "(i, g, ba_seq b, cells)"
  note st = mirror_okD(3) [OF ok, of g]
  have w: "window_ok ?L s" using mirror_okD(1) [OF ok s] g by (simp add: session_ok_def)
  note below = window_below [OF w head]
  have "\<exists>c'. moves_to (ba_deltas ((?L @ [b]) ! k)) c c' \<and> (j, g, ba_seq ((?L @ [b]) ! k), c') \<in> insert ?e tr"
    if k: "k < length (?L @ [b])" and e: "(j, g, n, c) \<in> insert ?e tr" and n: "n < ba_seq ((?L @ [b]) ! k)"
      and before: "\<forall>k' < k. ba_seq ((?L @ [b]) ! k') \<le> n" for k j n c
  proof (cases "k < length ?L")
    case True
    then have b: "(?L @ [b]) ! k = ?L ! k" by (simp add: nth_append)
    then have "(j, g, n, c) \<in> tr" using e n below [of "?L ! k"] True by auto
    moreover have "\<forall>k' < k. ba_seq (?L ! k') \<le> n" using before True by (simp add: nth_append)
    ultimately have "\<exists>c'. moves_to (ba_deltas (?L ! k)) c c' \<and> (j, g, ba_seq (?L ! k), c') \<in> tr"
      using st True n unfolding b steps_ok_def by blast
    then show ?thesis unfolding b by blast
  next
    case False
    with k have kb: "k = length ?L" by simp
    then have b: "(?L @ [b]) ! k = b" by simp
    then have tr: "(j, g, n, c) \<in> tr" using e n by auto
    from mirror_okD(2) [OF ok tr] s g obtain m where j: "j = i" and m: "ss_seq s = Some m" "n \<le> m"
      "n = m \<longrightarrow> c = ss_cells s" "n < m \<longrightarrow> ?L \<noteq> []" unfolding entry_ok_def by blast
    have "n = m"
    proof (rule ccontr)
      assume "n \<noteq> m"
      with m have L: "n < m" "?L \<noteq> []" by auto
      then have "ba_seq (?L ! (length ?L - 1)) \<le> n" using before kb by (simp add: nth_append)
      with L m(1) w show False by (simp add: window_ok_def last_conv_nth)
    qed
    with m(3) moves show ?thesis unfolding b j by blast
  qed
  then show ?thesis unfolding steps_ok_def by blast
qed

lemma steps_other:
  assumes "steps_ok tr g L" and "g \<noteq> g'" shows "steps_ok (insert (i, g', n, c) tr) g L"
  using assms unfolding steps_ok_def by blast

lemma mirror_append:
  assumes ok: "mirror_ok tr h" and s: "session_of i h = Some s"
    and head: "\<forall>m. ss_seq s = Some m \<longrightarrow> m < ba_seq b"
    and s1: "ss_generation s1 = ss_generation s" "ss_seq s1 = Some (ba_seq b)" "ss_retained s1 = ss_retained s"
      "ss_retained_bytes s1 = ss_retained_bytes s" "ss_evicted_through s1 = ss_evicted_through s" "screen_ok s1"
    and moves: "moves_to (ba_deltas b) (ss_cells s) (ss_cells s1)"
  shows "mirror_ok (insert (i, ss_generation s, ba_seq b, ss_cells s1) tr) (publish_batch i b n s1 h)"
proof -
  let ?g = "ss_generation s" and ?h = "publish_batch i b n s1 h" and ?e = "(i, ss_generation s, ba_seq b, ss_cells s1)"
  let ?L = "hb_live h ?g" and ?s = "retain b n s1"
  have live: "hb_live ?h g = (if g = ?g then ?L @ [b] else hb_live h g)" for g
    by (simp add: publish_batch_def Let_def s1)
  have sess: "session_of j ?h = (if j = i then Some ?s else session_of j h)" for j
    by (simp add: publish_batch_def Let_def)
  have mint: "minted ?h g = minted h g" for g by (simp add: publish_batch_def Let_def)
  have list: "hb_sessions ?h = hb_sessions (put_session i ?s h)" by (simp add: publish_batch_def Let_def)
  note lives = mirror_okD(7) [OF ok, unfolded lives_distinct_def, rule_format]
  have other: "ss_generation u \<noteq> ?g" if "session_of j h = Some u" "j \<noteq> i" for j u using lives [OF that(1) s] that(2) by auto
  have old: "session_ok tr h i s" by (rule mirror_okD(1) [OF ok s])
  have w: "window_ok (?L @ [b]) ?s"
    using old window_below [OF _ head] by (intro retain_window [OF _ _ s1(3-5,2)]) (auto simp: session_ok_def)
  have "session_ok (insert ?e tr) ?h i ?s"
    using old w s1 by (simp add: session_ok_def live mint)
  moreover have "session_ok (insert ?e tr) ?h j u" if "session_of j h = Some u" "j \<noteq> i" for j u
    using mirror_okD(1) [OF ok that(1)] other [OF that] by (simp add: session_ok_def live mint)
  ultimately have A: "session_ok (insert ?e tr) ?h j u" if "session_of j ?h = Some u" for j u
    using that by (auto simp: sess split: if_splits)
  have "entry_ok ?h ?e" using old other s1 by (auto simp: entry_ok_def sess mint session_ok_def split: if_splits)
  moreover have "entry_ok ?h e" if "e \<in> tr" for e
  proof -
    obtain j g k c where e: "e = (j, g, k, c)" by (metis prod_cases4)
    have "minted h g" "\<And>l u. session_of l h = Some u \<Longrightarrow> ss_generation u = g \<Longrightarrow> l = j \<and> (\<exists>m. ss_seq u = Some m \<and> k \<le> m
        \<and> (k = m \<longrightarrow> c = ss_cells u) \<and> (k < m \<longrightarrow> hb_live h g \<noteq> []))"
      using mirror_okD(2) [OF ok that] by (auto simp: e entry_ok_def)
    note en = this
    have "i = j \<and> k < ba_seq b" if "g = ?g" using en(2) [OF s that [symmetric]] head by (auto intro: le_less_trans)
    with en other s1 show ?thesis by (auto simp: e entry_ok_def sess mint live split: if_splits)
  qed
  ultimately have B: "\<forall>e \<in> insert ?e tr. entry_ok ?h e" by blast
  have "steps_ok (insert ?e tr) g (hb_live ?h g)" for g
    using steps_append [OF ok s refl head moves] steps_other [OF mirror_okD(3) [OF ok]] by (simp add: live)
  moreover have "minted ?h g" if "hb_live ?h g \<noteq> []" for g
    using that mirror_okD(4) [OF ok, of g] old by (auto simp: live mint session_ok_def split: if_splits)
  moreover have "lives_distinct ?h" using lives s other s1 unfolding lives_distinct_def by (auto simp: sess split: if_splits)
  ultimately show ?thesis using A B put_known [OF s mirror_okD(5) [OF ok], of ?s] mirror_okD(6) [OF ok]
    by (intro mirror_okI) (auto simp only: list)
qed

text \<open>A session is claimed, and sessions end.\<close>

lemma mirror_claim:
  assumes ok: "mirror_ok tr h" and none: "session_of i h = None" and room: "length (hb_sessions h) < MAX_SESSIONS"
    and gen: "next_generation h = Inr (g, h1)"
    and s: "ss_generation s = g" "screen_ok s" "ss_retained s = []" "ss_retained_bytes s = 0"
  shows "mirror_ok (tr \<union> {(i, g, n, ss_cells s) |n. ss_seq s = Some n}) (put_session i s h1)"
proof -
  let ?new = "{(i, g, n, ss_cells s) |n. ss_seq s = Some n}" and ?h = "put_session i s h1"
  from next_generation_fresh [OF gen] obtain k where fresh: "\<not> minted h g" "minted h1 g" "\<And>g'. minted h g' \<Longrightarrow> minted h1 g'"
    and h1: "h1 = h\<lparr>hb_generations := k\<rparr>" by blast
  have sess: "session_of j h1 = session_of j h" for j by (simp add: h1)
  have live: "hb_live h1 = hb_live h" by (simp add: h1)
  have empty: "hb_live h g = []" using mirror_okD(4) [OF ok, of g] fresh(1) by blast
  have other: "ss_generation u \<noteq> g" if "session_of j h = Some u" for j u
    using mirror_okD(1) [OF ok that] fresh(1) by (auto simp: session_ok_def)
  have "session_ok (tr \<union> ?new) ?h i s"
    using s fresh(2) by (simp add: session_ok_def live empty window_ok_def)
  moreover have "session_ok (tr \<union> ?new) ?h j u" if "session_of j h = Some u" for j u
    using mirror_okD(1) [OF ok that] fresh(3) by (simp add: session_ok_def live)
  ultimately have A: "session_ok (tr \<union> ?new) ?h j u" if "session_of j ?h = Some u" for j u
    using that by (auto simp: sess split: if_splits)
  have "entry_ok ?h e" if "e \<in> tr" for e
  proof -
    obtain j g' n c where e: "e = (j, g', n, c)" by (metis prod_cases4)
    then have "minted h g'" using mirror_okD(2) [OF ok that] by (simp add: entry_ok_def)
    with fresh(1,3) have "g' \<noteq> g" "minted ?h g'" by auto
    with mirror_okD(2) [OF ok that] s(1) show ?thesis by (auto simp: e entry_ok_def sess live split: if_splits)
  qed
  moreover have "entry_ok ?h e" if "e \<in> ?new" for e
    using that other fresh(2) by (auto simp: entry_ok_def sess split: if_splits)
  ultimately have B: "entry_ok ?h e" if "e \<in> tr \<union> ?new" for e using that by blast
  have C: "steps_ok (tr \<union> ?new) g' (hb_live ?h g')" for g'
  proof (cases "g' = g")
    case True
    then show ?thesis by (simp add: live empty steps_ok_def)
  next
    case False
    then show ?thesis using mirror_okD(3) [OF ok, of g'] unfolding put_session_simps live steps_ok_def by blast
  qed
  have D: "minted ?h g'" if "hb_live ?h g' \<noteq> []" for g' using that mirror_okD(4) [OF ok] fresh(3) by (simp add: live)
  have E: "lives_distinct ?h"
    using mirror_okD(7) [OF ok] other s(1) unfolding lives_distinct_def session_of_put sess
    by (metis option.inject)
  have "i \<notin> fst ` set (hb_sessions h)" using none by (simp add: session_of_def map_of_eq_None_iff)
  then have keys: "map fst (hb_sessions ?h) = map fst (hb_sessions h) @ [i]" "i \<notin> set (map fst (hb_sessions h))"
    by (simp_all add: put_session_def h1 update_keys)
  then have "distinct (map fst (hb_sessions ?h))" using mirror_okD(5) [OF ok] by simp
  moreover have "length (hb_sessions ?h) \<le> MAX_SESSIONS" using arg_cong [OF keys(1), of length] room by simp
  ultimately show ?thesis using A B C D E by (intro mirror_okI) auto
qed

lemma mirror_remove:
  assumes ok: "mirror_ok tr h" and sub: "\<And>i s. session_of i (h\<lparr>hb_sessions := ss\<rparr>) = Some s \<Longrightarrow> session_of i h = Some s"
    and "distinct (map fst ss)" and "length ss \<le> length (hb_sessions h)"
  shows "mirror_ok tr (h\<lparr>hb_sessions := ss\<rparr>)"
proof (rule mirror_okI)
  let ?h = "h\<lparr>hb_sessions := ss\<rparr>"
  have mint: "minted ?h g = minted h g" for g by (simp add: minted_def)
  show "session_ok tr ?h i s" if "session_of i ?h = Some s" for i s
    using mirror_okD(1) [OF ok sub [OF that]] by (simp add: session_ok_def mint)
  have live: "hb_live ?h = hb_live h" by simp
  show "entry_ok ?h e" if "e \<in> tr" for e
    using mirror_okD(2) [OF ok that] sub unfolding entry_ok_def mint live split_beta by blast
  show "lives_distinct ?h" using mirror_okD(7) [OF ok] sub unfolding lives_distinct_def by blast
  show "steps_ok tr g (hb_live ?h g)" for g using mirror_okD(3) [OF ok] by simp
  show "minted ?h g" if "hb_live ?h g \<noteq> []" for g using mirror_okD(4) [OF ok] that by (simp add: mint)
qed (use assms mirror_okD(6) [OF ok] in auto)

lemma mirror_counters [simp]:
  "mirror_ok tr (h\<lparr>hb_raw_live := x\<rparr>) = mirror_ok tr h" "mirror_ok tr (h\<lparr>hb_connections := n\<rparr>) = mirror_ok tr h"
  by (simp_all add: mirror_ok_def lives_distinct_def session_ok_def entry_ok_def session_of_def minted_def)

section \<open>What hosts do\<close>

text \<open>
  The verbs of publishing connections, in any order. One thing is asked of a host: a screen it publishes
  again under the revision it already has is that revision's screen.
\<close>

definition keeps_screen :: "pty_hub \<Rightarrow> bytes \<Rightarrow> u64 option \<Rightarrow> grid \<Rightarrow> bool" where
  "keeps_screen h i seq cells \<longleftrightarrow>
     (\<forall>s. session_of i h = Some s \<longrightarrow> ss_seq s \<noteq> None \<longrightarrow> seq = ss_seq s \<longrightarrow> cells = ss_cells s)"

inductive host_step :: "pty_env \<Rightarrow> pty_hub \<Rightarrow> pty_hub \<Rightarrow> bool" for env where
  accepted: "host_step env h (snd (hub_connection h))"
| screen: "publish_snapshot env conn i seq f h = Inr (opened, h') \<Longrightarrow> strict_frame f = Inr (rows, cols, cells) \<Longrightarrow>
    keeps_screen h i seq cells \<Longrightarrow> host_step env h h'"
| changes: "publish_deltas env conn i seq ds h = Inr ((), h') \<Longrightarrow> host_step env h h'"
| raw_screen: "publish_raw_snapshot conn i seq rows cols raw h = Inr ((), h') \<Longrightarrow> host_step env h h'"
| raw_bytes: "publish_raw_output conn i seq raw h = Inr ((), h') \<Longrightarrow> host_step env h h'"
| raw_size: "publish_raw_resize conn i seq rows cols h = Inr ((), h') \<Longrightarrow> host_step env h h'"
| retired: "retire conn i h = Inr (g, h') \<Longrightarrow> host_step env h h'"
| hung_up: "host_step env h (snd (disconnect_sessions conn h))"

definition screens_of :: "pty_hub \<Rightarrow> trace" where
  "screens_of h = {(i, ss_generation s, n, ss_cells s) |i s n. session_of i h = Some s \<and> ss_seq s = Some n}"

lemma mirror_screens:
  assumes "mirror_ok tr1 h" and "tr \<subseteq> tr1" and "tr1 \<subseteq> tr \<union> screens_of h"
  shows "mirror_ok (tr \<union> screens_of h) h"
proof -
  have "screens_of h \<subseteq> tr1" using mirror_okD(1) [OF assms(1)] by (auto simp: screens_of_def session_ok_def)
  with assms have "tr1 = tr \<union> screens_of h" by blast
  with assms(1) show ?thesis by simp
qed

lemma publish_batch_simps:
  "session_of j (publish_batch i b n s h) = (if j = i then Some (retain b n s) else session_of j h)"
  "hb_live (publish_batch i b n s h) g = hb_live h g @ (if g = ss_generation s then [b] else [])"
  by (simp_all add: publish_batch_def Let_def)

lemma window_ok_cong:
  assumes "ss_retained s' = ss_retained s" and "ss_retained_bytes s' = ss_retained_bytes s"
    and "ss_evicted_through s' = ss_evicted_through s" and "ss_seq s' = ss_seq s"
  shows "window_ok L s' = window_ok L s"
  by (simp add: window_ok_def assms)

text \<open>What a published batch does to the hub.\<close>

lemma append_mirror:
  assumes "mirror_ok tr h" and s: "session_of i h = Some s" and "\<forall>m. ss_seq s = Some m \<longrightarrow> m < ba_seq b"
    and "ss_generation s1 = ss_generation s" and seq: "ss_seq s1 = Some (ba_seq b)"
    and "ss_retained s1 = ss_retained s" and "ss_retained_bytes s1 = ss_retained_bytes s"
    and "ss_evicted_through s1 = ss_evicted_through s" and "screen_ok s1" and "moves_to (ba_deltas b) (ss_cells s) (ss_cells s1)"
    and h': "h' = publish_batch i b n s1 h"
  shows "mirror_ok (tr \<union> screens_of h') h' \<and> (\<forall>g. prefix (hb_live h g) (hb_live h' g))"
proof
  have i: "session_of i h' = Some (retain b n s1)" by (simp add: h' publish_batch_simps)
  have "(i, ss_generation s, ba_seq b, ss_cells s1) \<in> screens_of h'"
    unfolding screens_of_def using i assms(4) seq by (auto intro!: exI [of _ "retain b n s1"])
  then show "mirror_ok (tr \<union> screens_of h') h'"
    by (intro mirror_screens [OF mirror_append [OF assms(1-10), of n, folded h']]) auto
  show "\<forall>g. prefix (hb_live h g) (hb_live h' g)" by (simp add: h' publish_batch_simps)
qed

lemma snapshot_advances_Some:
  "snapshot_advances m n = Some True \<Longrightarrow> \<exists>k. n = Some k \<and> (\<forall>j. m = Some j \<longrightarrow> j < k)"
  "snapshot_advances m n = Some False \<Longrightarrow> n = m"
  by (auto simp: snapshot_advances_def split: option.splits if_splits)

lemma publish_snapshot_mirror:
  assumes ok: "mirror_ok tr h" and run: "publish_snapshot env conn i seq f h = Inr (opened, h')"
    and f: "strict_frame f = Inr (rows, cols, cells)"
    and same: "keeps_screen h i seq cells"
  shows "mirror_ok (tr \<union> screens_of h') h' \<and> (\<forall>g. prefix (hb_live h g) (hb_live h' g))"
proof -
  note rect = strict_frame_rectangular [OF f]
  show ?thesis
  proof (cases "session_of i h")
    case None
    define s where "s g = \<lparr>ss_owner = conn, ss_generation = g, ss_seq = seq, ss_cells = cells, ss_cursor = pf_cursor f,
      ss_retained = [], ss_retained_bytes = 0, ss_evicted_through = seq, ss_raw_snapshot = None,
      ss_raw_seq = None, ss_raw_retained = [], ss_raw_retained_bytes = 0\<rparr>" for g
    from run None obtain g h1 where room: "length (hb_sessions h) < MAX_SESSIONS" and gen: "next_generation h = Inr (g, h1)"
      and h': "h' = put_session i (s g) h1" by (auto simp: publish_snapshot_def f result_simps s_def)
    have so: "ss_generation (s g) = g" "screen_ok (s g)" "ss_retained (s g) = []" "ss_retained_bytes (s g) = 0"
      using rect by (auto simp: s_def screen_ok_def)
    have "mirror_ok (tr \<union> screens_of h') h'"
      using mirror_claim [OF ok None room gen so] unfolding h'
      by (rule mirror_screens) (auto simp: screens_of_def so)
    moreover have "hb_live h' = hb_live h" using next_generation_fresh [OF gen] by (auto simp: h')
    ultimately show ?thesis by simp
  next
    case (Some s)
    define s1 where "s1 = s\<lparr>ss_cells := cells, ss_cursor := pf_cursor f, ss_seq := seq\<rparr>"
    from run Some obtain n where n: "measured (pe_frame_len env f) = Inr n"
      by (auto simp: publish_snapshot_def f result_simps)
    from run Some obtain moved where adv: "snapshot_advances (ss_seq s) seq = Some moved"
      by (auto simp: publish_snapshot_def f result_simps)
    have h': "h' = (if moved then publish_batch i \<lparr>ba_seq = the seq, ba_deltas = [Resized rows cols]\<rparr> n s1 h
            else put_session i s1 h)"
      using run Some n adv by (auto simp: publish_snapshot_def f result_simps Let_def s1_def)
    have sc: "screen_ok s1" using rect by (auto simp: s1_def screen_ok_def)
    show ?thesis
    proof (cases moved)
      case True
      with adv snapshot_advances_Some(1) [of "ss_seq s" seq]
      obtain k where k: "seq = Some k" "\<forall>m. ss_seq s = Some m \<longrightarrow> m < k" by auto
      have "h' = publish_batch i \<lparr>ba_seq = k, ba_deltas = [Resized rows cols]\<rparr> n s1 h" by (simp add: h' True k)
      from append_mirror [OF ok Some _ _ _ _ _ _ sc _ this] k jump_voids [of rows cols] show ?thesis
        by (simp add: s1_def)
    next
      case False
      with adv have seq: "seq = ss_seq s" using snapshot_advances_Some(2) [of "ss_seq s" seq] by simp
      with same Some have cells: "ss_seq s \<noteq> None \<longrightarrow> cells = ss_cells s" by (simp add: keeps_screen_def)
      have "window_ok (hb_live h (ss_generation s)) s1"
        using mirror_okD(1) [OF ok Some] window_ok_cong [of s1 s] by (simp add: session_ok_def s1_def seq)
      from mirror_keep [OF ok Some _ _ _ sc this] cells have "mirror_ok tr h'" by (simp add: h' False s1_def seq)
      then have "mirror_ok (tr \<union> screens_of h') h'" by (rule mirror_screens) auto
      then show ?thesis by (simp add: h' False)
    qed
  qed
qed

lemma publish_deltas_mirror:
  assumes ok: "mirror_ok tr h" and run: "publish_deltas env conn i seq ds h = Inr ((), h')"
  shows "mirror_ok (tr \<union> screens_of h') h' \<and> (\<forall>g. prefix (hb_live h g) (hb_live h' g))"
proof -
  from run obtain s where s: "session_of i h = Some s"
    by (auto simp: publish_deltas_def result_simps known_def)
  define s1 where "s1 = s\<lparr>ss_cells := fst (apply_deltas ds (ss_cells s, ss_cursor s)),
    ss_cursor := snd (apply_deltas ds (ss_cells s, ss_cursor s)), ss_seq := Some seq\<rparr>"
  have "\<exists>n. h' = publish_batch i \<lparr>ba_seq = seq, ba_deltas = ds\<rparr> n s1 h \<and> (\<forall>m. ss_seq s = Some m \<longrightarrow> m < seq)
    \<and> check_deltas env (session_size s) ds = Inr ()"
    using run s unfolding s1_def
    by (auto simp: publish_deltas_def result_simps known_def Let_def case_prod_unfold split: option.splits)
  then obtain n where n: "h' = publish_batch i \<lparr>ba_seq = seq, ba_deltas = ds\<rparr> n s1 h"
    and head: "\<forall>m. ss_seq s = Some m \<longrightarrow> m < seq" and chk: "check_deltas env (session_size s) ds = Inr ()" by blast
  from mirror_okD(1) [OF ok s] obtain rows cols where r: "rectangular (unat rows) (unat cols) (ss_cells s)"
    and b: "pty_grid_dimensions_are_bounded cols rows" and c: "cursor_inside (unat rows) (unat cols) (ss_cursor s)"
    by (auto simp: session_ok_def screen_ok_def)
  note chk' = chk [unfolded session_size_rectangular [OF r b]]
  have "screen_ok s1" using apply_deltas_rectangular [OF chk' r b c] by (simp add: screen_ok_def s1_def)
  from append_mirror [OF ok s _ _ _ _ _ _ this _ n] head lens_follows_kernel [OF chk' r]
  show ?thesis by (simp add: s1_def)
qed

text \<open>The raw verbs touch neither the screen nor its batches.\<close>

lemma raw_mirror:
  assumes ok: "mirror_ok tr h" and s: "session_of i h = Some s" and "ss_generation s1 = ss_generation s"
    and "ss_seq s1 = ss_seq s" and "ss_cells s1 = ss_cells s" and "ss_cursor s1 = ss_cursor s"
    and "ss_retained s1 = ss_retained s" and "ss_retained_bytes s1 = ss_retained_bytes s"
    and "ss_evicted_through s1 = ss_evicted_through s"
  shows "mirror_ok tr (put_session i s1 h)"
proof (rule mirror_keep [OF ok s])
  have "session_ok tr h i s" by (rule mirror_okD(1) [OF ok s])
  then show "screen_ok s1" "window_ok (hb_live h (ss_generation s)) s1"
    using assms window_ok_cong [of s1 s] by (simp_all add: session_ok_def screen_ok_def)
qed (use assms in simp_all)

lemma raw_verbs_mirror:
  assumes "mirror_ok tr h"
  shows "publish_raw_snapshot conn i seq rows cols raw h = Inr ((), h') \<Longrightarrow> mirror_ok tr h' \<and> hb_live h' = hb_live h"
    and "publish_raw conn i delivery h = Inr ((), h') \<Longrightarrow> mirror_ok tr h' \<and> hb_live h' = hb_live h"
proof -
  assume "publish_raw_snapshot conn i seq rows cols raw h = Inr ((), h')"
  then obtain s where s: "session_of i h = Some s" and h': "h' = put_session i (s\<lparr>ss_raw_snapshot := Some (Raw_Snapshot seq rows cols raw),
    ss_raw_seq := seq, ss_raw_retained := [], ss_raw_retained_bytes := 0\<rparr>) h"
    by (auto simp: publish_raw_snapshot_def known_def result_simps)
  show "mirror_ok tr h' \<and> hb_live h' = hb_live h" unfolding h' by (simp add: raw_mirror [OF assms s])
next
  assume "publish_raw conn i delivery h = Inr ((), h')"
  then obtain s k n ds live where s: "session_of i h = Some s"
    and h': "h' = (put_session i (s\<lparr>ss_raw_seq := k, ss_raw_retained_bytes := n, ss_raw_retained := ds\<rparr>) h)\<lparr>hb_raw_live := live\<rparr>"
    by (auto simp: publish_raw_def known_def result_simps Let_def)
  show "mirror_ok tr h' \<and> hb_live h' = hb_live h" unfolding h' by (simp add: raw_mirror [OF assms s])
qed

lemma hosts_leave_mirror:
  assumes "mirror_ok tr h"
  shows "retire conn i h = Inr (g, h') \<Longrightarrow> mirror_ok tr h'" and "mirror_ok tr (snd (disconnect_sessions conn h))"
proof -
  note keys = mirror_okD(5) [OF assms]
  have "mirror_ok tr (h\<lparr>hb_sessions := AList.delete i (hb_sessions h)\<rparr>)"
    by (rule mirror_remove [OF assms])
      (auto simp: session_of_def delete_conv' keys distinct_delete length_delete_le split: if_splits)
  then show "retire conn i h = Inr (g, h') \<Longrightarrow> mirror_ok tr h'" by (auto simp: retire_def result_simps known_def)
  show "mirror_ok tr (snd (disconnect_sessions conn h))"
    unfolding disconnect_sessions_def snd_conv
    by (rule mirror_remove [OF assms])
      (use keys in \<open>auto simp: session_of_def distinct_map_filter map_of_eq_Some_iff\<close>)
qed

theorem host_step_mirror:
  assumes "host_step env h h'" and "mirror_ok tr h"
  shows "mirror_ok (tr \<union> screens_of h') h' \<and> (\<forall>g. prefix (hb_live h g) (hb_live h' g))"
  using assms
proof cases
  case accepted
  then have "mirror_ok tr h'" "hb_live h' = hb_live h" using assms(2) by (simp_all add: hub_connection_def)
  then show ?thesis using mirror_screens [of tr h' tr] by simp
next
  case screen
  then show ?thesis by (rule publish_snapshot_mirror [OF assms(2)])
next
  case changes
  then show ?thesis by (rule publish_deltas_mirror [OF assms(2)])
next
  case raw_screen
  then show ?thesis using raw_verbs_mirror(1) [OF assms(2)] mirror_screens [of tr h' tr] by fastforce
next
  case raw_bytes
  then show ?thesis using raw_verbs_mirror(2) [OF assms(2)] mirror_screens [of tr h' tr]
    by (fastforce simp: publish_raw_output_def result_simps)
next
  case raw_size
  then show ?thesis using raw_verbs_mirror(2) [OF assms(2)] mirror_screens [of tr h' tr]
    by (fastforce simp: publish_raw_resize_def)
next
  case (retired conn i g)
  then have "hb_live h' = hb_live h" by (auto simp: retire_def result_simps)
  then show ?thesis using hosts_leave_mirror(1) [OF assms(2) retired] mirror_screens [of tr h' tr] by simp
next
  case (hung_up conn)
  have "hb_live h' = hb_live h" by (simp add: hung_up disconnect_sessions_def)
  then show ?thesis using hosts_leave_mirror(2) [OF assms(2), of conn] mirror_screens [of tr h' tr] hung_up by simp
qed

end
