(* ===== verification/Spec2Isabelle.thy ===== *)
theory Spec2Isabelle
  imports Gw_Cert Gw_Safety Gw_Blob_Safety Gw_Restart_Safety Gw_Wire_Safety Gw_Mirror
begin

text \<open>
  A verification development of GridWork's durable kernel.

  \<^bold>\<open>The program.\<close> GridWork keeps the state of a fleet of coding agents in one append-only log of events
  in PostgreSQL. A client sends commands over a local socket. The kernel (\<open>src/crates/gwk-kernel\<close>) takes
  each command under the lock of a single writer row, checks it, decides one event, appends it, projects
  it into tables and commits. The contract crate (\<open>src/crates/gwk-domain\<close>) holds the types, the four
  state machines and the transition algorithm; \<open>src/schema/0001_contract.sql\<close> and the migrations hold the
  tables with the constraints and triggers that check the kernel's work once more. Payloads that are too
  large for the log are blobs: encrypted containers in files with rows beside them. At start the kernel
  compares its projections with a checkpoint or replays the log. A connection carries length-prefixed
  frames and, besides answers, live subscriptions to the log. A separate checker
  (\<open>src/crates/gwk-cert\<close>) certifies an exported stream.

  \<^bold>\<open>Contract.\<close> \<open>Gw_Prelude\<close> has the machine integers as words of their width, results as sums with
  \<open>and_then\<close> for the \<open>?\<close> operator, byte strings and the shared list lemmas. \<open>Gw_Ids\<close> models
  \<open>gwk-domain/src/ids.rs\<close> and \<open>gwk-kernel/src/numeric.rs\<close>; \<open>Gw_Fsm\<close> the machines of \<open>fsm.rs\<close>;
  \<open>Gw_Envelope\<close> the records of \<open>envelope.rs\<close>; \<open>Gw_Transition\<close> the algorithm of \<open>transition.rs\<close>;
  \<open>Gw_Command\<close> the commands of \<open>command.rs\<close> and the error codes of \<open>protocol.rs\<close>. Shown: the wire text of
  a counter is exact, every live state can reach its escapes, and a history of transitions is a run of
  its machine whose flips have a liveness producer.

  \<^bold>\<open>Event store.\<close> \<open>Gw_Store\<close> models \<open>append\<close>, \<open>read_from\<close>, the fence and the epoch of
  \<open>gwk-kernel/src/store.rs\<close> and the reference store of \<open>gwk-cert/src/conformance.rs\<close>. The port
  \<open>EventStore\<close> is the locale \<open>event_store\<close>, extended by \<open>fenced_store\<close>; both stores interpret it. Shown:
  the log is ordered with gapless versions, a keyed batch lands once, a deposed writer changes nothing,
  and the paged replay reads every event.

  \<^bold>\<open>Command path.\<close> \<open>Gw_Schema\<close> has the tables, checks and triggers as records and predicates;
  \<open>Gw_Project\<close> has one definition per arm of \<open>apply_event\<close> in \<open>project.rs\<close>; \<open>Gw_Epoch\<close>, \<open>Gw_Authority\<close>
  and \<open>Gw_Route\<close> model \<open>epoch.rs\<close>, \<open>authority.rs\<close> and the checks of \<open>submit.rs\<close> that read no row;
  \<open>Gw_Submit\<close> models \<open>try_submit\<close> with one definition per decider. A transaction is a function from the
  database to a result and a database. \<open>Gw_Kernel\<close> says what a submission may do, and \<open>Gw_Reach\<close> defines
  the reachable states: processes boot, write genesis, grant fences and submit, each step in surroundings
  of its own, in any order. An invariant is an interpretation of \<open>kernel_law\<close>, a relation between the ends
  of a run one of \<open>kernel_progress\<close>, and one on the projector's statements of \<open>projection_law\<close> (\<open>Gw_Rows\<close>).
  \<open>Gw_Rows\<close>, \<open>Gw_Life\<close> and \<open>Gw_Tree\<close> interpret them for versions, state machines and the workspace tree;
  \<open>Gw_Demo\<close> evaluates a concrete kernel; \<open>Gw_Safety\<close> states the properties: exactly once, authority before
  effect, row versions equal log versions, legal moves only, nothing lost, nothing before activation, one
  owner per aggregate, a forest of workspace nodes.

  \<^bold>\<open>Certification.\<close> \<open>Gw_Cert\<close> models the pass of \<open>gwk-cert/src/check.rs\<close> and shows what a stream
  without findings satisfies.

  \<^bold>\<open>Blobs.\<close> \<open>Gw_Container\<close> models \<open>blob/container.rs\<close> over a cipher suite given as a record of functions
  with its documented laws (\<open>suite_ok\<close>); \<open>Gw_Blob\<close> models every operation of \<open>blob/store.rs\<close> over rows and
  files, with a failure possible at every call. \<open>Gw_Range\<close>, \<open>Gw_Retain\<close>, \<open>Gw_Blob_Run\<close> and \<open>Gw_Rotate\<close>
  hold the lemmas on ranged reads, retention, runs (the locale \<open>blob_reader\<close>) and key rotation;
  \<open>Gw_Blob_Demo\<close> instantiates the suite; \<open>Gw_Blob_Safety\<close> states the properties, among them the interleaving
  of two commits that loses a blob.

  \<^bold>\<open>Restart.\<close> \<open>Gw_Canon\<close> models the projection registry and the canonical bytes of a record,
  \<open>Gw_Checkpoint\<close> the snapshot of \<open>checkpoint.rs\<close> and the verdict of \<open>recover.rs\<close>, \<open>Gw_Recover\<close> the
  replay. \<open>Gw_Restart\<close> has the lemmas and \<open>Gw_Restart_Safety\<close> the properties: the log rebuilds the
  projections, recovery returns, agreement means agreement, and two logs that a kernel can write and cannot
  replay.

  \<^bold>\<open>Wire.\<close> \<open>Gw_Frame\<close> models the codec and the allowance of \<open>wire/frame.rs\<close> over a clock given as two
  functions; \<open>Gw_Subscribe\<close> models \<open>wire/subscribe.rs\<close> and the parts of \<open>wire/serve.rs\<close> it meets as a step
  relation on a connection, over the locale \<open>event_feed\<close>, which the PostgreSQL store interprets.
  \<open>Gw_Wire_Safety\<close> states the properties: bytes per window, frames arrive as sent, subscriptions resume
  without a gap.

  \<^bold>\<open>Parameters.\<close> Code outside the repository is an argument: whether a statement fails, clocks and random
  bytes, the JSON codec of a command (\<open>ke_encode\<close>, \<open>ke_decode\<close>), the digest, the cipher suite, the length of
  an event's JSON text. A property that relies on a law of one names it as a hypothesis, and its witness
  instantiates it.

  \<^bold>\<open>Fuel.\<close> \<open>drain\<close> and \<open>replay_loop\<close> take the number of pages; one more than the log has events is
  enough, as every page but the last has an event. The ancestor query takes a round per row, since a round that
  adds nothing is the last. \<open>spend_loop\<close> takes two turns: after one sleep the window is due, and a refilled
  window holds any frame that is not refused before. \<open>receive_all\<close> takes one turn more than there are frames.
  Each bound is proved where the loop is used.

  \<^bold>\<open>Not modelled.\<close> The Context subsystem (\<open>gwk-context\<close> with its compiler and verifier, \<open>context.rs\<close> of
  the kernel and its tables), which has a contract of its own; the terminal host and its mirror in
  \<open>wire/pty.rs\<close>; sockets and peer credentials (\<open>wire/listen.rs\<close>); process start, configuration and
  migrations; the adapters of external engines; the terminal interface, the command line and the tooling of
  the repository. PostgreSQL itself is represented by the statements the kernel sends and the constraints the
  schema declares; isolation is the writer lock the kernel takes, and a commit that fails leaves the tables
  as they were.
\<close>

end
